(* ===== verification/Prelude.thy ===== *)
theory Prelude
  imports Main "HOL-Library.Word" "HOL-Library.Signed_Division" "HOL-Library.Char_ord"
    "HOL-Library.List_Lexorder" "HOL-Library.AList"
begin

text \<open>
  Shared vocabulary of the development: the widths of Go's integers, time as
  nanoseconds since the Unix epoch, results of fallible calls, byte strings and
  the parts of package strings the wallet uses, and the row operations behind
  the SQL statements of the storage packages.

  A Go string is a byte sequence and is a \<open>string\<close> here (one \<open>char\<close> per byte).
\<close>

named_theorems ops_defs \<open>definitions of record-updating operations, unfolded by their laws\<close>

section \<open>Machine integers and time\<close>

type_synonym u8 = "8 word"
type_synonym u32 = "32 word"
type_synonym u64 = "64 word"

lemma sint_u64: "uint (w :: u64) < 2 ^ 63 \<Longrightarrow> sint w = uint w"
proof -
  assume "uint w < 2 ^ 63"
  moreover have "- (2 ^ 63) \<le> uint w" by (rule order_trans [OF _ uint_ge_0]) simp
  ultimately show ?thesis by (simp add: sint_uint signed_take_bit_int_eq_self_iff)
qed

lemma uint_le_sint: "uint (w :: u64) \<ge> 2 ^ 63 \<Longrightarrow> sint w < 0"
proof -
  assume "uint w \<ge> 2 ^ 63"
  then have "\<not> sint w = uint w" using sint_lt [of w] by auto
  moreover have "uint w = sint w mod 2 ^ 64" by (simp add: uint_sint take_bit_eq_mod)
  ultimately show ?thesis using sint_lt [of w] by (cases "sint w < 0") auto
qed

text \<open>
  A \<open>time.Time\<close> is its instant in nanoseconds since the Unix epoch; the zero value
  is the first of January of year 1, which \<open>IsZero\<close> tests for. A
  \<open>time.Duration\<close> is a number of nanoseconds.
\<close>

type_synonym time = int
type_synonym duration = int

definition Second :: duration where "Second = 1000000000"
definition Minute :: duration where "Minute = 60 * Second"

definition zero_time :: time where "zero_time = - 62135596800 * Second"

text \<open>\<open>t.Sub(u)\<close>, saturating at the range of an int64.\<close>

definition Sub_time :: "time \<Rightarrow> time \<Rightarrow> duration" where
  "Sub_time t u = max (- (2 ^ 63)) (min (2 ^ 63 - 1) (t - u))"

definition IsZero_time :: "time \<Rightarrow> bool" where
  "IsZero_time t \<longleftrightarrow> t = zero_time"

lemma Sub_time_gt: "0 \<le> d \<Longrightarrow> d < 2 ^ 63 - 1 \<Longrightarrow> Sub_time t u > d \<longleftrightarrow> t - u > d"
  by (auto simp: Sub_time_def)

section \<open>Go maps\<close>

text \<open>
  A Go map is an association list with distinct keys; \<open>AList.update\<close>, \<open>AList.delete\<close>
  and \<open>map_of\<close> are assignment, \<open>delete\<close> and lookup. Go iterates over a map in an
  unspecified order: the list order here is one of them, and the laws about iterations
  are stated over the set of entries.
\<close>

type_synonym ('k, 'v) gomap = "('k \<times> 'v) list"

definition map_keep :: "('v \<Rightarrow> bool) \<Rightarrow> ('k, 'v) gomap \<Rightarrow> ('k, 'v) gomap" where
  "map_keep P m = filter (\<lambda>(k, v). P v) m"

declare map_of_eq_Some_iff [simp del]

lemmas gomap_simps = AList.update_conv' AList.delete_conv'

lemma distinct_map_keep: "distinct (map fst m) \<Longrightarrow> distinct (map fst (map_keep P m))"
  by (simp add: map_keep_def distinct_map_filter)

lemma map_of_map_keep:
  "distinct (map fst m) \<Longrightarrow> map_of (map_keep P m) k =
     (case map_of m k of None \<Rightarrow> None | Some v \<Rightarrow> if P v then Some v else None)"
  by (induction m) (auto simp: map_keep_def split: option.splits dest: map_of_SomeD
      intro!: map_of_eq_None_iff [THEN iffD2])

lemma map_of_entries: "distinct (map fst m) \<Longrightarrow> map (\<lambda>k. (k, the (map_of m k))) (map fst m) = m"
  by (auto simp: o_def intro!: map_idI)

lemma values_of: "distinct (map fst m) \<Longrightarrow> snd ` set m = ran (map_of m)"
  by (simp add: ran_distinct)

section \<open>Fallible calls\<close>

text \<open>
  A function with an \<open>error\<close> result is \<open>Inl e\<close> or \<open>Inr v\<close>; \<open>bindE\<close> is the
  early return on an error. A function that may also panic has an \<open>outcome\<close>.
\<close>

definition the_default :: "'a \<Rightarrow> 'a option \<Rightarrow> 'a" where
  "the_default d x = (case x of None \<Rightarrow> d | Some v \<Rightarrow> v)"

lemma the_default_simps [simp]: "the_default d None = d" "the_default d (Some v) = v"
  by (simp_all add: the_default_def)

definition bindE :: "'e + 'a \<Rightarrow> ('a \<Rightarrow> 'e + 'b) \<Rightarrow> 'e + 'b" where
  "bindE m k = (case m of Inl e \<Rightarrow> Inl e | Inr v \<Rightarrow> k v)"

lemma bindE_simps [simp]:
  "bindE (Inl e) k = Inl e"
  "bindE (Inr v) k = k v"
  by (simp_all add: bindE_def)

text \<open>The value and the error of a result.\<close>

fun ok_of :: "'e + 'a \<Rightarrow> 'a option" where
  "ok_of (Inl e) = None"
| "ok_of (Inr v) = Some v"

fun error_of :: "'e + 'a \<Rightarrow> 'e option" where
  "error_of (Inl e) = Some e"
| "error_of (Inr v) = None"

lemma ok_of_Some [simp]: "ok_of r = Some v \<longleftrightarrow> r = Inr v" by (cases r) auto

lemma ok_of_None [simp]: "ok_of r = None \<longleftrightarrow> (\<exists>e. r = Inl e)" by (cases r) auto

lemma bindE_Inr_iff: "bindE m k = Inr r \<longleftrightarrow> (\<exists>v. m = Inr v \<and> k v = Inr r)"
  by (cases m) auto

datatype ('e, 'a) outcome = Returned 'a | Failed 'e | Panicked

section \<open>Byte strings\<close>

definition is_ascii :: "string \<Rightarrow> bool" where
  "is_ascii s \<longleftrightarrow> (\<forall>c \<in> set s. (of_char c :: nat) < 128)"

definition lower_char :: "char \<Rightarrow> char" where
  "lower_char c = (if 65 \<le> (of_char c :: nat) \<and> (of_char c :: nat) \<le> 90
                   then char_of ((of_char c :: nat) + 32) else c)"

definition upper_char :: "char \<Rightarrow> char" where
  "upper_char c = (if 97 \<le> (of_char c :: nat) \<and> (of_char c :: nat) \<le> 122
                   then char_of ((of_char c :: nat) - 32) else c)"

text \<open>
  \<open>ToLower\<close> and \<open>ToUpper\<close> on ASCII input, the fast path of package strings.
  Where a caller may pass other text, the non-ASCII path is a parameter
  (\<open>ToUpper_with\<close>).
\<close>

definition ToLower :: "string \<Rightarrow> string" where "ToLower = map lower_char"
definition ToUpper :: "string \<Rightarrow> string" where "ToUpper = map upper_char"

definition ToUpper_with :: "(string \<Rightarrow> string) \<Rightarrow> string \<Rightarrow> string" where
  "ToUpper_with uni s = (if is_ascii s then ToUpper s else uni s)"

definition EqualFold :: "string \<Rightarrow> string \<Rightarrow> bool" where
  "EqualFold a b \<longleftrightarrow> ToLower a = ToLower b"

definition HasPrefix :: "string \<Rightarrow> string \<Rightarrow> bool" where
  "HasPrefix s p \<longleftrightarrow> take (length p) s = p"

definition TrimPrefix :: "string \<Rightarrow> string \<Rightarrow> string" where
  "TrimPrefix s p = (if HasPrefix s p then drop (length p) s else s)"

fun Contains :: "string \<Rightarrow> string \<Rightarrow> bool" where
  "Contains [] p \<longleftrightarrow> p = []"
| "Contains (c # cs) p \<longleftrightarrow> HasPrefix (c # cs) p \<or> Contains cs p"

lemma of_char_lower_char:
  "(of_char (lower_char c) :: nat)
     = (if 65 \<le> (of_char c :: nat) \<and> (of_char c :: nat) \<le> 90 then of_char c + 32 else of_char c)"
  by (simp add: lower_char_def)

lemma lower_char_idem [simp]: "lower_char (lower_char c) = lower_char c"
proof -
  let ?n = "of_char c :: nat"
  have "\<not> (65 \<le> (of_char (lower_char c) :: nat) \<and> (of_char (lower_char c) :: nat) \<le> 90)"
    by (auto simp: of_char_lower_char)
  then show ?thesis unfolding lower_char_def [of "lower_char c"] by (rule if_not_P)
qed

lemma ToLower_idem [simp]: "ToLower (ToLower s) = ToLower s"
  by (simp add: ToLower_def o_def)

lemma length_ToLower [simp]: "length (ToLower s) = length s"
  by (simp add: ToLower_def)

lemma ToLower_append [simp]: "ToLower (a @ b) = ToLower a @ ToLower b"
  by (simp add: ToLower_def)

lemma EqualFold_refl [simp]: "EqualFold s s"
  by (simp add: EqualFold_def)

lemma HasPrefix_append [simp]: "HasPrefix (p @ s) p"
  by (simp add: HasPrefix_def)

lemma TrimPrefix_append [simp]: "TrimPrefix (p @ s) p = s"
  by (simp add: TrimPrefix_def)

section \<open>Tables\<close>

text \<open>
  A table is the list of its rows in insertion order. \<open>update_where\<close> and
  \<open>delete_where\<close> are UPDATE and DELETE with a WHERE clause; the number of matching
  rows is what RowsAffected reports.
\<close>

definition update_where :: "('r \<Rightarrow> bool) \<Rightarrow> ('r \<Rightarrow> 'r) \<Rightarrow> 'r list \<Rightarrow> 'r list" where
  "update_where p f rows = map (\<lambda>r. if p r then f r else r) rows"

definition delete_where :: "('r \<Rightarrow> bool) \<Rightarrow> 'r list \<Rightarrow> 'r list" where
  "delete_where p rows = filter (\<lambda>r. \<not> p r) rows"

definition count_where :: "('r \<Rightarrow> bool) \<Rightarrow> 'r list \<Rightarrow> nat" where
  "count_where p rows = length (filter p rows)"

text \<open>\<open>LIMIT n\<close>: a negative bound means no limit in SQLite.\<close>

definition sql_limit :: "int \<Rightarrow> 'r list \<Rightarrow> 'r list" where
  "sql_limit n rows = (if n < 0 then rows else take (nat n) rows)"

definition sql_offset :: "int \<Rightarrow> 'r list \<Rightarrow> 'r list" where
  "sql_offset n rows = drop (nat n) rows"

lemma count_where_0_iff: "count_where p rows = 0 \<longleftrightarrow> (\<forall>r \<in> set rows. \<not> p r)"
  by (auto simp: count_where_def filter_empty_conv)

lemma map_update_where:
  assumes "\<And>r. k (f r) = k r"
  shows "map k (update_where p f rows) = map k rows"
  using assms by (simp add: update_where_def)

lemma image_update_where:
  assumes "\<And>r. k (f r) = k r"
  shows "k ` set (update_where p f rows) = k ` set rows"
  using arg_cong [OF map_update_where [of k f p rows], of set] assms by simp

lemma set_update_where:
  "set (update_where p f rows) = {r \<in> set rows. \<not> p r} \<union> f ` {r \<in> set rows. p r}"
  by (auto simp: update_where_def)

lemma update_where_none: "(\<forall>r \<in> set rows. \<not> p r) \<Longrightarrow> update_where p f rows = rows"
  by (simp add: update_where_def map_idI)

lemma set_delete_where: "set (delete_where p rows) = {r \<in> set rows. \<not> p r}"
  by (auto simp: delete_where_def)

lemma distinct_map_delete_where:
  "distinct (map k rows) \<Longrightarrow> distinct (map k (delete_where p rows))"
  by (simp add: delete_where_def distinct_map_filter)

lemma delete_where_idem: "delete_where p (delete_where p rows) = delete_where p rows"
  by (simp add: delete_where_def)

lemma find_Some_unique:
  assumes "distinct (map k rows)" and "r \<in> set rows"
  shows "find (\<lambda>x. k x = k r) rows = Some r"
  using assms by (induction rows) (auto simp: image_iff)

lemma find_None_iff_all: "find p rows = None \<longleftrightarrow> (\<forall>r \<in> set rows. \<not> p r)"
  by (auto simp: find_None_iff)

text \<open>The row of a key, and INSERT OR REPLACE on a table with a key.\<close>

definition row_of :: "('r \<Rightarrow> 'k) \<Rightarrow> 'r list \<Rightarrow> 'k \<Rightarrow> 'r option" where
  "row_of key rows k = find (\<lambda>r. key r = k) rows"

definition insert_or_replace :: "('r \<Rightarrow> 'k) \<Rightarrow> 'r \<Rightarrow> 'r list \<Rightarrow> 'r list" where
  "insert_or_replace key r rows = delete_where (\<lambda>x. key x = key r) rows @ [r]"

lemma row_of_Nil [simp]: "row_of key [] k = None"
  by (simp add: row_of_def)

lemma row_of_Cons: "row_of key (r # rows) k = (if key r = k then Some r else row_of key rows k)"
  by (simp add: row_of_def)

lemma row_of_append:
  "row_of key (xs @ ys) k = (case row_of key xs k of None \<Rightarrow> row_of key ys k | Some r \<Rightarrow> Some r)"
  by (induction xs) (auto simp: row_of_Cons)

lemma row_of_SomeD: "row_of key rows k = Some r \<Longrightarrow> r \<in> set rows \<and> key r = k"
  by (auto simp: row_of_def find_Some_iff)

lemma row_of_None_iff: "row_of key rows k = None \<longleftrightarrow> k \<notin> key ` set rows"
  by (auto simp: row_of_def find_None_iff)

lemma row_of_iff:
  "distinct (map key rows) \<Longrightarrow> row_of key rows k = Some r \<longleftrightarrow> r \<in> set rows \<and> key r = k"
  by (induction rows) (auto simp: row_of_Cons)

lemma row_of_delete_where:
  "distinct (map key rows) \<Longrightarrow> row_of key (delete_where p rows) k =
     (case row_of key rows k of None \<Rightarrow> None | Some r \<Rightarrow> if p r then None else Some r)"
  by (induction rows) (auto simp: row_of_Cons delete_where_def row_of_None_iff split: option.splits
      dest!: row_of_SomeD)

lemma row_of_update_key:
  assumes "\<And>r. key (f r) = key r"
  shows "row_of key (update_where (\<lambda>r. key r = k) f rows) k' =
    (if k' = k then map_option f (row_of key rows k) else row_of key rows k')"
  by (induction rows) (auto simp: row_of_Cons update_where_def assms)

lemma row_of_insert_or_replace:
  "row_of key (insert_or_replace key r rows) k = (if k = key r then Some r else row_of key rows k)"
  by (induction rows)
    (auto simp: row_of_Cons insert_or_replace_def delete_where_def row_of_append)

lemma distinct_insert_or_replace:
  "distinct (map key rows) \<Longrightarrow> distinct (map key (insert_or_replace key r rows))"
  by (auto simp: insert_or_replace_def distinct_map_delete_where set_delete_where)

text \<open>
  INSERT into a table with two unique columns: \<open>None\<close> is the violation of one of them.
\<close>

definition insert_unique :: "('r \<Rightarrow> 'a) \<Rightarrow> ('r \<Rightarrow> 'b) \<Rightarrow> 'r \<Rightarrow> 'r list \<Rightarrow> 'r list option" where
  "insert_unique k\<^sub>1 k\<^sub>2 r rows =
     (if list_ex (\<lambda>x. k\<^sub>1 x = k\<^sub>1 r \<or> k\<^sub>2 x = k\<^sub>2 r) rows then None else Some (rows @ [r]))"

lemma row_of_map: "row_of k (map f es) i = map_option f (row_of (\<lambda>e. k (f e)) es i)"
  by (induction es) (auto simp: row_of_Cons)

lemma update_where_map:
  assumes "\<And>e. p (f e) = q e" "\<And>e. u (f e) = f (v e)"
  shows "update_where p u (map f es) = map f (update_where q v es)"
  using assms by (simp add: update_where_def)

lemma delete_where_map:
  assumes "\<And>e. p (f e) = q e"
  shows "delete_where p (map f es) = map f (delete_where q es)"
  using assms by (simp add: delete_where_def filter_map o_def)

lemma count_where_map:
  assumes "\<And>e. p (f e) = q e"
  shows "count_where p (map f es) = count_where q es"
  using assms by (simp add: count_where_def filter_map o_def)

lemma count_where_key: "count_where (\<lambda>r. k r = i) rows = 0 \<longleftrightarrow> row_of k rows i = None"
  by (auto simp: count_where_0_iff row_of_None_iff)

lemma count_where_row:
  "distinct (map k rows) \<Longrightarrow> row_of k rows i = Some r \<Longrightarrow> count_where (\<lambda>r. k r = i) rows = 1"
proof (induction rows)
  case (Cons x rows)
  then show ?case
    by (cases "k x = i") (auto simp: row_of_Cons count_where_def filter_empty_conv image_iff)
qed simp

lemma row_of_delete_key:
  "row_of key (delete_where (\<lambda>r. key r = k) rows) k' = (if k' = k then None else row_of key rows k')"
  by (induction rows) (auto simp: row_of_Cons delete_where_def)

lemma ran_row_of: "distinct (map key rows) \<Longrightarrow> ran (row_of key rows) = set rows"
  by (auto simp: ran_def row_of_iff)

end
