(* ===== verification/Strconv.thy ===== *)
theory Strconv
  imports Prelude
begin

text \<open>
  The digit strings of packages strconv and math/big that the wallet writes and
  reads: \<open>FormatUint\<close> and \<open>big.Int.Text\<close> in a base, \<open>ParseUint\<close> and
  \<open>SetString\<close> in a base, and the round trips between them.
\<close>

definition digit_char :: "nat \<Rightarrow> char" where
  "digit_char d = (if d < 10 then char_of (48 + d) else char_of (87 + d))"

definition digit_val :: "char \<Rightarrow> nat option" where
  "digit_val c = (let n = of_char c :: nat in
     if 48 \<le> n \<and> n \<le> 57 then Some (n - 48)
     else if 97 \<le> n \<and> n \<le> 122 then Some (n - 87)
     else if 65 \<le> n \<and> n \<le> 90 then Some (n - 55)
     else None)"

function show_base :: "nat \<Rightarrow> nat \<Rightarrow> string" where
  "show_base b n = (if b < 2 \<or> n < b then [digit_char n]
                    else show_base b (n div b) @ [digit_char (n mod b)])"
  by pat_completeness auto
termination
  by (relation "measure snd") (auto simp: div_less_dividend)

declare show_base.simps [simp del]

definition show_nat :: "nat \<Rightarrow> string" where "show_nat = show_base 10"

text \<open>\<open>big.Int.String\<close>: a minus sign before the digits of a negative number.\<close>

definition show_int :: "int \<Rightarrow> string" where
  "show_int i = (if i < 0 then CHR ''-'' # show_nat (nat (- i)) else show_nat (nat i))"

text \<open>The digits of a numeral from the left, with the value read so far.\<close>

fun parse_digits :: "nat \<Rightarrow> nat \<Rightarrow> string \<Rightarrow> nat option" where
  "parse_digits b acc [] = Some acc"
| "parse_digits b acc (c # cs) =
     (case digit_val c of
        None \<Rightarrow> None
      | Some d \<Rightarrow> if d < b then parse_digits b (acc * b + d) cs else None)"

text \<open>\<open>ParseUint\<close> without the range check: a nonempty digit string.\<close>

definition parse_base :: "nat \<Rightarrow> string \<Rightarrow> nat option" where
  "parse_base b s = (if s = [] then None else parse_digits b 0 s)"

text \<open>\<open>strconv.ParseUint(s, base, bits)\<close>: out of range is an error.\<close>

definition ParseUint :: "nat \<Rightarrow> nat \<Rightarrow> string \<Rightarrow> nat option" where
  "ParseUint b bits s =
     (case parse_base b s of None \<Rightarrow> None | Some n \<Rightarrow> if n < 2 ^ bits then Some n else None)"

text \<open>\<open>new(big.Int).SetString(s, base)\<close> for a fixed base: an optional sign, then digits.\<close>

definition SetString :: "nat \<Rightarrow> string \<Rightarrow> int option" where
  "SetString b s =
     (case s of
        [] \<Rightarrow> None
      | c # cs \<Rightarrow>
          if c = CHR ''-'' then map_option (\<lambda>n. - int n) (parse_base b cs)
          else if c = CHR ''+'' then map_option int (parse_base b cs)
          else map_option int (parse_base b s))"

lemma digit_val_char: "d < 36 \<Longrightarrow> digit_val (digit_char d) = Some d"
  by (auto simp: digit_val_def digit_char_def Let_def)

lemma digit_char_not_sign:
  assumes "d < 36"
  shows "digit_char d \<noteq> CHR ''-''" "digit_char d \<noteq> CHR ''+''"
proof -
  have "digit_val (digit_char d) \<noteq> digit_val CHR ''-''" "digit_val (digit_char d) \<noteq> digit_val CHR ''+''"
    by (simp_all add: digit_val_char [OF assms]) (simp_all add: digit_val_def)
  then show "digit_char d \<noteq> CHR ''-''" "digit_char d \<noteq> CHR ''+''" by auto
qed

lemma parse_digits_append:
  "parse_digits b acc (xs @ ys) =
     (case parse_digits b acc xs of None \<Rightarrow> None | Some a \<Rightarrow> parse_digits b a ys)"
  by (induction xs arbitrary: acc) (auto split: option.splits)

lemma show_base_not_Nil [simp]: "show_base b n \<noteq> []"
  by (subst show_base.simps) simp

lemma parse_digits_show_base:
  assumes "2 \<le> b" "b \<le> 36"
  shows "parse_digits b 0 (show_base b n) = Some n"
proof (induction n rule: less_induct)
  case (less n)
  show ?case
  proof (cases "n < b")
    case True
    with assms show ?thesis
      by (subst show_base.simps) (simp add: digit_val_char)
  next
    case False
    with assms have "n div b < n" by simp
    then have IH: "parse_digits b 0 (show_base b (n div b)) = Some (n div b)" by (rule less.IH)
    have "n mod b < b" using assms by simp
    moreover from this assms have "n mod b < 36" by linarith
    ultimately show ?thesis using False assms IH
      by (subst show_base.simps) (simp add: parse_digits_append digit_val_char)
  qed
qed

lemma parse_base_show_base:
  "2 \<le> b \<Longrightarrow> b \<le> 36 \<Longrightarrow> parse_base b (show_base b n) = Some n"
  by (simp add: parse_base_def parse_digits_show_base)

lemma show_base_Cons:
  assumes "2 \<le> b" "b \<le> 36"
  shows "\<exists>d cs. d < b \<and> show_base b n = digit_char d # cs"
proof (induction n rule: less_induct)
  case (less n)
  show ?case
  proof (cases "n < b")
    case True
    then show ?thesis by (auto simp: show_base.simps [of b n])
  next
    case False
    with assms have "n div b < n" by simp
    from less.IH [OF this] False assms show ?thesis
      by (auto simp: show_base.simps [of b n])
  qed
qed

lemma SetString_show_base:
  assumes "2 \<le> b" "b \<le> 36"
  shows "SetString b (show_base b n) = Some (int n)"
proof -
  obtain d cs where "d < b" and eq: "show_base b n = digit_char d # cs"
    using show_base_Cons [OF assms] by blast
  moreover have "digit_char d \<noteq> CHR ''-''" "digit_char d \<noteq> CHR ''+''"
    using \<open>d < b\<close> assms by (auto intro!: digit_char_not_sign)
  ultimately show ?thesis
    using parse_base_show_base [OF assms, of n] by (simp add: SetString_def)
qed

lemma SetString_show_int: "SetString 10 (show_int i) = Some i"
proof (cases "i < 0")
  case True
  then show ?thesis
    by (simp add: show_int_def show_nat_def SetString_def parse_base_show_base)
next
  case False
  then show ?thesis
    by (simp add: show_int_def show_nat_def SetString_show_base)
qed

section \<open>Fixed-width hex\<close>

fun fixed_hex :: "nat \<Rightarrow> nat \<Rightarrow> string" where
  "fixed_hex 0 n = []"
| "fixed_hex (Suc w) n = fixed_hex w (n div 16) @ [digit_char (n mod 16)]"

lemma length_fixed_hex [simp]: "length (fixed_hex w n) = w"
  by (induction w arbitrary: n) simp_all

lemma set_fixed_hex: "c \<in> set (fixed_hex w n) \<Longrightarrow> \<exists>d < 16. c = digit_char d"
  by (induction w arbitrary: n) (auto intro: exI [of _ "n mod 16" for n])

lemma parse_digits_fixed_hex:
  "parse_digits 16 acc (fixed_hex w n) = Some (acc * 16 ^ w + n mod 16 ^ w)"
proof (induction w arbitrary: n)
  case (Suc w)
  have "(n div 16) mod 16 ^ w * 16 + n mod 16 = n mod 16 ^ Suc w"
    using mod_mult2_eq [of n 16 "16 ^ w"] by simp
  then show ?case
    by (simp add: Suc parse_digits_append digit_val_char algebra_simps)
qed simp

lemma parse_digits_cong:
  "list_all2 (\<lambda>c d. digit_val c = digit_val d) s t \<Longrightarrow> parse_digits b acc s = parse_digits b acc t"
  by (induction s t arbitrary: acc rule: list_all2_induct) (auto split: option.splits)

end
