(* ===== verification/Errors.thy ===== *)
theory Errors
  imports Prelude
begin

text \<open>
  pkg/errors: the code-tagged error, its wrap chain, and the mapping to and from
  gRPC status codes. An error value is a tree: \<open>AppError\<close> is \<open>*errors.Error\<close>,
  \<open>Sentinel\<close> a package-level \<open>errors.New\<close> variable (its identity is its text),
  \<open>WrapError\<close> a \<open>fmt.Errorf\<close> value with its text and the operands of its
  \<open>%w\<close> verbs, \<open>StatusError\<close> a gRPC status error. A nil error is \<open>None\<close>.
\<close>

datatype Code =
    CodeUnknown | CodeOK | CodeNotFound | CodeAlreadyExists | CodeInvalidArgument
  | CodeUnauthenticated | CodePermissionDenied | CodeInternal | CodeUnavailable
  | CodeTimeout | CodeCanceled | CodeConflict | CodeTooManyRequests | CodeValidation
  | CodeFailedPrecondition | CodeOutOfRange | CodeUnimplemented | CodeDataLoss
  | CodeOther string

datatype grpc_code =
    OK | Canceled | Unknown | InvalidArgument | DeadlineExceeded | NotFound
  | AlreadyExists | PermissionDenied | ResourceExhausted | FailedPrecondition
  | Aborted | OutOfRange | Unimplemented | Internal | Unavailable | DataLoss
  | Unauthenticated

datatype err =
    AppError Code string "err option"
  | Sentinel string
  | WrapError string "err list"
  | StatusError grpc_code string

fun code_text :: "Code \<Rightarrow> string" where
  "code_text CodeUnknown = ''UNKNOWN''"
| "code_text CodeOK = ''OK''"
| "code_text CodeNotFound = ''NOT_FOUND''"
| "code_text CodeAlreadyExists = ''ALREADY_EXISTS''"
| "code_text CodeInvalidArgument = ''INVALID_ARGUMENT''"
| "code_text CodeUnauthenticated = ''UNAUTHENTICATED''"
| "code_text CodePermissionDenied = ''PERMISSION_DENIED''"
| "code_text CodeInternal = ''INTERNAL''"
| "code_text CodeUnavailable = ''UNAVAILABLE''"
| "code_text CodeTimeout = ''TIMEOUT''"
| "code_text CodeCanceled = ''CANCELED''"
| "code_text CodeConflict = ''CONFLICT''"
| "code_text CodeTooManyRequests = ''TOO_MANY_REQUESTS''"
| "code_text CodeValidation = ''VALIDATION_FAILED''"
| "code_text CodeFailedPrecondition = ''FAILED_PRECONDITION''"
| "code_text CodeOutOfRange = ''OUT_OF_RANGE''"
| "code_text CodeUnimplemented = ''UNIMPLEMENTED''"
| "code_text CodeDataLoss = ''DATA_LOSS''"
| "code_text (CodeOther s) = s"

fun grpc_code_text :: "grpc_code \<Rightarrow> string" where
  "grpc_code_text OK = ''OK''"
| "grpc_code_text Canceled = ''Canceled''"
| "grpc_code_text Unknown = ''Unknown''"
| "grpc_code_text InvalidArgument = ''InvalidArgument''"
| "grpc_code_text DeadlineExceeded = ''DeadlineExceeded''"
| "grpc_code_text NotFound = ''NotFound''"
| "grpc_code_text AlreadyExists = ''AlreadyExists''"
| "grpc_code_text PermissionDenied = ''PermissionDenied''"
| "grpc_code_text ResourceExhausted = ''ResourceExhausted''"
| "grpc_code_text FailedPrecondition = ''FailedPrecondition''"
| "grpc_code_text Aborted = ''Aborted''"
| "grpc_code_text OutOfRange = ''OutOfRange''"
| "grpc_code_text Unimplemented = ''Unimplemented''"
| "grpc_code_text Internal = ''Internal''"
| "grpc_code_text Unavailable = ''Unavailable''"
| "grpc_code_text DataLoss = ''DataLoss''"
| "grpc_code_text Unauthenticated = ''Unauthenticated''"

section \<open>Construction and text\<close>

definition New :: "Code \<Rightarrow> string \<Rightarrow> err" where
  "New code message = AppError code message None"

text \<open>\<open>Wrapf\<close> with its formatted message; nil stays nil.\<close>

definition Wrapf :: "err option \<Rightarrow> Code \<Rightarrow> string \<Rightarrow> err option" where
  "Wrapf e code message = (case e of None \<Rightarrow> None | Some c \<Rightarrow> Some (AppError code message (Some c)))"

text \<open>The form every caller uses, after its own nil check.\<close>

abbreviation wrap :: "Code \<Rightarrow> string \<Rightarrow> err \<Rightarrow> err" where
  "wrap code message e \<equiv> AppError code message (Some e)"

lemma Wrapf_Some: "Wrapf (Some e) code message = Some (wrap code message e)"
  by (simp add: Wrapf_def)

fun Error_text :: "err \<Rightarrow> string" where
  "Error_text (AppError code message (Some cause)) =
     code_text code @ '': '' @ message @ '': '' @ Error_text cause"
| "Error_text (AppError code message None) = code_text code @ '': '' @ message"
| "Error_text (Sentinel s) = s"
| "Error_text (WrapError s es) = s"
| "Error_text (StatusError c m) = ''rpc error: code = '' @ grpc_code_text c @ '' desc = '' @ m"

section \<open>Walking the chain\<close>

text \<open>\<open>errors.As\<close> with a \<open>**Error\<close> target: the first \<open>*Error\<close> in pre-order.\<close>

fun As_Error :: "err \<Rightarrow> err option" and As_Error_list :: "err list \<Rightarrow> err option" where
  "As_Error (AppError c m ca) = Some (AppError c m ca)"
| "As_Error (Sentinel s) = None"
| "As_Error (StatusError c m) = None"
| "As_Error (WrapError s es) = As_Error_list es"
| "As_Error_list [] = None"
| "As_Error_list (e # es) = (case As_Error e of Some a \<Rightarrow> Some a | None \<Rightarrow> As_Error_list es)"

text \<open>\<open>status.FromError\<close>: a status error, or the first one the chain wraps.\<close>

fun FromError :: "err \<Rightarrow> grpc_code option" and FromError_list :: "err list \<Rightarrow> grpc_code option" where
  "FromError (StatusError c m) = Some c"
| "FromError (Sentinel s) = None"
| "FromError (AppError c m None) = None"
| "FromError (AppError c m (Some e)) = FromError e"
| "FromError (WrapError s es) = FromError_list es"
| "FromError_list [] = None"
| "FromError_list (e # es) = (case FromError e of Some a \<Rightarrow> Some a | None \<Rightarrow> FromError_list es)"

text \<open>The method \<open>Is\<close> of \<open>*Error\<close>: the codes agree.\<close>

definition Error_Is :: "Code \<Rightarrow> err \<Rightarrow> bool" where
  "Error_Is code target =
     (case As_Error target of Some (AppError c m ca) \<Rightarrow> code = c | _ \<Rightarrow> False)"

fun Is :: "err \<Rightarrow> err \<Rightarrow> bool" and Is_list :: "err list \<Rightarrow> err \<Rightarrow> bool" where
  "Is (AppError c m None) t = Error_Is c t"
| "Is (AppError c m (Some e)) t = (Error_Is c t \<or> Is e t)"
| "Is (Sentinel s) t = (t = Sentinel s)"
| "Is (StatusError c m) t = (t = StatusError c m)"
| "Is (WrapError s es) t = Is_list es t"
| "Is_list [] t = False"
| "Is_list (e # es) t = (Is e t \<or> Is_list es t)"

section \<open>gRPC codes\<close>

fun grpcCode :: "Code \<Rightarrow> grpc_code" where
  "grpcCode CodeOK = OK"
| "grpcCode CodeNotFound = NotFound"
| "grpcCode CodeAlreadyExists = AlreadyExists"
| "grpcCode CodeInvalidArgument = InvalidArgument"
| "grpcCode CodeValidation = InvalidArgument"
| "grpcCode CodeUnauthenticated = Unauthenticated"
| "grpcCode CodePermissionDenied = PermissionDenied"
| "grpcCode CodeUnavailable = Unavailable"
| "grpcCode CodeTimeout = DeadlineExceeded"
| "grpcCode CodeCanceled = Canceled"
| "grpcCode CodeConflict = Aborted"
| "grpcCode CodeTooManyRequests = ResourceExhausted"
| "grpcCode CodeInternal = Internal"
| "grpcCode CodeUnknown = Internal"
| "grpcCode CodeFailedPrecondition = FailedPrecondition"
| "grpcCode CodeOutOfRange = OutOfRange"
| "grpcCode CodeUnimplemented = Unimplemented"
| "grpcCode CodeDataLoss = DataLoss"
| "grpcCode (CodeOther s) = Unknown"

fun grpcCodeToCode :: "grpc_code \<Rightarrow> Code" where
  "grpcCodeToCode OK = CodeOK"
| "grpcCodeToCode NotFound = CodeNotFound"
| "grpcCodeToCode AlreadyExists = CodeAlreadyExists"
| "grpcCodeToCode InvalidArgument = CodeInvalidArgument"
| "grpcCodeToCode Unauthenticated = CodeUnauthenticated"
| "grpcCodeToCode PermissionDenied = CodePermissionDenied"
| "grpcCodeToCode Unavailable = CodeUnavailable"
| "grpcCodeToCode DeadlineExceeded = CodeTimeout"
| "grpcCodeToCode Canceled = CodeCanceled"
| "grpcCodeToCode Aborted = CodeConflict"
| "grpcCodeToCode ResourceExhausted = CodeTooManyRequests"
| "grpcCodeToCode Internal = CodeInternal"
| "grpcCodeToCode Unknown = CodeUnknown"
| "grpcCodeToCode FailedPrecondition = CodeFailedPrecondition"
| "grpcCodeToCode OutOfRange = CodeOutOfRange"
| "grpcCodeToCode Unimplemented = CodeUnimplemented"
| "grpcCodeToCode DataLoss = CodeDataLoss"

definition GetCode :: "err option \<Rightarrow> Code" where
  "GetCode e = (case e of
     None \<Rightarrow> CodeUnknown
   | Some x \<Rightarrow> (case As_Error x of
        Some (AppError c m ca) \<Rightarrow> c
      | _ \<Rightarrow> (case FromError x of Some g \<Rightarrow> grpcCodeToCode g | None \<Rightarrow> CodeUnknown)))"

text \<open>\<open>status.Error\<close>: code OK is the nil error.\<close>

definition status_Error :: "grpc_code \<Rightarrow> string \<Rightarrow> err option" where
  "status_Error c m = (if c = OK then None else Some (StatusError c m))"

definition ToGRPCError :: "err option \<Rightarrow> err option" where
  "ToGRPCError e = (case e of
     None \<Rightarrow> None
   | Some x \<Rightarrow> (case As_Error x of
        Some (AppError code message cause) \<Rightarrow>
          (let msg = (case cause of
                        None \<Rightarrow> message
                      | Some ca \<Rightarrow> (let cm = Error_text ca in
                          if cm \<noteq> '''' \<and> cm \<noteq> message then message @ '': '' @ cm else message))
           in status_Error (grpcCode code) msg)
      | _ \<Rightarrow> status_Error Unknown (Error_text x)))"

section \<open>Laws\<close>

text \<open>The codes of every \<open>*Error\<close> of a chain.\<close>

fun codes_in :: "err \<Rightarrow> Code set" and codes_in_list :: "err list \<Rightarrow> Code set" where
  "codes_in (AppError c m None) = {c}"
| "codes_in (AppError c m (Some e)) = insert c (codes_in e)"
| "codes_in (Sentinel s) = {}"
| "codes_in (StatusError c m) = {}"
| "codes_in (WrapError s es) = codes_in_list es"
| "codes_in_list [] = {}"
| "codes_in_list (e # es) = codes_in e \<union> codes_in_list es"

lemma Error_Is_AppError [simp]: "Error_Is c (AppError c' m ca) \<longleftrightarrow> c = c'"
  by (simp add: Error_Is_def)

lemma Is_AppError:
  "Is e (AppError c m ca) \<longleftrightarrow> c \<in> codes_in e"
  "Is_list es (AppError c m ca) \<longleftrightarrow> c \<in> codes_in_list es"
  by (induction e and es rule: codes_in_codes_in_list.induct) auto

lemma As_Error_AppError:
  "As_Error e = Some a \<Longrightarrow> \<exists>c m ca. a = AppError c m ca"
  "As_Error_list es = Some a \<Longrightarrow> \<exists>c m ca. a = AppError c m ca"
  by (induction e and es rule: As_Error_As_Error_list.induct) (auto split: option.splits)

lemma As_Error_None_iff:
  "As_Error e = None \<longleftrightarrow> codes_in e = {}"
  "As_Error_list es = None \<longleftrightarrow> codes_in_list es = {}"
  by (induction e and es rule: codes_in_codes_in_list.induct) (auto split: option.splits)

lemma As_Error_code_in:
  "As_Error e = Some (AppError c m ca) \<Longrightarrow> c \<in> codes_in e"
  "As_Error_list es = Some (AppError c m ca) \<Longrightarrow> c \<in> codes_in_list es"
  by (induction e and es rule: codes_in_codes_in_list.induct) (auto split: option.splits)

lemma Is_wrap: "Is e t \<Longrightarrow> Is (wrap code message e) t"
  by simp

lemma GetCode_AppError [simp]: "GetCode (Some (AppError c m ca)) = c"
  by (simp add: GetCode_def)

text \<open>
  Mapping a code to its gRPC code and back is the identity for every code but the
  ones gRPC has no code of its own for: VALIDATION_FAILED comes back as
  INVALID_ARGUMENT, UNKNOWN as INTERNAL and a code outside the list as UNKNOWN.
\<close>

theorem grpc_code_roundtrip:
  "grpcCodeToCode (grpcCode c) =
     (case c of CodeValidation \<Rightarrow> CodeInvalidArgument | CodeUnknown \<Rightarrow> CodeInternal
      | CodeOther _ \<Rightarrow> CodeUnknown | _ \<Rightarrow> c)"
  by (cases c) simp_all

end
