(* ===== verification/Addresses.thy ===== *)
theory Addresses
  imports Strconv Errors
begin

text \<open>
  pkg/ethkit/address.go, and the parsing and printing of go-ethereum's common package it
  wraps. An address is its 20 bytes as a word. The letter case of the EIP-55 checksum is
  a Keccak hash of the digits, whose code is outside the repository's own: it is the
  parameter \<open>ck\<close>, which tells for an address and the index of one of its 40
  digits whether a letter there is printed in upper case.
\<close>

type_synonym address = "160 word"
type_synonym checksum = "address \<Rightarrow> nat \<Rightarrow> bool"

definition ZeroAddress :: address where "ZeroAddress = 0"

definition has0xPrefix :: "string \<Rightarrow> bool" where
  "has0xPrefix s \<longleftrightarrow> HasPrefix s ''0x'' \<or> HasPrefix s ''0X''"

definition strip0x :: "string \<Rightarrow> string" where
  "strip0x s = (if has0xPrefix s then drop 2 s else s)"

definition isHexCharacter :: "char \<Rightarrow> bool" where
  "isHexCharacter c \<longleftrightarrow> (case digit_val c of Some d \<Rightarrow> d < 16 | None \<Rightarrow> False)"

definition IsHexAddress :: "string \<Rightarrow> bool" where
  "IsHexAddress s \<longleftrightarrow> length (strip0x s) = 40 \<and> list_all isHexCharacter (strip0x s)"

text \<open>\<open>HexToAddress\<close> on a string that \<open>IsHexAddress\<close> accepts.\<close>

definition HexToAddress :: "string \<Rightarrow> address" where
  "HexToAddress s = (case parse_digits 16 0 (strip0x s) of Some n \<Rightarrow> word_of_nat n | None \<Rightarrow> 0)"

definition NewAddress :: "string \<Rightarrow> err + address" where
  "NewAddress hex =
     (if \<not> IsHexAddress hex then Inl (WrapError (''invalid ethereum address: '' @ hex) [])
      else Inr (HexToAddress hex))"

definition MustAddress :: "string \<Rightarrow> (err, address) outcome" where
  "MustAddress hex = (case NewAddress hex of Inl e \<Rightarrow> Panicked | Inr a \<Rightarrow> Returned a)"

definition address_hex :: "address \<Rightarrow> string" where
  "address_hex a = ''0x'' @ fixed_hex 40 (unat a)"

definition Hex :: "checksum \<Rightarrow> address \<Rightarrow> string" where
  "Hex ck a = ''0x'' @ map (\<lambda>(i, c). if (of_char c :: nat) > 57 \<and> ck a i then upper_char c else c)
                          (enumerate 0 (fixed_hex 40 (unat a)))"

definition Short :: "checksum \<Rightarrow> address \<Rightarrow> string" where
  "Short ck a = (let h = Hex ck a in
     if length h < 12 then h else take 6 h @ ''...'' @ drop (length h - 4) h)"

definition IsZero_address :: "address \<Rightarrow> bool" where "IsZero_address a \<longleftrightarrow> a = 0"

definition Equal_address :: "checksum \<Rightarrow> address \<Rightarrow> address \<Rightarrow> bool" where
  "Equal_address ck a b \<longleftrightarrow> EqualFold (Hex ck a) (Hex ck b)"

definition MarshalText_address :: "checksum \<Rightarrow> address \<Rightarrow> string" where
  "MarshalText_address ck a = Hex ck a"

definition UnmarshalText_address :: "string \<Rightarrow> err + address" where
  "UnmarshalText_address data = bindE (NewAddress data) Inr"

section \<open>Printing and parsing\<close>

lemma of_digit_char: "d < 16 \<Longrightarrow> (of_char (digit_char d) :: nat) = (if d < 10 then 48 + d else 87 + d)"
  by (simp add: digit_char_def)

lemma fixed_hex_chars:
  assumes "d < 16"
  shows "digit_val (upper_char (digit_char d)) = Some d" "lower_char (digit_char d) = digit_char d"
    "lower_char (upper_char (digit_char d)) = digit_char d"
    "(of_char (digit_char d) :: nat) < 128"
proof -
  note of_digit = of_digit_char [OF assms]
  have up: "(of_char (upper_char (digit_char d)) :: nat) = (if d < 10 then 48 + d else 55 + d)"
    using assms by (simp add: upper_char_def of_digit)
  show "digit_val (upper_char (digit_char d)) = Some d"
    using assms by (simp add: digit_val_def up)
  show "lower_char (digit_char d) = digit_char d"
    using assms by (simp add: lower_char_def of_digit)
  show "lower_char (upper_char (digit_char d)) = digit_char d"
    using assms by (simp add: lower_char_def up) (simp add: digit_char_def upper_char_def)
  show "(of_char (digit_char d) :: nat) < 128"
    using assms by (simp add: of_digit)
qed

lemma length_Hex [simp]: "length (Hex ck a) = 42"
  by (simp add: Hex_def)

lemma strip0x_0x [simp]: "strip0x (CHR ''0'' # CHR ''x'' # s) = s"
  by (simp add: strip0x_def has0xPrefix_def HasPrefix_def)

lemma Hex_digits:
  "list_all2 (\<lambda>c d. digit_val c = digit_val d \<and> lower_char c = d \<and> isHexCharacter c)
     (strip0x (Hex ck a)) (fixed_hex 40 (unat a))"
proof -
  have "digit_val (if (of_char c :: nat) > 57 \<and> b then upper_char c else c) = digit_val c
      \<and> lower_char (if (of_char c :: nat) > 57 \<and> b then upper_char c else c) = c
      \<and> isHexCharacter (if (of_char c :: nat) > 57 \<and> b then upper_char c else c)"
    if "c \<in> set (fixed_hex 40 (unat a))" for b c
    using set_fixed_hex [OF that] by (auto simp: fixed_hex_chars digit_val_char isHexCharacter_def)
  then show ?thesis
    by (simp add: Hex_def list_all2_conv_all_nth nth_enumerate_eq)
qed

lemma ToLower_Hex: "ToLower (Hex ck a) = address_hex a"
proof -
  have "map lower_char (strip0x (Hex ck a)) = fixed_hex 40 (unat a)"
    using Hex_digits [of ck a] by (simp add: list_all2_conv_all_nth list_eq_iff_nth_eq)
  then show ?thesis
    by (simp add: ToLower_def address_hex_def Hex_def lower_char_def)
qed

lemma parse_Hex: "parse_digits 16 0 (strip0x (Hex ck a)) = Some (unat a)"
proof -
  have "parse_digits 16 0 (strip0x (Hex ck a)) = parse_digits 16 0 (fixed_hex 40 (unat a))"
    using Hex_digits [of ck a] by (intro parse_digits_cong) (auto elim: list_all2_mono)
  also have "\<dots> = Some (unat a)"
    using unsigned_less [of a, where ?'a = nat] by (simp add: parse_digits_fixed_hex)
  finally show ?thesis .
qed

lemma NewAddress_Hex [simp]: "NewAddress (Hex ck a) = Inr a"
proof -
  have "list_all isHexCharacter (strip0x (Hex ck a))"
    using Hex_digits [of ck a] by (simp add: list_all2_conv_all_nth list_all_length)
  moreover have "length (strip0x (Hex ck a)) = 40" by (simp add: Hex_def)
  ultimately show ?thesis
    by (simp add: NewAddress_def IsHexAddress_def HexToAddress_def parse_Hex)
qed

lemma address_hex_Hex: "address_hex a = Hex (\<lambda>_ _. False) a"
  using ToLower_Hex [of "\<lambda>_ _. False" a]
  by (simp add: address_hex_def Hex_def map_snd_enumerate case_prod_beta' flip: snd_def)

lemma NewAddress_address_hex [simp]: "NewAddress (address_hex a) = Inr a"
  by (simp add: address_hex_Hex)

text \<open>
  Both texts determine the address: the maps and comparisons the code keys by
  \<open>Hex()\<close> or by its lower-case form are keyed by the address in the other theories.
\<close>

lemma Hex_inject [simp]: "Hex ck a = Hex ck b \<longleftrightarrow> a = b"
  using NewAddress_Hex [of ck a] NewAddress_Hex [of ck b] by (metis sum.inject(2))

lemma address_hex_inject [simp]: "address_hex a = address_hex b \<longleftrightarrow> a = b"
  by (simp add: address_hex_Hex)

lemma Equal_address_iff [simp]: "Equal_address ck a b \<longleftrightarrow> a = b"
  by (simp add: Equal_address_def EqualFold_def ToLower_Hex)

text \<open>
  An address survives its text form, whatever the letter case the checksum gives it:
  parsing the text of an address, or its lower-case text, gives the address, two
  addresses have equal texts only when they are equal, and \<open>Equal\<close> decides equality.
\<close>

theorem Address_text_roundtrip:
  "UnmarshalText_address (MarshalText_address ck a) = Inr a
   \<and> UnmarshalText_address (ToLower (MarshalText_address ck a)) = Inr a
   \<and> (MarshalText_address ck a = MarshalText_address ck b \<longleftrightarrow> a = b)
   \<and> (Equal_address ck a b \<longleftrightarrow> a = b)"
  by (simp add: UnmarshalText_address_def MarshalText_address_def ToLower_Hex)

end
