(* ===== verification/Decimals.thy ===== *)
theory Decimals
  imports Strconv
begin

text \<open>
  The operations of the vendored decimal library that the amounts rest on. A
  decimal is a coefficient and a base-10 exponent; \<open>Quo\<close>/\<open>Rem\<close> of big.Int
  truncate (\<open>sdiv\<close>, \<open>smod\<close>), \<open>DivMod\<close> is Euclidean (\<open>div\<close>, \<open>mod\<close> for
  the positive divisors used here). \<open>Mul\<close> and \<open>QuoRem\<close> panic when an exponent
  leaves the int32 range or on division by zero.
\<close>

datatype decimal = Dec (coeff: int) (dexp: int)

definition int32_range :: "int \<Rightarrow> bool" where
  "int32_range e \<longleftrightarrow> - (2 ^ 31) \<le> e \<and> e < 2 ^ 31"

definition DivisionPrecision :: int where "DivisionPrecision = 16"

definition rescale :: "decimal \<Rightarrow> int \<Rightarrow> decimal" where
  "rescale d e =
     (if dexp d = e then d
      else if dexp d < e then Dec (coeff d sdiv 10 ^ nat (e - dexp d)) e
      else Dec (coeff d * 10 ^ nat (dexp d - e)) e)"

definition RescalePair :: "decimal \<Rightarrow> decimal \<Rightarrow> decimal \<times> decimal" where
  "RescalePair d1 d2 =
     (if dexp d1 < dexp d2 then (d1, rescale d2 (dexp d1))
      else if dexp d2 < dexp d1 then (rescale d1 (dexp d2), d2)
      else (d1, d2))"

definition dec_Add :: "decimal \<Rightarrow> decimal \<Rightarrow> decimal" where
  "dec_Add d d2 = (case RescalePair d d2 of (a, b) \<Rightarrow> Dec (coeff a + coeff b) (dexp a))"

definition dec_Sub :: "decimal \<Rightarrow> decimal \<Rightarrow> decimal" where
  "dec_Sub d d2 = (case RescalePair d d2 of (a, b) \<Rightarrow> Dec (coeff a - coeff b) (dexp a))"

definition dec_Abs :: "decimal \<Rightarrow> decimal" where
  "dec_Abs d = Dec \<bar>coeff d\<bar> (dexp d)"

definition dec_lt :: "decimal \<Rightarrow> decimal \<Rightarrow> bool" where
  "dec_lt d d2 = (case RescalePair d d2 of (a, b) \<Rightarrow> coeff a < coeff b)"

text \<open>\<open>Mul\<close>: \<open>None\<close> is the panic on an exponent overflow.\<close>

definition dec_Mul :: "decimal \<Rightarrow> decimal \<Rightarrow> decimal option" where
  "dec_Mul d d2 =
     (if int32_range (dexp d + dexp d2) then Some (Dec (coeff d * coeff d2) (dexp d + dexp d2))
      else None)"

definition QuoRem_panics :: "decimal \<Rightarrow> decimal \<Rightarrow> int \<Rightarrow> bool" where
  "QuoRem_panics d d2 precision \<longleftrightarrow>
     coeff d2 = 0 \<or> \<not> int32_range (dexp d - dexp d2 + precision)"

definition dec_QuoRem :: "decimal \<Rightarrow> decimal \<Rightarrow> int \<Rightarrow> decimal \<times> decimal" where
  "dec_QuoRem d d2 precision =
     (let scale = - precision; e = dexp d - dexp d2 - scale in
      if e < 0 then
        (let aa = coeff d; bb = coeff d2 * 10 ^ nat (- e) in
         (Dec (aa sdiv bb) scale, Dec (aa smod bb) (dexp d)))
      else
        (let aa = coeff d * 10 ^ nat e; bb = coeff d2 in
         (Dec (aa sdiv bb) scale, Dec (aa smod bb) (scale + dexp d2))))"

definition dec_DivRound :: "decimal \<Rightarrow> decimal \<Rightarrow> int \<Rightarrow> decimal" where
  "dec_DivRound d d2 precision =
     (case dec_QuoRem d d2 precision of (q, r) \<Rightarrow>
        if dec_lt (Dec (\<bar>coeff r\<bar> * 2) (dexp r + precision)) (dec_Abs d2) then q
        else if sgn (coeff d) * sgn (coeff d2) < 0 then dec_Sub q (Dec 1 (- precision))
        else dec_Add q (Dec 1 (- precision)))"

definition dec_Div :: "decimal \<Rightarrow> decimal \<Rightarrow> decimal" where
  "dec_Div d d2 = dec_DivRound d d2 DivisionPrecision"

text \<open>The integer part, truncated towards zero.\<close>

definition dec_BigInt :: "decimal \<Rightarrow> int" where
  "dec_BigInt d = coeff (rescale d 0)"

text \<open>Round half away from zero to a number of places, as the library computes it.\<close>

definition dec_Round :: "decimal \<Rightarrow> int \<Rightarrow> decimal" where
  "dec_Round d places =
     (if dexp d = - places then d
      else
        let r = rescale d (- places - 1);
            v = (if coeff r < 0 then coeff r - 5 else coeff r + 5);
            q = v div 10; m = v mod 10;
            q' = (if q < 0 \<and> m \<noteq> 0 then q + 1 else q)
        in Dec q' (dexp r + 1))"

definition trim_zeros :: "string \<Rightarrow> string" where
  "trim_zeros s = rev (dropWhile (\<lambda>c. c = CHR ''0'') (rev s))"

definition dec_string :: "decimal \<Rightarrow> bool \<Rightarrow> string" where
  "dec_string d trimTrailingZeros =
     (if 0 \<le> dexp d then show_int (coeff (rescale d 0))
      else
        let str = show_nat (nat \<bar>coeff d\<bar>);
            k = nat (- dexp d);
            n = length str;
            intPart = (if k < n then take (n - k) str else ''0'');
            frac = (if k < n then drop (n - k) str else replicate (k - n) (CHR ''0'') @ str);
            frac' = (if trimTrailingZeros then trim_zeros frac else frac);
            number = (if frac' = '''' then intPart else intPart @ ''.'' @ frac')
        in if coeff d < 0 then CHR ''-'' # number else number)"

definition dec_String :: "decimal \<Rightarrow> string" where "dec_String d = dec_string d True"

definition StringFixed :: "decimal \<Rightarrow> int \<Rightarrow> string" where
  "StringFixed d places = dec_string (dec_Round d places) False"

text \<open>Banker's rounding: a remainder of exactly half a unit goes to the even neighbour.\<close>

definition dec_eq :: "decimal \<Rightarrow> decimal \<Rightarrow> bool" where
  "dec_eq d d2 = (case RescalePair d d2 of (a, b) \<Rightarrow> coeff a = coeff b)"

definition RoundBank :: "decimal \<Rightarrow> int \<Rightarrow> decimal" where
  "RoundBank d places =
     (let round = dec_Round d places;
          remainder = dec_Abs (dec_Sub d round);
          half = Dec 5 (- places - 1)
      in if dec_eq remainder half \<and> odd (coeff round)
         then (if coeff round < 0 then Dec (coeff round + 1) (dexp round) else Dec (coeff round - 1) (dexp round))
         else round)"

definition StringFixedBank :: "decimal \<Rightarrow> int \<Rightarrow> string" where
  "StringFixedBank d places = dec_string (RoundBank d places) False"

section \<open>Division at the precision of the library\<close>

lemma sdiv_exact:
  assumes "0 < (b::int)" "b dvd a"
  shows "a sdiv b = a div b" "a smod b = 0"
proof -
  from \<open>b dvd a\<close> obtain k where "a = b * k" by (rule dvdE)
  with \<open>0 < b\<close> show "a sdiv b = a div b" "a smod b = 0"
    by (auto simp: signed_divide_int_def smod_int_alt_def abs_mult sgn_mult sgn_if zero_less_mult_iff)
qed

text \<open>
  Dividing two integers at \<open>p\<close> places gives a coefficient within half a unit of the
  last place of the exact quotient.
\<close>

lemma DivRound_int:
  assumes "0 < m" "0 \<le> p"
  shows "\<exists>q. dec_DivRound (Dec n 0) (Dec m 0) p = Dec q (- p) \<and> 2 * \<bar>q * m - n * 10 ^ nat p\<bar> \<le> m"
proof -
  let ?N = "n * 10 ^ nat p :: int"
  let ?q = "?N sdiv m" and ?r = "?N smod m"
  have N: "?q * m + ?r = ?N" by (rule sdiv_mult_smod_eq)
  have r: "\<bar>?r\<bar> < m" using smod_int_range [where a = ?N and b = m] \<open>0 < m\<close> by auto
  have pos: "0 \<le> ?r" if "0 \<le> n" using that smod_int_compares(2) [where a = ?N and b = m] \<open>0 < m\<close> by simp
  have neg: "?r \<le> 0" if "n \<le> 0"
  proof -
    from that have "?N \<le> 0" by (simp add: mult_nonpos_nonneg)
    then show ?thesis using smod_int_compares(4) [where a = ?N and b = m] \<open>0 < m\<close> by simp
  qed
  have zero: "?r = 0" if "n = 0" using pos neg that by fastforce
  have eq: "dec_DivRound (Dec n 0) (Dec m 0) p =
      Dec (if \<bar>?r\<bar> * 2 < m then ?q else if n < 0 then ?q - 1 else ?q + 1) (- p)"
    using assms
    by (auto simp: dec_DivRound_def dec_QuoRem_def Let_def dec_lt_def RescalePair_def dec_Abs_def
        dec_Sub_def dec_Add_def sgn_mult sgn_if)
  let ?k = "if \<bar>?r\<bar> * 2 < m then ?q else if n < 0 then ?q - 1 else ?q + 1"
  have "2 * \<bar>?k * m - ?N\<bar> \<le> m"
  proof (cases "\<bar>?r\<bar> * 2 < m")
    case True
    have "?q * m - ?N = - ?r" using N by linarith
    with True show ?thesis by simp
  next
    case False
    show ?thesis
    proof (cases "n < 0")
      case True
      with neg have "?r \<le> 0" by simp
      have "(?q - 1) * m - ?N = - m - ?r" using N by (simp add: algebra_simps)
      with True False \<open>?r \<le> 0\<close> r show ?thesis by simp
    next
      case nn: False
      with pos have "0 \<le> ?r" by simp
      have "(?q + 1) * m - ?N = m - ?r" using N by (simp add: algebra_simps)
      with nn False \<open>0 \<le> ?r\<close> r show ?thesis by simp
    qed
  qed
  with eq show ?thesis by blast
qed

lemma half_unit_exact:
  assumes "0 < (m::int)" "2 * \<bar>q * m - N\<bar> \<le> m" "m dvd N"
  shows "q * m = N"
proof -
  from \<open>m dvd N\<close> obtain k where k: "N = m * k" by (rule dvdE)
  then have "q * m - N = (q - k) * m" by (simp add: algebra_simps)
  with assms have "2 * (\<bar>q - k\<bar> * m) \<le> 1 * m" by (simp add: abs_mult)
  then have "(2 * \<bar>q - k\<bar>) * m \<le> 1 * m" by simp
  with \<open>0 < m\<close> have "2 * \<bar>q - k\<bar> \<le> 1" by (metis mult_le_cancel_right not_less_iff_gr_or_eq)
  then have "q = k" by arith
  with k show ?thesis by simp
qed

text \<open>Dividing by a power of ten that the precision covers is exact.\<close>

lemma DivRound_pow10:
  assumes "d \<le> p" "0 \<le> d"
  shows "dec_DivRound (Dec n 0) (Dec 1 d) p = Dec (n * 10 ^ nat (p - d)) (- p)"
  using assms
  by (simp add: dec_DivRound_def dec_QuoRem_def Let_def dec_lt_def RescalePair_def dec_Abs_def
      rescale_def signed_divide_int_def smod_int_alt_def sgn_mult abs_mult mult_sgn_abs flip: mult.assoc)

lemma dec_BigInt_int [simp]: "dec_BigInt (Dec n 0) = n"
  by (simp add: dec_BigInt_def rescale_def)

lemma dec_BigInt_scaled:
  "0 \<le> k \<Longrightarrow> dec_BigInt (Dec (n * 10 ^ nat k) (- k)) = n"
  by (auto simp: dec_BigInt_def rescale_def sdiv_exact)

end
