(* ===== verification/Amounts.thy ===== *)
theory Amounts
  imports Decimals Errors
begin

text \<open>
  pkg/ethkit/amount.go: amounts in wei and their conversions to and from decimals.
  The struct holds a big.Int pointer; \<open>safe\<close> reads a nil pointer as zero. A
  constructor that multiplies decimals is \<open>None\<close> where the decimal library panics.
\<close>

datatype amount = Amount (wei_ptr: "int option")

definition weiPerEth :: decimal where "weiPerEth = Dec (10 ^ 18) 0"
definition weiPerGwei :: decimal where "weiPerGwei = Dec (10 ^ 9) 0"

definition safe :: "amount \<Rightarrow> int" where
  "safe a = (case wei_ptr a of None \<Rightarrow> 0 | Some w \<Rightarrow> w)"

definition ZeroAmount :: amount where "ZeroAmount = Amount (Some 0)"

definition NewAmountFromWei :: "int option \<Rightarrow> amount" where
  "NewAmountFromWei wei = (case wei of None \<Rightarrow> ZeroAmount | Some w \<Rightarrow> Amount (Some w))"

definition NewAmountFromETH :: "decimal \<Rightarrow> amount option" where
  "NewAmountFromETH eth = map_option (\<lambda>d. Amount (Some (dec_BigInt d))) (dec_Mul eth weiPerEth)"

definition NewAmountFromGwei :: "decimal \<Rightarrow> amount option" where
  "NewAmountFromGwei gwei = map_option (\<lambda>d. Amount (Some (dec_BigInt d))) (dec_Mul gwei weiPerGwei)"

definition NewAmountFromTokenUnits :: "decimal \<Rightarrow> u8 \<Rightarrow> amount option" where
  "NewAmountFromTokenUnits units decimals =
     map_option (\<lambda>d. Amount (Some (dec_BigInt d))) (dec_Mul units (Dec 1 (uint decimals)))"

definition Wei :: "amount \<Rightarrow> int" where "Wei a = (case wei_ptr a of None \<Rightarrow> 0 | Some w \<Rightarrow> w)"

definition ToETH :: "amount \<Rightarrow> decimal" where
  "ToETH a = dec_Div (Dec (safe a) 0) weiPerEth"

definition ToGwei :: "amount \<Rightarrow> decimal" where
  "ToGwei a = dec_Div (Dec (safe a) 0) weiPerGwei"

definition ToTokenUnits :: "amount \<Rightarrow> u8 \<Rightarrow> decimal" where
  "ToTokenUnits a decimals = dec_Div (Dec (safe a) 0) (Dec 1 (uint decimals))"

definition FormatETH :: "amount \<Rightarrow> int \<Rightarrow> string" where
  "FormatETH a places = StringFixed (ToETH a) places @ '' ETH''"

definition FormatGwei :: "amount \<Rightarrow> string" where
  "FormatGwei a = StringFixed (ToGwei a) 2 @ '' Gwei''"

definition FormatToken :: "amount \<Rightarrow> int \<Rightarrow> string \<Rightarrow> string" where
  "FormatToken a places symbol =
     StringFixed (ToTokenUnits a (word_of_int places)) places @ '' '' @ symbol"

definition Amount_String :: "amount \<Rightarrow> string" where
  "Amount_String a = StringFixed (ToETH a) 6 @ '' ETH''"

definition IsZero :: "amount \<Rightarrow> bool" where "IsZero a \<longleftrightarrow> safe a = 0"
definition IsNegative :: "amount \<Rightarrow> bool" where "IsNegative a \<longleftrightarrow> safe a < 0"

definition Add :: "amount \<Rightarrow> amount \<Rightarrow> amount" where
  "Add a b = Amount (Some (safe a + safe b))"

definition Sub :: "amount \<Rightarrow> amount \<Rightarrow> amount" where
  "Sub a b = Amount (Some (safe a - safe b))"

text \<open>\<open>MulInt\<close> takes an int64, given here by its value.\<close>

definition MulInt :: "amount \<Rightarrow> int \<Rightarrow> amount" where
  "MulInt a n = Amount (Some (safe a * n))"

definition Cmp :: "amount \<Rightarrow> amount \<Rightarrow> int" where
  "Cmp a b = (if safe a < safe b then - 1 else if safe a = safe b then 0 else 1)"

definition GT :: "amount \<Rightarrow> amount \<Rightarrow> bool" where "GT a b \<longleftrightarrow> Cmp a b > 0"
definition LT :: "amount \<Rightarrow> amount \<Rightarrow> bool" where "LT a b \<longleftrightarrow> Cmp a b < 0"
definition GTE :: "amount \<Rightarrow> amount \<Rightarrow> bool" where "GTE a b \<longleftrightarrow> Cmp a b \<ge> 0"
definition LTE :: "amount \<Rightarrow> amount \<Rightarrow> bool" where "LTE a b \<longleftrightarrow> Cmp a b \<le> 0"
definition Equal :: "amount \<Rightarrow> amount \<Rightarrow> bool" where "Equal a b \<longleftrightarrow> Cmp a b = 0"

definition MarshalText :: "amount \<Rightarrow> string" where "MarshalText a = show_int (safe a)"

definition UnmarshalText :: "string \<Rightarrow> err + amount" where
  "UnmarshalText data = (case SetString 10 data of
       None \<Rightarrow> Inl (WrapError (''invalid wei amount: '' @ data) [])
     | Some n \<Rightarrow> Inr (Amount (Some n)))"

text \<open>\<open>LTE\<close> is the order of the amounts: a preorder, since nil and zero compare equal.\<close>

instantiation amount :: preorder
begin
definition less_eq_amount :: "amount \<Rightarrow> amount \<Rightarrow> bool" where "less_eq_amount = LTE"
definition less_amount :: "amount \<Rightarrow> amount \<Rightarrow> bool" where "less_amount = LT"
instance
  by standard
    (auto simp: less_eq_amount_def less_amount_def LTE_def LT_def Cmp_def split: if_splits)
end

section \<open>Reading and comparing\<close>

lemma Wei_safe: "Wei a = safe a"
  by (simp add: Wei_def safe_def)

lemma safe_Amount [simp]: "safe (Amount (Some w)) = w" "safe (Amount None) = 0"
  by (simp_all add: safe_def)

lemma safe_ZeroAmount [simp]: "safe ZeroAmount = 0"
  by (simp add: ZeroAmount_def)

lemma safe_NewAmountFromWei [simp]: "safe (NewAmountFromWei (Some w)) = w"
  by (simp add: NewAmountFromWei_def)

lemma amount_cmp:
  "GT a b \<longleftrightarrow> safe a > safe b" "LT a b \<longleftrightarrow> safe a < safe b"
  "GTE a b \<longleftrightarrow> safe a \<ge> safe b" "LTE a b \<longleftrightarrow> safe a \<le> safe b"
  "Equal a b \<longleftrightarrow> safe a = safe b"
  by (auto simp: GT_def LT_def GTE_def LTE_def Equal_def Cmp_def)

lemma safe_arith [simp]:
  "safe (Add a b) = safe a + safe b" "safe (Sub a b) = safe a - safe b"
  "safe (MulInt a n) = safe a * n"
  by (simp_all add: Add_def Sub_def MulInt_def)

section \<open>Conversions\<close>

lemma ToETH_half_unit: "\<exists>q. ToETH a = Dec q (- 16) \<and> \<bar>100 * q - safe a\<bar> \<le> 50"
proof -
  obtain q where q: "ToETH a = Dec q (- 16)"
    and b: "2 * \<bar>q * 10 ^ 18 - safe a * 10 ^ nat 16\<bar> \<le> 10 ^ 18"
    using DivRound_int [of "10 ^ 18" 16 "safe a"]
    by (auto simp: ToETH_def dec_Div_def DivisionPrecision_def weiPerEth_def)
  have "q * 10 ^ 18 - safe a * 10 ^ nat 16 = (100 * q - safe a) * 10 ^ 16" by simp
  then have "2 * (\<bar>100 * q - safe a\<bar> * 10 ^ 16) \<le> 10 ^ 18"
    using b by (simp only: abs_mult) simp
  then have "\<bar>100 * q - safe a\<bar> \<le> 50" by simp
  with q show ?thesis by blast
qed

lemma NewAmountFromETH_scaled:
  "NewAmountFromETH (Dec q (- 16)) = Some (Amount (Some (100 * q)))"
proof -
  have "q * 10 ^ 18 = 100 * q * 10 ^ nat 16" by simp
  then have "dec_BigInt (Dec (q * 10 ^ 18) (- 16)) = 100 * q"
    using dec_BigInt_scaled [of 16 "100 * q"] by (simp only: order.refl zero_le_numeral)
  then show ?thesis
    unfolding NewAmountFromETH_def dec_Mul_def weiPerEth_def int32_range_def by simp
qed

text \<open>
  C38. Reading an amount in ETH and building the amount of that number of ETH again moves
  it to the nearest multiple of 100 wei (the decimal division stops at 16 places): it
  comes back within 50 wei of where it was, and unchanged exactly when 100 divides it.
\<close>

theorem ETH_roundtrip:
  "\<exists>b. NewAmountFromETH (ToETH a) = Some b \<and> \<bar>Wei b - Wei a\<bar> \<le> 50 \<and> 100 dvd Wei b
     \<and> (Wei b = Wei a \<longleftrightarrow> 100 dvd Wei a)"
proof -
  obtain q where q: "ToETH a = Dec q (- 16)" and b: "\<bar>100 * q - safe a\<bar> \<le> 50"
    using ToETH_half_unit by blast
  let ?b = "Amount (Some (100 * q))"
  have new: "NewAmountFromETH (ToETH a) = Some ?b" by (simp add: q NewAmountFromETH_scaled)
  have "100 * q = safe a" if d: "100 dvd safe a"
  proof -
    obtain k where k: "safe a = 100 * k" using d by (rule dvdE)
    have "\<not> q < k" "\<not> k < q" using b unfolding k by linarith+
    then show ?thesis unfolding k by simp
  qed
  moreover have "100 dvd safe a" if "100 * q = safe a" by (rule dvdI [of _ _ q]) (simp add: that [symmetric])
  ultimately have "Wei ?b = Wei a \<longleftrightarrow> 100 dvd Wei a" unfolding Wei_safe safe_Amount by blast
  moreover have "\<bar>Wei ?b - Wei a\<bar> \<le> 50" "100 dvd Wei ?b" using b by (simp_all add: Wei_safe)
  ultimately show ?thesis using new by blast
qed

text \<open>
  For a token of at most 16 decimals, reading an amount in token units and building
  the amount of those units again gives the same wei.
\<close>

theorem TokenUnits_roundtrip:
  assumes "uint decimals \<le> 16"
  shows "\<exists>b. NewAmountFromTokenUnits (ToTokenUnits a decimals) decimals = Some b \<and> Wei b = Wei a"
proof -
  let ?d = "uint decimals"
  have d: "0 \<le> ?d" by simp
  have units: "ToTokenUnits a decimals = Dec (safe a * 10 ^ nat (16 - ?d)) (- 16)"
    using assms d by (simp add: ToTokenUnits_def dec_Div_def DivisionPrecision_def DivRound_pow10)
  have "dec_BigInt (Dec (safe a * 10 ^ nat (16 - ?d)) (- (16 - ?d))) = safe a"
    using assms by (intro dec_BigInt_scaled) simp
  then show ?thesis
    using assms d
    by (simp add: units NewAmountFromTokenUnits_def dec_Mul_def int32_range_def Wei_safe)
qed

lemma TokenUnits_roundtrip_witness:
  "\<exists>b. NewAmountFromTokenUnits (ToTokenUnits (Amount (Some 1234567)) 6) 6 = Some b
     \<and> Wei b = Wei (Amount (Some 1234567))"
  by (rule TokenUnits_roundtrip) simp

text \<open>
  The text form of an amount parses back to an amount of the same wei, and a text
  that is not a decimal integer is rejected, never read as zero.
\<close>

theorem Amount_text_roundtrip:
  "UnmarshalText (MarshalText a) = Inr (Amount (Some (safe a)))
   \<and> (\<forall>s. SetString 10 s = None \<longleftrightarrow> UnmarshalText s = Inl (WrapError (''invalid wei amount: '' @ s) []))"
  by (auto simp: UnmarshalText_def MarshalText_def SetString_show_int split: option.splits)

end
