(* ===== verification/Ethtypes.thy ===== *)
theory Ethtypes
  imports Addresses Amounts
begin

text \<open>
  pkg/ethkit/types.go and network.go: tokens, gas quotes, transaction requests, receipts
  and statuses, asset transfers, swap requests and the chain constants.
\<close>

record token =
  tk_Address :: address
  tk_Symbol :: string
  tk_Name :: string
  tk_Decimals :: u8

definition NativeETH :: token where
  "NativeETH = \<lparr>tk_Address = 0, tk_Symbol = ''ETH'', tk_Name = ''Ether'', tk_Decimals = 18\<rparr>"

definition IsNative :: "token \<Rightarrow> bool" where "IsNative t \<longleftrightarrow> IsZero_address (tk_Address t)"

definition FormatAmount :: "token \<Rightarrow> amount \<Rightarrow> string" where
  "FormatAmount t a =
     StringFixed (ToTokenUnits a (tk_Decimals t)) (uint (tk_Decimals t)) @ '' '' @ tk_Symbol t"

record gas_info =
  BaseFee :: amount
  PriorityFee :: amount
  MaxFee :: amount
  GasPrice :: amount

definition EstimatedCost :: "gas_info \<Rightarrow> u64 \<Rightarrow> amount" where
  "EstimatedCost g gasUsed = MulInt (NewAmountFromWei (Some (Wei (MaxFee g)))) (sint gasUsed)"

record tx_request =
  rq_To :: address
  rq_Value :: amount
  rq_Data :: "u8 list"
  rq_GasLimit :: u64
  rq_GasTip :: "amount option"
  rq_GasCap :: "amount option"
  rq_Kind :: string

type_synonym tx_status = u8

definition TxStatusPending :: tx_status where "TxStatusPending = 0"
definition TxStatusSuccess :: tx_status where "TxStatusSuccess = 1"
definition TxStatusFailed :: tx_status where "TxStatusFailed = 2"

definition TxStatus_String :: "tx_status \<Rightarrow> string" where
  "TxStatus_String s =
     (if s = TxStatusPending then ''pending''
      else if s = TxStatusSuccess then ''success''
      else if s = TxStatusFailed then ''failed''
      else ''unknown'')"

record tx_receipt =
  rc_Hash :: string
  rc_Status :: tx_status
  rc_BlockNumber :: u64
  rc_GasUsed :: u64
  rc_GasCost :: amount

record balance_update =
  bu_Address :: address
  bu_Token :: "token option"
  bu_Balance :: amount
  bu_Delta :: amount

definition CategoryExternal :: string where "CategoryExternal = ''external''"
definition CategoryInternal :: string where "CategoryInternal = ''internal''"
definition CategoryERC20 :: string where "CategoryERC20 = ''erc20''"

record asset_transfer =
  at_BlockNumber :: u64
  at_Timestamp :: time
  at_Hash :: string
  at_UniqueID :: string
  at_From :: address
  at_To :: address
  at_Value :: decimal
  at_Asset :: string
  at_Category :: string
  at_Token :: "token option"

type_synonym pool_fee = u32

definition PoolFee01 :: pool_fee where "PoolFee01 = 100"
definition PoolFee005 :: pool_fee where "PoolFee005 = 500"
definition PoolFee03 :: pool_fee where "PoolFee03 = 3000"
definition PoolFee1 :: pool_fee where "PoolFee1 = 10000"

record swap_quote =
  sq_TokenIn :: token
  sq_TokenOut :: token
  sq_AmountIn :: amount
  sq_AmountOut :: amount
  sq_Fee :: pool_fee
  sq_GasEstimate :: u64

record swap_request =
  sr_TokenIn :: token
  sr_TokenOut :: token
  sr_AmountIn :: amount
  sr_MinAmountOut :: amount
  sr_Fee :: pool_fee
  sr_DeadlineSeconds :: u64
  sr_GasTip :: "amount option"
  sr_GasCap :: "amount option"

record network =
  nw_ChainID :: int
  nw_UniswapQuoterV2 :: address
  nw_UniswapSwapRouter02 :: address
  nw_UniswapWrappedETH :: address

text \<open>The option \<open>WithNetwork\<close>: it sets the client's network.\<close>

definition ErrNoNetwork :: err where
  "ErrNoNetwork = Sentinel ''ethkit: no Network configured (use WithNetwork)''"

lemma IsNative_iff [simp]: "IsNative t \<longleftrightarrow> tk_Address t = 0"
  by (simp add: IsNative_def IsZero_address_def)

lemma safe_EstimatedCost:
  "uint gasUsed < 2 ^ 63 \<Longrightarrow> Wei (EstimatedCost g gasUsed) = Wei (MaxFee g) * uint gasUsed"
  by (simp add: EstimatedCost_def Wei_safe sint_u64)

end
