(* ===== verification/Pending.thy ===== *)
theory Pending
  imports Ethtypes
begin

text \<open>
  pkg/ethkit/pending.go: the registry of transactions broadcast but not yet mined, as an
  interface (the locale \<open>pending_store\<close>), its in-memory implementation, and the
  client's queries and its pruning pass over a registry.

  An operation that reads the clock takes its readings as arguments, in the order the
  code makes them.
\<close>

record pending_tx =
  ptx_Hash :: string
  ptx_From :: address
  ptx_To :: address
  ptx_Value :: amount
  ptx_Nonce :: u64
  ptx_GasTipWei :: amount
  ptx_GasCapWei :: amount
  ptx_SubmittedAt :: time
  ptx_Kind :: string

record recent_entry =
  re_tx :: pending_tx
  re_removedAt :: time

record pending_tracker =
  txs :: "(string, pending_tx) gomap"
  recent :: "(string, recent_entry) gomap"

definition RecentTTL :: duration where "RecentTTL = 5 * Minute"

definition newPendingTracker :: pending_tracker where
  "newPendingTracker = \<lparr>txs = [], recent = []\<rparr>"

text \<open>An entry is gone once it has a removal time more than \<open>RecentTTL\<close> ago.\<close>

definition expired :: "time \<Rightarrow> recent_entry \<Rightarrow> bool" where
  "expired now e \<longleftrightarrow> \<not> IsZero_time (re_removedAt e) \<and> Sub_time now (re_removedAt e) > RecentTTL"

definition Add_pt :: "pending_tx \<Rightarrow> pending_tracker \<Rightarrow> pending_tracker" where
  "Add_pt tx p = p\<lparr>txs := AList.update (ptx_Hash tx) tx (txs p),
     recent := AList.update (ptx_Hash tx) \<lparr>re_tx = tx, re_removedAt = zero_time\<rparr> (recent p)\<rparr>"

text \<open>\<open>now\<^sub>1\<close> stamps the entry, \<open>now\<^sub>2\<close> is the time of the collection.\<close>

definition Remove_pt :: "time \<Rightarrow> time \<Rightarrow> string \<Rightarrow> pending_tracker \<Rightarrow> pending_tracker" where
  "Remove_pt now\<^sub>1 now\<^sub>2 hash p =
     (let recent1 = (case map_of (txs p) hash of
            Some tx \<Rightarrow> AList.update hash \<lparr>re_tx = tx, re_removedAt = now\<^sub>1\<rparr> (recent p)
          | None \<Rightarrow> recent p)
      in p\<lparr>txs := AList.delete hash (txs p), recent := map_keep (\<lambda>e. \<not> expired now\<^sub>2 e) recent1\<rparr>)"

definition Recent_pt :: "time \<Rightarrow> pending_tracker \<Rightarrow> pending_tx list" where
  "Recent_pt now p = map (re_tx \<circ> snd) (map_keep (\<lambda>e. \<not> expired now e) (recent p))"

definition List_pt :: "pending_tracker \<Rightarrow> pending_tx list" where
  "List_pt p = map snd (txs p)"

section \<open>The client's queries\<close>

text \<open>
  A client without a registry (\<open>None\<close>) lists nothing. The senders are compared by
  \<open>Hex\<close>.
\<close>

definition ListPending :: "('s \<Rightarrow> pending_tx list) \<Rightarrow> 's option \<Rightarrow> pending_tx list" where
  "ListPending list c = (case c of None \<Rightarrow> [] | Some s \<Rightarrow> list s)"

definition PendingForAddress ::
  "checksum \<Rightarrow> ('s \<Rightarrow> pending_tx list) \<Rightarrow> 's option \<Rightarrow> address \<Rightarrow> pending_tx list" where
  "PendingForAddress ck list c from =
     filter (\<lambda>tx. Hex ck (ptx_From tx) = Hex ck from) (ListPending list c)"

definition RecentPendingForAddress ::
  "checksum \<Rightarrow> ('s \<Rightarrow> pending_tx list) \<Rightarrow> 's option \<Rightarrow> address \<Rightarrow> pending_tx list" where
  "RecentPendingForAddress ck recents c from =
     (case c of None \<Rightarrow> []
      | Some s \<Rightarrow> filter (\<lambda>tx. Hex ck (ptx_From tx) = Hex ck from) (recents s))"

section \<open>Pruning\<close>

text \<open>
  One pass over the listed transactions. \<open>nonceAt k a\<close> is the node's answer to the k-th
  step's query of the confirmed nonce of \<open>a\<close> (\<open>None\<close> an error), asked only while the
  pass has no cached answer for \<open>a\<close>; \<open>txByHash\<close> is the node's answer for a hash:
  \<open>None\<close> an error, otherwise whether the transaction is pending. \<open>remove k\<close> is the
  registry's Remove at the clock readings of step k.
\<close>

definition nonceFor ::
  "(address \<Rightarrow> u64 option) \<Rightarrow> (address, u64) gomap \<Rightarrow> address \<Rightarrow> u64 option \<times> (address, u64) gomap" where
  "nonceFor nonceAt cache from =
     (case map_of cache from of
        Some n \<Rightarrow> (Some n, cache)
      | None \<Rightarrow> (case nonceAt from of None \<Rightarrow> (None, cache)
                 | Some n \<Rightarrow> (Some n, AList.update from n cache)))"

fun prune_loop ::
  "(nat \<Rightarrow> string \<Rightarrow> 's \<Rightarrow> 's) \<Rightarrow> (nat \<Rightarrow> address \<Rightarrow> u64 option) \<Rightarrow> (string \<Rightarrow> bool option) \<Rightarrow>
   nat \<Rightarrow> (address, u64) gomap \<Rightarrow> pending_tx list \<Rightarrow> 's \<Rightarrow> 's" where
  "prune_loop remove nonceAt txByHash k cache [] s = s"
| "prune_loop remove nonceAt txByHash k cache (tx # rest) s =
     (let (n, cache') = nonceFor (nonceAt k) cache (ptx_From tx) in
      prune_loop remove nonceAt txByHash (Suc k) cache' rest
        (if (case n of Some m \<Rightarrow> ptx_Nonce tx < m | None \<Rightarrow> False) then remove k (ptx_Hash tx) s
         else (case txByHash (ptx_Hash tx) of
                 None \<Rightarrow> remove k (ptx_Hash tx) s
               | Some isPending \<Rightarrow> if \<not> isPending then remove k (ptx_Hash tx) s else s)))"

definition pruneStalePending ::
  "(nat \<Rightarrow> string \<Rightarrow> 's \<Rightarrow> 's) \<Rightarrow> ('s \<Rightarrow> pending_tx list) \<Rightarrow> (nat \<Rightarrow> address \<Rightarrow> u64 option) \<Rightarrow>
   (string \<Rightarrow> bool option) \<Rightarrow> 's \<Rightarrow> 's" where
  "pruneStalePending remove list nonceAt txByHash s =
     (let pending = list s in
      if length pending = 0 then s else prune_loop remove nonceAt txByHash 0 [] pending s)"

text \<open>What a pass that gets the nonces \<open>confirmed\<close> and the answers \<open>txByHash\<close> leaves.\<close>

definition still_live :: "(address \<Rightarrow> u64 option) \<Rightarrow> (string \<Rightarrow> bool option) \<Rightarrow> pending_tx \<Rightarrow> bool" where
  "still_live confirmed txByHash tx \<longleftrightarrow>
     (case confirmed (ptx_From tx) of Some m \<Rightarrow> m \<le> ptx_Nonce tx | None \<Rightarrow> True)
     \<and> txByHash (ptx_Hash tx) = Some True"

section \<open>The interface\<close>

text \<open>
  What the client and the watcher rely on: Add and Remove act on the listed set by hash,
  the recent set contains the listed one, and a removed transaction stays recent for
  \<open>RecentTTL\<close>.
\<close>

locale pending_store =
  fixes inv :: "'s \<Rightarrow> bool"
    and add :: "pending_tx \<Rightarrow> 's \<Rightarrow> 's"
    and remove :: "time \<Rightarrow> time \<Rightarrow> string \<Rightarrow> 's \<Rightarrow> 's"
    and listed :: "'s \<Rightarrow> pending_tx list"
    and recents :: "time \<Rightarrow> 's \<Rightarrow> pending_tx list"
  assumes inv_add: "inv s \<Longrightarrow> inv (add tx s)"
    and inv_remove: "inv s \<Longrightarrow> inv (remove now\<^sub>1 now\<^sub>2 h s)"
    and distinct_listed: "inv s \<Longrightarrow> distinct (map ptx_Hash (listed s))"
    and listed_add: "inv s \<Longrightarrow>
          set (listed (add tx s)) = insert tx {t \<in> set (listed s). ptx_Hash t \<noteq> ptx_Hash tx}"
    and listed_remove: "inv s \<Longrightarrow>
          set (listed (remove now\<^sub>1 now\<^sub>2 h s)) = {t \<in> set (listed s). ptx_Hash t \<noteq> h}"
    and listed_recent: "inv s \<Longrightarrow> set (listed s) \<subseteq> set (recents now s)"
    and removed_recent: "inv s \<Longrightarrow> t \<in> set (listed s) \<Longrightarrow> 0 \<le> now\<^sub>1 \<Longrightarrow>
          now\<^sub>2 - now\<^sub>1 \<le> RecentTTL \<Longrightarrow> now - now\<^sub>1 \<le> RecentTTL \<Longrightarrow>
          t \<in> set (recents now (remove now\<^sub>1 now\<^sub>2 (ptx_Hash t) s))"
begin

definition remove_at :: "(nat \<Rightarrow> time \<times> time) \<Rightarrow> nat \<Rightarrow> string \<Rightarrow> 's \<Rightarrow> 's" where
  "remove_at clock k h s = remove (fst (clock k)) (snd (clock k)) h s"

lemma remove_at_eq: "remove_at clock = (\<lambda>k. remove (fst (clock k)) (snd (clock k)))"
  by (simp add: remove_at_def fun_eq_iff)

lemma remove_at_laws:
  assumes "inv s"
  shows "inv (remove_at clock k h s)"
    "set (listed (remove_at clock k h s)) = {t \<in> set (listed s). ptx_Hash t \<noteq> h}"
  using assms by (simp_all add: remove_at_def inv_remove listed_remove)

lemma listed_hash_inj:
  "inv s \<Longrightarrow> t \<in> set (listed s) \<Longrightarrow> u \<in> set (listed s) \<Longrightarrow> ptx_Hash t = ptx_Hash u \<Longrightarrow> t = u"
  using distinct_listed [of s] by (auto simp: distinct_map dest: inj_onD)

lemma add_then_remove: "inv s \<Longrightarrow>
   set (listed (remove now\<^sub>1 now\<^sub>2 (ptx_Hash tx) (add tx s)))
     = {t \<in> set (listed s). ptx_Hash t \<noteq> ptx_Hash tx}"
  by (auto simp: listed_remove listed_add inv_add)

lemma add_idem: "inv s \<Longrightarrow> set (listed (add tx (add tx s))) = set (listed (add tx s))"
  by (auto simp: listed_add inv_add)

text \<open>A cache of nonces holds the node's answers.\<close>

lemma nonceFor_answer:
  assumes "\<And>a n. map_of cache a = Some n \<Longrightarrow> answer a = Some n"
    and "nonceFor answer cache from = (n, cache')"
  shows "n = answer from" "\<And>a m. map_of cache' a = Some m \<Longrightarrow> answer a = Some m"
proof -
  show "n = answer from"
    using assms(2) assms(1) [of "from"] by (auto simp: nonceFor_def split: option.splits)
  show "answer a = Some m" if "map_of cache' a = Some m" for a m
    using that assms(2) assms(1) [of a]
    by (auto simp: nonceFor_def gomap_simps split: option.splits if_splits)
qed

lemma prune_loop_listed:
  assumes "inv s" and "\<And>a n. map_of cache a = Some n \<Longrightarrow> answer a = Some n"
  shows "inv (prune_loop (remove_at clock) (\<lambda>_. answer) txByHash k cache pending s)
     \<and> set (listed (prune_loop (remove_at clock) (\<lambda>_. answer) txByHash k cache pending s))
       = {t \<in> set (listed s). \<forall>u \<in> set pending. ptx_Hash u = ptx_Hash t \<longrightarrow> still_live answer txByHash u}"
  using assms
proof (induction pending arbitrary: k cache s)
  case (Cons tx rest)
  obtain n cache' where nf: "nonceFor answer cache (ptx_From tx) = (n, cache')" by force
  note cache' = nonceFor_answer [OF Cons.prems(2) nf]
  let ?s = "if still_live answer txByHash tx then s else remove_at clock k (ptx_Hash tx) s"
  have "inv ?s" using Cons.prems(1) by (simp add: remove_at_laws)
  note IH = Cons.IH [of ?s cache' "Suc k", OF this cache'(2)]
  have step: "prune_loop (remove_at clock) (\<lambda>_. answer) txByHash k cache (tx # rest) s
      = prune_loop (remove_at clock) (\<lambda>_. answer) txByHash (Suc k) cache' rest ?s"
    using cache'(1) by (auto simp: nf still_live_def not_le split: option.splits)
  show ?case
    unfolding step using IH Cons.prems(1) by (auto simp: remove_at_laws)
qed simp

lemma prune_listed:
  assumes "inv s"
  shows "set (listed (pruneStalePending (remove_at clock) listed (\<lambda>_. answer) txByHash s))
      = {t \<in> set (listed s). still_live answer txByHash t}"
proof -
  have "(\<forall>u \<in> set (listed s). ptx_Hash u = ptx_Hash t \<longrightarrow> still_live answer txByHash u)
      \<longleftrightarrow> still_live answer txByHash t" if "t \<in> set (listed s)" for t
    using that listed_hash_inj [OF assms] by metis
  moreover have "pruneStalePending (remove_at clock) listed (\<lambda>_. answer) txByHash s
      = prune_loop (remove_at clock) (\<lambda>_. answer) txByHash 0 [] (listed s) s"
    by (simp add: pruneStalePending_def Let_def)
  ultimately show ?thesis
    using prune_loop_listed [OF assms, of "[]" answer clock txByHash 0 "listed s"] by auto
qed

end

section \<open>The in-memory registry\<close>

definition pt_inv :: "pending_tracker \<Rightarrow> bool" where
  "pt_inv p \<longleftrightarrow> distinct (map fst (txs p)) \<and> distinct (map fst (recent p))
     \<and> (\<forall>h. case map_of (txs p) h of None \<Rightarrow> True
          | Some tx \<Rightarrow> ptx_Hash tx = h \<and> map_of (recent p) h = Some \<lparr>re_tx = tx, re_removedAt = zero_time\<rparr>)"

lemma pt_invD:
  assumes "pt_inv p"
  shows "distinct (map fst (txs p))" "distinct (map fst (recent p))"
    "map_of (txs p) h = Some tx \<Longrightarrow> ptx_Hash tx = h"
    "map_of (txs p) h = Some tx \<Longrightarrow> map_of (recent p) h = Some \<lparr>re_tx = tx, re_removedAt = zero_time\<rparr>"
  using assms by (auto simp: pt_inv_def split: option.splits)

lemma pt_invI:
  assumes "distinct (map fst (txs p))" "distinct (map fst (recent p))"
    and "\<And>h tx. map_of (txs p) h = Some tx \<Longrightarrow> ptx_Hash tx = h
        \<and> map_of (recent p) h = Some \<lparr>re_tx = tx, re_removedAt = zero_time\<rparr>"
  shows "pt_inv p"
  using assms by (auto simp: pt_inv_def split: option.splits)

lemma expired_simps [simp]: "\<not> expired now \<lparr>re_tx = tx, re_removedAt = zero_time\<rparr>"
  by (simp add: expired_def IsZero_time_def)

lemma not_expired_recent:
  "now - t \<le> RecentTTL \<Longrightarrow> \<not> expired now \<lparr>re_tx = tx, re_removedAt = t\<rparr>"
  using Sub_time_gt [of RecentTTL now t]
  by (auto simp: expired_def RecentTTL_def Minute_def Second_def)

lemma pt_inv_new: "pt_inv newPendingTracker"
  by (simp add: pt_inv_def newPendingTracker_def)

lemma set_values: "distinct (map fst m) \<Longrightarrow> x \<in> snd ` set m \<longleftrightarrow> (\<exists>k. map_of m k = Some x)"
  by (auto simp: values_of ran_def)

lemma set_List_pt: "pt_inv p \<Longrightarrow> tx \<in> set (List_pt p) \<longleftrightarrow> map_of (txs p) (ptx_Hash tx) = Some tx"
  using pt_invD [of p] by (auto simp: List_pt_def set_values)

lemma pt_inv_Add: "pt_inv p \<Longrightarrow> pt_inv (Add_pt tx p)"
  by (auto simp: pt_inv_def Add_pt_def AList.distinct_update gomap_simps split: option.splits)

lemma pt_inv_Remove: "pt_inv p \<Longrightarrow> pt_inv (Remove_pt now\<^sub>1 now\<^sub>2 h p)"
  by (cases "map_of (txs p) h")
    (auto simp: pt_inv_def Remove_pt_def AList.distinct_update AList.distinct_delete
      distinct_map_keep map_of_map_keep gomap_simps split: option.splits)

lemma pt_inv_keep:
  "pt_inv p \<Longrightarrow> pt_inv (p\<lparr>recent := map_keep (\<lambda>e. \<not> expired now e) (recent p)\<rparr>)"
  by (rule pt_invI) (simp_all add: pt_invD distinct_map_keep map_of_map_keep)

lemma mem_Recent_pt:
  assumes "pt_inv p" and "map_of (recent p) h = Some \<lparr>re_tx = tx, re_removedAt = t\<rparr>"
    and "\<not> expired now \<lparr>re_tx = tx, re_removedAt = t\<rparr>"
  shows "tx \<in> set (Recent_pt now p)"
  using assms map_of_SomeD [OF assms(2)]
  by (force simp: Recent_pt_def map_keep_def)

lemma set_Recent_pt:
  assumes "pt_inv p"
  shows "tx \<in> set (Recent_pt now p)
     \<longleftrightarrow> (\<exists>h e. map_of (recent p) h = Some e \<and> \<not> expired now e \<and> re_tx e = tx)"
proof -
  have "map_of (recent p) h = Some e \<longleftrightarrow> (h, e) \<in> set (recent p)" for h e
    using pt_invD(2) [OF assms] by (simp add: map_of_eq_Some_iff)
  then show ?thesis by (force simp: Recent_pt_def map_keep_def)
qed

interpretation pt: pending_store pt_inv Add_pt Remove_pt List_pt Recent_pt
proof unfold_locales
  fix s tx now\<^sub>1 now\<^sub>2 h now t
  assume inv: "pt_inv s"
  show "pt_inv (Add_pt tx s)" "pt_inv (Remove_pt now\<^sub>1 now\<^sub>2 h s)"
    using inv by (simp_all add: pt_inv_Add pt_inv_Remove)
  have "map ptx_Hash (List_pt s) = map fst (txs s)"
    using pt_invD(1,3) [OF inv] by (auto simp: List_pt_def)
  then show "distinct (map ptx_Hash (List_pt s))" using inv by (simp add: pt_inv_def)
  show "set (List_pt (Add_pt tx s)) = insert tx {t \<in> set (List_pt s). ptx_Hash t \<noteq> ptx_Hash tx}"
    using inv by (auto simp: set_List_pt pt_inv_Add) (auto simp: Add_pt_def gomap_simps split: if_splits)
  show "set (List_pt (Remove_pt now\<^sub>1 now\<^sub>2 h s)) = {t \<in> set (List_pt s). ptx_Hash t \<noteq> h}"
    using inv by (auto simp: set_List_pt pt_inv_Remove) (auto simp: Remove_pt_def gomap_simps split: if_splits)
  show "set (List_pt s) \<subseteq> set (Recent_pt now s)"
    using mem_Recent_pt [OF inv] pt_invD [OF inv] set_List_pt [OF inv] expired_simps by blast
  assume t: "t \<in> set (List_pt s)" "now\<^sub>2 - now\<^sub>1 \<le> RecentTTL" "now - now\<^sub>1 \<le> RecentTTL"
  have "map_of (txs s) (ptx_Hash t) = Some t" using set_List_pt [OF inv] t by blast
  then have "map_of (recent (Remove_pt now\<^sub>1 now\<^sub>2 (ptx_Hash t) s)) (ptx_Hash t)
      = Some \<lparr>re_tx = t, re_removedAt = now\<^sub>1\<rparr>"
    using pt_invD(2) [OF inv] t
    by (simp add: Remove_pt_def map_of_map_keep AList.distinct_update gomap_simps not_expired_recent)
  then show "t \<in> set (Recent_pt now (Remove_pt now\<^sub>1 now\<^sub>2 (ptx_Hash t) s))"
    using t inv mem_Recent_pt pt_inv_Remove not_expired_recent by blast
qed

end
