(* ===== verification/Pending_Sqlite.thy ===== *)
theory Pending_Sqlite
  imports Pending
begin

text \<open>
  internal/adapter/eth/pending_store.go: the registry of pending transactions with its
  durable copy in the table pending_txs. Each operation is its in-memory part and its
  SQL part (the code releases the lock in between); \<open>ok\<close> tells whether the SQL
  statement succeeds, and a failed one leaves the table as it was. The driver keeps the
  instant of a time column.
\<close>

record pending_row =
  pr_hash :: string
  pr_from_address :: string
  pr_to_address :: string
  pr_value :: string
  pr_nonce :: int
  pr_gas_tip_wei :: string
  pr_gas_cap_wei :: string
  pr_kind :: string
  pr_submitted_at :: time
  pr_removed_at :: "time option"

text \<open>The store: the two maps of the snapshot, and the table.\<close>

record pending_db =
  ps_snap :: pending_tracker
  ps_rows :: "pending_row list"

definition parseWei :: "string \<Rightarrow> amount" where
  "parseWei s = (case SetString 10 s of None \<Rightarrow> NewAmountFromWei (Some 0) | Some n \<Rightarrow> NewAmountFromWei (Some n))"

definition encode_row :: "checksum \<Rightarrow> pending_tx \<Rightarrow> pending_row" where
  "encode_row ck tx =
     \<lparr>pr_hash = ptx_Hash tx, pr_from_address = Hex ck (ptx_From tx), pr_to_address = Hex ck (ptx_To tx),
      pr_value = show_int (Wei (ptx_Value tx)), pr_nonce = sint (ptx_Nonce tx),
      pr_gas_tip_wei = show_int (Wei (ptx_GasTipWei tx)), pr_gas_cap_wei = show_int (Wei (ptx_GasCapWei tx)),
      pr_kind = ptx_Kind tx, pr_submitted_at = ptx_SubmittedAt tx, pr_removed_at = None\<rparr>"

definition Add_mem :: "pending_tx \<Rightarrow> pending_db \<Rightarrow> pending_db" where
  "Add_mem tx s = s\<lparr>ps_snap := (ps_snap s)\<lparr>txs := AList.update (ptx_Hash tx) tx (txs (ps_snap s)),
     recent := AList.update (ptx_Hash tx) \<lparr>re_tx = tx, re_removedAt = zero_time\<rparr> (recent (ps_snap s))\<rparr>\<rparr>"

definition Add_sql :: "checksum \<Rightarrow> bool \<Rightarrow> pending_tx \<Rightarrow> pending_db \<Rightarrow> pending_db" where
  "Add_sql ck ok tx s =
     (if ok then s\<lparr>ps_rows := insert_or_replace pr_hash (encode_row ck tx) (ps_rows s)\<rparr> else s)"

definition Add_ps :: "checksum \<Rightarrow> bool \<Rightarrow> pending_tx \<Rightarrow> pending_db \<Rightarrow> pending_db" where
  "Add_ps ck ok tx s = Add_sql ck ok tx (Add_mem tx s)"

definition Remove_mem :: "time \<Rightarrow> string \<Rightarrow> pending_db \<Rightarrow> pending_db" where
  "Remove_mem now hash s = s\<lparr>ps_snap := (ps_snap s)\<lparr>txs := AList.delete hash (txs (ps_snap s)),
     recent := (case map_of (txs (ps_snap s)) hash of
        Some tx \<Rightarrow> AList.update hash \<lparr>re_tx = tx, re_removedAt = now\<rparr> (recent (ps_snap s))
      | None \<Rightarrow> recent (ps_snap s))\<rparr>\<rparr>"

definition Remove_sql :: "bool \<Rightarrow> time \<Rightarrow> string \<Rightarrow> pending_db \<Rightarrow> pending_db" where
  "Remove_sql ok now hash s =
     (if ok then s\<lparr>ps_rows := update_where (\<lambda>r. pr_hash r = hash) (\<lambda>r. r\<lparr>pr_removed_at := Some now\<rparr>) (ps_rows s)\<rparr>
      else s)"

definition Remove_ps :: "bool \<Rightarrow> time \<Rightarrow> time \<Rightarrow> string \<Rightarrow> pending_db \<Rightarrow> pending_db" where
  "Remove_ps ok now\<^sub>1 now\<^sub>2 hash s = Remove_sql ok now\<^sub>2 hash (Remove_mem now\<^sub>1 hash s)"

definition List_ps :: "pending_db \<Rightarrow> pending_tx list" where
  "List_ps s = map snd (txs (ps_snap s))"

definition Recent_ps :: "time \<Rightarrow> pending_db \<Rightarrow> pending_tx list" where
  "Recent_ps now s = map (re_tx \<circ> snd) (map_keep (\<lambda>e. \<not> expired now e) (recent (ps_snap s)))"

text \<open>The rows the sweep at time \<open>now\<close> deletes.\<close>

definition stale_row :: "time \<Rightarrow> pending_row \<Rightarrow> bool" where
  "stale_row now r \<longleftrightarrow> (case pr_removed_at r of None \<Rightarrow> False | Some t \<Rightarrow> t < now - RecentTTL)"

definition gc :: "bool \<Rightarrow> time \<Rightarrow> time \<Rightarrow> pending_db \<Rightarrow> pending_db" where
  "gc ok now\<^sub>1 now\<^sub>2 s =
     (if \<not> ok then s
      else \<lparr>ps_snap = (ps_snap s)\<lparr>recent := map_keep (\<lambda>e. \<not> expired now\<^sub>2 e) (recent (ps_snap s))\<rparr>,
            ps_rows = delete_where (stale_row now\<^sub>1) (ps_rows s)\<rparr>)"

text \<open>One sweep per tick until the context ends.\<close>

definition Run :: "(bool \<times> time \<times> time) list \<Rightarrow> pending_db \<Rightarrow> pending_db" where
  "Run ticks s = fold (\<lambda>(ok, now\<^sub>1, now\<^sub>2). gc ok now\<^sub>1 now\<^sub>2) ticks s"

text \<open>A row whose addresses do not parse is dropped.\<close>

definition scan_row :: "pending_row \<Rightarrow> pending_tx option" where
  "scan_row r =
     (case NewAddress (pr_from_address r) of Inl e \<Rightarrow> None
      | Inr from \<Rightarrow> (case NewAddress (pr_to_address r) of Inl e \<Rightarrow> None
        | Inr to \<Rightarrow> Some
          \<lparr>ptx_Hash = pr_hash r, ptx_From = from, ptx_To = to, ptx_Value = parseWei (pr_value r),
           ptx_Nonce = word_of_int (pr_nonce r), ptx_GasTipWei = parseWei (pr_gas_tip_wei r),
           ptx_GasCapWei = parseWei (pr_gas_cap_wei r), ptx_SubmittedAt = pr_submitted_at r,
           ptx_Kind = pr_kind r\<rparr>))"

definition hydrate_row :: "pending_row \<Rightarrow> pending_tracker \<Rightarrow> pending_tracker" where
  "hydrate_row r p =
     (case scan_row r of None \<Rightarrow> p
      | Some tx \<Rightarrow> (case pr_removed_at r of
          Some t \<Rightarrow> p\<lparr>recent := AList.update (pr_hash r) \<lparr>re_tx = tx, re_removedAt = t\<rparr> (recent p)\<rparr>
        | None \<Rightarrow> p\<lparr>txs := AList.update (pr_hash r) tx (txs p),
                    recent := AList.update (pr_hash r) \<lparr>re_tx = tx, re_removedAt = zero_time\<rparr> (recent p)\<rparr>))"

text \<open>The statements of \<open>hydrate\<close> fail with \<open>delErr\<close>, \<open>qryErr\<close> or \<open>rowsErr\<close>.\<close>

definition hydrate ::
  "err option \<Rightarrow> err option \<Rightarrow> err option \<Rightarrow> time \<Rightarrow> pending_db \<Rightarrow> err + pending_db" where
  "hydrate delErr qryErr rowsErr now s =
     (case delErr of Some e \<Rightarrow> Inl e
      | None \<Rightarrow> let rows = delete_where (stale_row now) (ps_rows s) in
        (case qryErr of Some e \<Rightarrow> Inl e
         | None \<Rightarrow> (case rowsErr of Some e \<Rightarrow> Inl e
           | None \<Rightarrow> Inr \<lparr>ps_snap = fold hydrate_row rows (ps_snap s), ps_rows = rows\<rparr>)))"

definition NewPendingStore ::
  "err option \<Rightarrow> err option \<Rightarrow> err option \<Rightarrow> time \<Rightarrow> pending_row list \<Rightarrow> err + pending_db" where
  "NewPendingStore delErr qryErr rowsErr now rows =
     hydrate delErr qryErr rowsErr now \<lparr>ps_snap = \<lparr>txs = [], recent = []\<rparr>, ps_rows = rows\<rparr>"

section \<open>The interface\<close>

lemma snap_simps [simp]:
  "ps_snap (Add_ps ck ok tx s) = Add_pt tx (ps_snap s)"
  "ps_snap (Remove_ps ok now\<^sub>1 now\<^sub>2 h s) = ps_snap (Remove_mem now\<^sub>1 h s)"
  "List_ps s = List_pt (ps_snap s)"
  "Recent_ps now s = Recent_pt now (ps_snap s)"
  by (simp_all add: Add_ps_def Add_sql_def Add_mem_def Add_pt_def Remove_ps_def Remove_sql_def
      List_ps_def List_pt_def Recent_ps_def Recent_pt_def)

lemma pt_inv_Remove_mem: "pt_inv (ps_snap s) \<Longrightarrow> pt_inv (ps_snap (Remove_mem now h s))"
  by (cases "map_of (txs (ps_snap s)) h")
    (auto simp: pt_inv_def Remove_mem_def AList.distinct_update AList.distinct_delete
      gomap_simps split: option.splits)

interpretation ps: pending_store "\<lambda>s :: pending_db. pt_inv (ps_snap s)" "Add_ps ck ok" "Remove_ps ok'" List_ps Recent_ps
  for ck ok ok'
proof unfold_locales
  fix s :: pending_db and tx now\<^sub>1 now\<^sub>2 h now t
  assume inv: "pt_inv (ps_snap s)"
  show "pt_inv (ps_snap (Add_ps ck ok tx s))" "pt_inv (ps_snap (Remove_ps ok' now\<^sub>1 now\<^sub>2 h s))"
    using inv by (simp_all add: pt_inv_Add pt_inv_Remove_mem)
  show "distinct (map ptx_Hash (List_ps s))" using pt.distinct_listed [OF inv] by simp
  show "set (List_ps (Add_ps ck ok tx s)) = insert tx {t \<in> set (List_ps s). ptx_Hash t \<noteq> ptx_Hash tx}"
    using pt.listed_add [OF inv] by simp
  show "set (List_ps s) \<subseteq> set (Recent_ps now s)" using pt.listed_recent [OF inv] by simp
  show "set (List_ps (Remove_ps ok' now\<^sub>1 now\<^sub>2 h s)) = {t \<in> set (List_ps s). ptx_Hash t \<noteq> h}"
    using inv
    by (auto simp: set_List_pt pt_inv_Remove_mem) (auto simp: Remove_mem_def gomap_simps split: if_splits)
  assume t: "t \<in> set (List_ps s)" "now - now\<^sub>1 \<le> RecentTTL"
  then have "map_of (txs (ps_snap s)) (ptx_Hash t) = Some t" using set_List_pt [OF inv] by simp
  then have "map_of (recent (ps_snap (Remove_mem now\<^sub>1 (ptx_Hash t) s))) (ptx_Hash t)
      = Some \<lparr>re_tx = t, re_removedAt = now\<^sub>1\<rparr>"
    by (simp add: Remove_mem_def gomap_simps)
  then show "t \<in> set (Recent_ps now (Remove_ps ok' now\<^sub>1 now\<^sub>2 (ptx_Hash t) s))"
    using mem_Recent_pt [OF pt_inv_Remove_mem [OF inv]] not_expired_recent [OF t(2)] by simp
qed

section \<open>The table mirrors the snapshot\<close>

text \<open>A transaction as it reads back: a nil amount is stored as zero.\<close>

definition norm_tx :: "pending_tx \<Rightarrow> pending_tx" where
  "norm_tx tx = tx\<lparr>ptx_Value := Amount (Some (safe (ptx_Value tx))),
     ptx_GasTipWei := Amount (Some (safe (ptx_GasTipWei tx))),
     ptx_GasCapWei := Amount (Some (safe (ptx_GasCapWei tx)))\<rparr>"

lemma norm_tx_idem [simp]: "norm_tx (norm_tx tx) = norm_tx tx"
  by (simp add: norm_tx_def)

lemma ptx_Hash_norm [simp]: "ptx_Hash (norm_tx tx) = ptx_Hash tx"
  by (simp add: norm_tx_def)

lemma parseWei_show_int [simp]: "parseWei (show_int n) = Amount (Some n)"
  by (simp add: parseWei_def SetString_show_int NewAmountFromWei_def)

lemma scan_encode: "scan_row (encode_row ck tx) = Some (norm_tx tx)"
  by (simp add: scan_row_def encode_row_def norm_tx_def Wei_safe)

lemma scan_row_removed [simp]: "scan_row (r\<lparr>pr_removed_at := t\<rparr>) = scan_row r"
  by (simp add: scan_row_def split: sum.split)

lemma scan_row_hash: "scan_row r = Some tx \<Longrightarrow> ptx_Hash tx = pr_hash r"
  by (auto simp: scan_row_def split: sum.splits)

lemma scan_row_norm: "scan_row r = Some tx \<Longrightarrow> norm_tx tx = tx"
  by (auto simp: scan_row_def norm_tx_def parseWei_def NewAmountFromWei_def split: sum.splits option.splits)

abbreviation row :: "pending_db \<Rightarrow> string \<Rightarrow> pending_row option" where
  "row s \<equiv> row_of pr_hash (ps_rows s)"

text \<open>
  Per hash, with \<open>T\<close> the latest clock reading: an active transaction has an unstamped
  row that reads back as it, no other row is unstamped, and a removed one has a row
  stamped no earlier.
\<close>

definition mirror_at ::
  "time \<Rightarrow> pending_tx option \<Rightarrow> recent_entry option \<Rightarrow> pending_row option \<Rightarrow> bool" where
  "mirror_at T a e ro \<longleftrightarrow>
     (case a of
        Some tx \<Rightarrow> (\<exists>r. ro = Some r \<and> pr_removed_at r = None \<and> scan_row r = Some (norm_tx tx))
      | None \<Rightarrow> (\<forall>r. ro = Some r \<longrightarrow> (\<exists>t. 0 \<le> t \<and> t \<le> T \<and> pr_removed_at r = Some t)))
   \<and> (case e of None \<Rightarrow> a = None
      | Some e \<Rightarrow> if re_removedAt e = zero_time then a = Some (re_tx e)
          else a = None \<and> re_removedAt e \<le> T \<and>
            (\<exists>r t. ro = Some r \<and> pr_removed_at r = Some t \<and> re_removedAt e \<le> t
                \<and> scan_row r = Some (norm_tx (re_tx e))))"

definition mirrors :: "time \<Rightarrow> pending_db \<Rightarrow> string \<Rightarrow> bool" where
  "mirrors T s h \<longleftrightarrow>
     mirror_at T (map_of (txs (ps_snap s)) h) (map_of (recent (ps_snap s)) h) (row s h)"

definition mirrored :: "time \<Rightarrow> pending_db \<Rightarrow> bool" where
  "mirrored T s \<longleftrightarrow> pt_inv (ps_snap s) \<and> distinct (map pr_hash (ps_rows s)) \<and> (\<forall>h. mirrors T s h)"

lemma mirror_at_mono: "mirror_at T a e r \<Longrightarrow> T \<le> T' \<Longrightarrow> mirror_at T' a e r"
  unfolding mirror_at_def by (cases a; cases e) (fastforce split: if_splits)+

lemma mirror_at_added:
  "scan_row r = Some (norm_tx tx) \<Longrightarrow> pr_removed_at r = None \<Longrightarrow>
   mirror_at T (Some tx) (Some \<lparr>re_tx = tx, re_removedAt = zero_time\<rparr>) (Some r)"
  by (simp add: mirror_at_def)

lemma mirrored_Add:
  assumes "mirrored T s"
  shows "mirrored T (Add_ps ck True tx s)"
proof -
  let ?s = "Add_ps ck True tx s"
  have rows: "ps_rows ?s = insert_or_replace pr_hash (encode_row ck tx) (ps_rows s)"
    by (simp add: Add_ps_def Add_sql_def Add_mem_def)
  have enc: "pr_hash (encode_row ck tx) = ptx_Hash tx" "pr_removed_at (encode_row ck tx) = None"
    by (simp_all add: encode_row_def)
  have "mirrors T ?s h" for h
    using assms mirror_at_added [OF scan_encode [of ck tx] enc(2)]
    by (cases "h = ptx_Hash tx")
      (simp_all add: mirrored_def mirrors_def rows Add_pt_def gomap_simps row_of_insert_or_replace enc(1))
  then show ?thesis
    using assms by (simp add: mirrored_def pt_inv_Add rows distinct_insert_or_replace)
qed

lemma zero_time_neg: "zero_time < 0"
  by (simp add: zero_time_def Second_def)

lemma mirror_at_removed:
  assumes "mirror_at T a e r" "0 \<le> now\<^sub>1" "T \<le> now\<^sub>1" "now\<^sub>1 \<le> now\<^sub>2"
  shows "mirror_at now\<^sub>2 None
      (case a of Some tx \<Rightarrow> Some \<lparr>re_tx = tx, re_removedAt = now\<^sub>1\<rparr> | None \<Rightarrow> e)
      (map_option (\<lambda>r. r\<lparr>pr_removed_at := Some now\<^sub>2\<rparr>) r)"
  using assms zero_time_neg
  by (cases a; cases e) (auto simp: mirror_at_def split: if_splits)

lemma mirrored_Remove:
  assumes "mirrored T s" "0 \<le> now\<^sub>1" "T \<le> now\<^sub>1" "now\<^sub>1 \<le> now\<^sub>2"
  shows "mirrored now\<^sub>2 (Remove_ps True now\<^sub>1 now\<^sub>2 h s)"
proof -
  let ?s = "Remove_ps True now\<^sub>1 now\<^sub>2 h s"
  have rows: "ps_rows ?s = update_where (\<lambda>r. pr_hash r = h) (\<lambda>r. r\<lparr>pr_removed_at := Some now\<^sub>2\<rparr>) (ps_rows s)"
    by (simp add: Remove_ps_def Remove_sql_def Remove_mem_def)
  have m: "mirrors T s h'" for h' using assms by (simp add: mirrored_def)
  have "mirrors now\<^sub>2 ?s h'" for h'
  proof (cases "h' = h")
    case True
    with mirror_at_removed [OF m [unfolded mirrors_def] assms(2-4), of h] show ?thesis
      by (cases "map_of (txs (ps_snap s)) h")
        (simp_all add: mirrors_def rows row_of_update_key Remove_mem_def gomap_simps)
  next
    case False
    with mirror_at_mono [OF m [unfolded mirrors_def], of now\<^sub>2 h'] assms show ?thesis
      by (cases "map_of (txs (ps_snap s)) h")
        (simp_all add: mirrors_def rows row_of_update_key Remove_mem_def gomap_simps)
  qed
  then show ?thesis
    using assms by (simp add: mirrored_def pt_inv_Remove_mem rows map_update_where)
qed

lemma expired_iff:
  "expired now e \<longleftrightarrow> re_removedAt e \<noteq> zero_time \<and> now - re_removedAt e > RecentTTL"
  using Sub_time_gt [of RecentTTL now "re_removedAt e"]
  by (auto simp: expired_def IsZero_time_def RecentTTL_def Minute_def Second_def)

lemma mirror_at_gc:
  assumes "mirror_at T a e r" "T \<le> now\<^sub>1" "now\<^sub>1 \<le> now\<^sub>2"
  shows "mirror_at now\<^sub>2 a
      (case e of None \<Rightarrow> None | Some x \<Rightarrow> if \<not> expired now\<^sub>2 x then Some x else None)
      (case r of None \<Rightarrow> None | Some x \<Rightarrow> if stale_row now\<^sub>1 x then None else Some x)"
  using assms
  by (cases a; cases e; cases r) (auto simp: mirror_at_def expired_iff stale_row_def split: if_splits)

lemma mirrored_gc:
  assumes "mirrored T s" "T \<le> now\<^sub>1" "now\<^sub>1 \<le> now\<^sub>2"
  shows "mirrored now\<^sub>2 (gc ok now\<^sub>1 now\<^sub>2 s)"
proof (cases ok)
  case True
  have inv: "pt_inv (ps_snap s)" using assms(1) by (simp add: mirrored_def)
  have "mirrors now\<^sub>2 (gc ok now\<^sub>1 now\<^sub>2 s) h" for h
    using mirror_at_gc [OF _ assms(2,3)] assms(1) pt_invD [OF inv] True
    by (simp add: mirrored_def mirrors_def gc_def map_of_map_keep row_of_delete_where)
  moreover have "pt_inv (ps_snap (gc ok now\<^sub>1 now\<^sub>2 s))"
    using pt_inv_keep [OF inv] inv by (simp add: gc_def)
  ultimately show ?thesis
    using assms(1) True by (simp add: mirrored_def gc_def distinct_map_delete_where)
next
  case False
  have "T \<le> now\<^sub>2" using assms by simp
  then show ?thesis
    using assms(1) False mirror_at_mono [of T _ _ _ now\<^sub>2] by (simp add: mirrored_def mirrors_def gc_def)
qed

section \<open>Restart\<close>

definition entry_of_row :: "pending_row \<Rightarrow> recent_entry option" where
  "entry_of_row r = map_option (\<lambda>tx. \<lparr>re_tx = tx, re_removedAt =
     (case pr_removed_at r of None \<Rightarrow> zero_time | Some t \<Rightarrow> t)\<rparr>) (scan_row r)"

definition active_of_row :: "pending_row \<Rightarrow> pending_tx option" where
  "active_of_row r = (if pr_removed_at r = None then scan_row r else None)"

lemma hydrate_row_maps:
  "map_of (txs (hydrate_row r p)) h =
     (if h = pr_hash r \<and> active_of_row r \<noteq> None then active_of_row r else map_of (txs p) h)"
  "map_of (recent (hydrate_row r p)) h =
     (if h = pr_hash r \<and> entry_of_row r \<noteq> None then entry_of_row r else map_of (recent p) h)"
  "distinct (map fst (txs p)) \<Longrightarrow> distinct (map fst (txs (hydrate_row r p)))"
  "distinct (map fst (recent p)) \<Longrightarrow> distinct (map fst (recent (hydrate_row r p)))"
  by (cases "scan_row r"; cases "pr_removed_at r";
      simp add: hydrate_row_def active_of_row_def entry_of_row_def gomap_simps AList.distinct_update)+

lemma hydrate_rows:
  assumes "distinct (map pr_hash rows)"
  shows "map_of (txs (fold hydrate_row rows newPendingTracker)) h =
      Option.bind (row_of pr_hash rows h) active_of_row"
    "map_of (recent (fold hydrate_row rows newPendingTracker)) h =
      Option.bind (row_of pr_hash rows h) entry_of_row"
    "distinct (map fst (txs (fold hydrate_row rows newPendingTracker)))"
    "distinct (map fst (recent (fold hydrate_row rows newPendingTracker)))"
  using assms
proof (induction rows rule: rev_induct)
  case (snoc r rows)
  have d: "distinct (map pr_hash rows)" "row_of pr_hash rows (pr_hash r) = None"
    if "distinct (map pr_hash (rows @ [r]))" using that by (auto simp: row_of_None_iff)
  { case 1 show ?case
      using snoc.IH(1) d(1) [OF 1] d(2) [OF 1]
      by (cases "row_of pr_hash rows h") (auto simp: row_of_append row_of_Cons hydrate_row_maps) }
  { case 2 show ?case
      using snoc.IH(2) d(1) [OF 2] d(2) [OF 2]
      by (cases "row_of pr_hash rows h") (auto simp: row_of_append row_of_Cons hydrate_row_maps) }
  { case 3 show ?case using snoc.IH(3) d(1) [OF 3] by (simp add: hydrate_row_maps) }
  { case 4 show ?case using snoc.IH(4) d(1) [OF 4] by (simp add: hydrate_row_maps) }
qed (simp_all add: newPendingTracker_def)

lemma NewPendingStore_ok:
  "NewPendingStore None None None now rows =
     Inr \<lparr>ps_snap = fold hydrate_row (delete_where (stale_row now) rows) newPendingTracker,
          ps_rows = delete_where (stale_row now) rows\<rparr>"
  by (simp add: NewPendingStore_def hydrate_def newPendingTracker_def Let_def)

text \<open>What a restart makes of the entries of a hash.\<close>

lemma mirror_at_restart:
  assumes "mirror_at T a e ro" "T \<le> now"
    and "ro' = (case ro of None \<Rightarrow> None | Some x \<Rightarrow> if stale_row now x then None else Some x)"
    and "a' = Option.bind ro' active_of_row" and "e' = Option.bind ro' entry_of_row"
  shows "mirror_at now a' e' ro'" "a' = map_option norm_tx a"
    "\<forall>x. e = Some x \<longrightarrow> \<not> expired now x \<longrightarrow> (\<exists>y. e' = Some y \<and> \<not> expired now y \<and> re_tx y = norm_tx (re_tx x))"
proof -
  have z: "t \<noteq> zero_time" if "0 \<le> t" for t using that zero_time_neg by linarith
  note defs = mirror_at_def stale_row_def active_of_row_def entry_of_row_def expired_iff
  show "mirror_at now a' e' ro'"
    using assms z scan_row_norm
    by (cases a; cases ro) (auto simp: defs split: option.splits if_splits)
  show "a' = map_option norm_tx a"
    using assms by (cases a; cases ro) (auto simp: defs split: option.splits if_splits)
  show "\<forall>x. e = Some x \<longrightarrow> \<not> expired now x \<longrightarrow> (\<exists>y. e' = Some y \<and> \<not> expired now y \<and> re_tx y = norm_tx (re_tx x))"
    using assms z
    by (cases a; cases ro) (auto simp: defs split: option.splits if_splits)
qed

lemma restart_laws:
  assumes "mirrored T s" "T \<le> now"
  obtains s' where "NewPendingStore None None None now (ps_rows s) = Inr s'" "mirrored now s'"
    "\<And>h. map_of (txs (ps_snap s')) h = map_option norm_tx (map_of (txs (ps_snap s)) h)"
    "\<And>h x. map_of (recent (ps_snap s)) h = Some x \<Longrightarrow> \<not> expired now x \<Longrightarrow>
       \<exists>y. map_of (recent (ps_snap s')) h = Some y \<and> \<not> expired now y \<and> re_tx y = norm_tx (re_tx x)"
proof -
  let ?rows = "delete_where (stale_row now) (ps_rows s)"
  define s' where "s' = \<lparr>ps_snap = fold hydrate_row ?rows newPendingTracker, ps_rows = ?rows\<rparr>"
  have d: "distinct (map pr_hash (ps_rows s))" and m: "mirrors T s h" for h
    using assms by (simp_all add: mirrored_def)
  have d': "distinct (map pr_hash ?rows)" using d by (rule distinct_map_delete_where)
  note maps = hydrate_rows(1,2) [OF d']
  have ro: "row_of pr_hash ?rows h =
      (case row s h of None \<Rightarrow> None | Some x \<Rightarrow> if stale_row now x then None else Some x)" for h
    using d by (rule row_of_delete_where)
  note laws = mirror_at_restart [OF m [unfolded mirrors_def] assms(2) ro refl refl, folded maps]
  have "pt_inv (ps_snap s')"
  proof (rule pt_invI)
    fix h tx assume "map_of (txs (ps_snap s')) h = Some tx"
    then have a: "Option.bind (row_of pr_hash ?rows h) active_of_row = Some tx"
      by (simp add: s'_def maps)
    then obtain r where r: "row_of pr_hash ?rows h = Some r" "pr_removed_at r = None" "scan_row r = Some tx"
      by (auto simp: Option.bind_eq_Some_conv active_of_row_def split: if_splits)
    with row_of_SomeD [OF r(1)] show "ptx_Hash tx = h \<and>
        map_of (recent (ps_snap s')) h = Some \<lparr>re_tx = tx, re_removedAt = zero_time\<rparr>"
      by (simp add: s'_def maps entry_of_row_def scan_row_hash)
  qed (simp_all add: s'_def hydrate_rows [OF d'])
  then have "mirrored now s'"
    using laws(1) d' by (simp add: mirrored_def mirrors_def s'_def)
  with laws(2,3) show ?thesis
    by (intro that [of s']) (simp_all add: NewPendingStore_ok s'_def)
qed

text \<open>
  The states of a store whose SQL statements succeed, with the latest clock reading: it
  starts on an empty table, and each operation reads a clock that does not run back.
\<close>

inductive ps_reach :: "checksum \<Rightarrow> time \<Rightarrow> pending_db \<Rightarrow> bool" for ck where
  start: "NewPendingStore None None None now [] = Inr s \<Longrightarrow> 0 \<le> now \<Longrightarrow> ps_reach ck now s"
| add: "ps_reach ck T s \<Longrightarrow> ps_reach ck T (Add_ps ck True tx s)"
| remove: "ps_reach ck T s \<Longrightarrow> T \<le> now\<^sub>1 \<Longrightarrow> now\<^sub>1 \<le> now\<^sub>2 \<Longrightarrow>
    ps_reach ck now\<^sub>2 (Remove_ps True now\<^sub>1 now\<^sub>2 h s)"
| sweep: "ps_reach ck T s \<Longrightarrow> T \<le> now\<^sub>1 \<Longrightarrow> now\<^sub>1 \<le> now\<^sub>2 \<Longrightarrow> ps_reach ck now\<^sub>2 (gc ok now\<^sub>1 now\<^sub>2 s)"
| restart: "ps_reach ck T s \<Longrightarrow> T \<le> now \<Longrightarrow> NewPendingStore None None None now (ps_rows s) = Inr s' \<Longrightarrow>
    ps_reach ck now s'"

lemma ps_reach_mirrored: "ps_reach ck T s \<Longrightarrow> 0 \<le> T \<and> mirrored T s"
proof (induction rule: ps_reach.induct)
  case (start now s)
  have "pt_inv newPendingTracker" by (rule pt_inv_new)
  with start show ?case
    by (auto simp: NewPendingStore_ok delete_where_def mirrored_def mirrors_def mirror_at_def
        newPendingTracker_def)
next
  case (restart T s now s')
  then show ?case by (auto elim!: restart_laws [of T s now])
next
  case (remove T s now\<^sub>1 now\<^sub>2 h)
  then show ?case using mirrored_Remove [of T s now\<^sub>1 now\<^sub>2 h] by simp
next
  case (sweep T s now\<^sub>1 now\<^sub>2 ok)
  then show ?case using mirrored_gc [of T s now\<^sub>1 now\<^sub>2 ok] by simp
qed (simp add: mirrored_Add)

text \<open>A restart lists what was in flight.\<close>

lemma restart_lists:
  assumes "mirrored T s" "T \<le> now"
  obtains s' where "NewPendingStore None None None now (ps_rows s) = Inr s'" "mirrored now s'"
    "set (List_ps s') = norm_tx ` set (List_ps s)"
    "\<And>h x. map_of (recent (ps_snap s)) h = Some x \<Longrightarrow> \<not> expired now x \<Longrightarrow>
       \<exists>y. map_of (recent (ps_snap s')) h = Some y \<and> \<not> expired now y \<and> re_tx y = norm_tx (re_tx x)"
proof -
  obtain s' where new: "NewPendingStore None None None now (ps_rows s) = Inr s'" and m': "mirrored now s'"
    and act: "\<And>h. map_of (txs (ps_snap s')) h = map_option norm_tx (map_of (txs (ps_snap s)) h)"
    and rec: "\<And>h x. map_of (recent (ps_snap s)) h = Some x \<Longrightarrow> \<not> expired now x \<Longrightarrow>
       \<exists>y. map_of (recent (ps_snap s')) h = Some y \<and> \<not> expired now y \<and> re_tx y = norm_tx (re_tx x)"
    using restart_laws [OF assms] by metis
  have inv: "pt_inv (ps_snap s)" "pt_inv (ps_snap s')" using assms(1) m' by (simp_all add: mirrored_def)
  have lst: "tx \<in> set (List_ps s) \<longleftrightarrow> map_of (txs (ps_snap s)) (ptx_Hash tx) = Some tx"
    "tx \<in> set (List_ps s') \<longleftrightarrow> (\<exists>x. map_of (txs (ps_snap s)) (ptx_Hash tx) = Some x \<and> norm_tx x = tx)" for tx
    using set_List_pt [OF inv(1)] set_List_pt [OF inv(2)] by (simp_all add: act)
  have "set (List_ps s') = norm_tx ` set (List_ps s)"
  proof (intro equalityI subsetI)
    fix tx assume "tx \<in> set (List_ps s')"
    then obtain x where x: "map_of (txs (ps_snap s)) (ptx_Hash tx) = Some x" "norm_tx x = tx"
      unfolding lst(2) by blast
    then have "x \<in> set (List_ps s)" unfolding lst(1) using ptx_Hash_norm [of x] by simp
    with x(2) show "tx \<in> norm_tx ` set (List_ps s)" by blast
  next
    fix tx assume "tx \<in> norm_tx ` set (List_ps s)"
    then obtain x where x: "tx = norm_tx x" "x \<in> set (List_ps s)" by blast
    then have "map_of (txs (ps_snap s)) (ptx_Hash tx) = Some x" using lst(1) by simp
    with x(1) show "tx \<in> set (List_ps s')" unfolding lst(2) by blast
  qed
  then show ?thesis using that new m' rec by blast
qed

text \<open>
  C5. Durability of the registry. After any history of operations whose statements succeed and
  which do not interleave (\<open>ps_reach\<close>; what two interleaved ones can do is C32), a process
  that starts over on the table lists the transactions that were in flight, and its recent
  transactions include those of the old process at that time; only a nil amount reads
  back as zero.
\<close>

theorem pending_durable:
  assumes "ps_reach ck T s" "T \<le> now"
  shows "\<exists>s'. NewPendingStore None None None now (ps_rows s) = Inr s'
    \<and> set (List_ps s') = norm_tx ` set (List_ps s)
    \<and> norm_tx ` set (Recent_ps now s) \<subseteq> set (Recent_ps now s')"
proof -
  have m: "mirrored T s" using ps_reach_mirrored [OF assms(1)] by simp
  obtain s' where new: "NewPendingStore None None None now (ps_rows s) = Inr s'" "set (List_ps s') = norm_tx ` set (List_ps s)"
    and m': "mirrored now s'"
    and rec: "\<And>h x. map_of (recent (ps_snap s)) h = Some x \<Longrightarrow> \<not> expired now x \<Longrightarrow>
       \<exists>y. map_of (recent (ps_snap s')) h = Some y \<and> \<not> expired now y \<and> re_tx y = norm_tx (re_tx x)"
    using restart_lists [OF m assms(2)] by metis
  have inv: "pt_inv (ps_snap s)" "pt_inv (ps_snap s')" using m m' by (simp_all add: mirrored_def)
  have "norm_tx ` set (Recent_ps now s) \<subseteq> set (Recent_ps now s')"
  proof
    fix tx assume "tx \<in> norm_tx ` set (Recent_ps now s)"
    then obtain h x where "map_of (recent (ps_snap s)) h = Some x" "\<not> expired now x" "tx = norm_tx (re_tx x)"
      by (auto simp: set_Recent_pt [OF inv(1)])
    then show "tx \<in> set (Recent_ps now s')" using rec by (simp add: set_Recent_pt [OF inv(2)]) metis
  qed
  with new show ?thesis by blast
qed

definition sample_pending :: pending_tx where
  "sample_pending = \<lparr>ptx_Hash = ''0xab'', ptx_From = 1, ptx_To = 2, ptx_Value = Amount (Some 5), ptx_Nonce = 7,
     ptx_GasTipWei = Amount None, ptx_GasCapWei = Amount (Some 9), ptx_SubmittedAt = 3, ptx_Kind = ''swap''\<rparr>"

lemma sample_reach:
  "ps_reach (\<lambda>_ _. False) 0
     (Add_ps (\<lambda>_ _. False) True sample_pending \<lparr>ps_snap = \<lparr>txs = [], recent = []\<rparr>, ps_rows = []\<rparr>)"
  by (intro ps_reach.add ps_reach.start)
    (simp_all add: NewPendingStore_ok delete_where_def newPendingTracker_def)

lemma pending_durable_witness:
  "\<exists>s'. NewPendingStore None None None 1 (ps_rows
       (Add_ps (\<lambda>_ _. False) True sample_pending \<lparr>ps_snap = \<lparr>txs = [], recent = []\<rparr>, ps_rows = []\<rparr>)) = Inr s'
     \<and> set (List_ps s') = {norm_tx sample_pending}"
  using pending_durable [OF sample_reach, of 1]
  by (auto simp: List_pt_def Add_pt_def)

text \<open>
  C12. The janitor's pass on the durable registry: with nonce answers \<open>answer\<close> and
  lookups \<open>txByHash\<close>, what stays listed is exactly the transactions whose nonce is
  not below the sender's confirmed one (when the node gives it) and which the node
  reports as pending. An entry whose hash the node cannot look up is dropped even when
  the error is only a failed call.
\<close>

theorem prune_keeps_live:
  assumes "ps_reach ck T s"
  shows "set (List_ps (pruneStalePending (\<lambda>k. Remove_ps ok (fst (clock k)) (snd (clock k))) List_ps
           (\<lambda>_. answer) txByHash s))
       = {tx \<in> set (List_ps s). still_live answer txByHash tx}"
proof -
  have "pt_inv (ps_snap s)" using ps_reach_mirrored [OF assms] by (simp add: mirrored_def)
  from ps.prune_listed [OF this, where ok' = ok, unfolded ps.remove_at_eq] show ?thesis .
qed

lemma prune_keeps_live_witness:
  "set (List_ps (pruneStalePending (\<lambda>k. Remove_ps True 5 6) List_ps (\<lambda>_ _. Some 8) (\<lambda>_. Some True)
     (Add_ps (\<lambda>_ _. False) True sample_pending \<lparr>ps_snap = \<lparr>txs = [], recent = []\<rparr>, ps_rows = []\<rparr>))) = {}"
  unfolding prune_keeps_live [OF sample_reach, of True "\<lambda>_. (5, 6)" "\<lambda>_. Some 8", unfolded fst_conv snd_conv]
  by (auto simp: List_pt_def Add_pt_def still_live_def sample_pending_def)

text \<open>
  C32. Add and Remove release the lock before their SQL statement. When a Remove runs
  between the two halves of the Add of the same transaction, the registry no longer lists
  the transaction but its row stays unstamped: a restart lists it as in flight again.
\<close>

theorem add_remove_race:
  assumes "ps_reach ck T s"
    and s'_def: "s' = Add_sql ck True tx (Remove_sql True now\<^sub>2 (ptx_Hash tx) (Remove_mem now\<^sub>1 (ptx_Hash tx) (Add_mem tx s)))"
  shows "tx \<notin> set (List_ps s')
    \<and> (\<exists>s''. NewPendingStore None None None now (ps_rows s') = Inr s'' \<and> norm_tx tx \<in> set (List_ps s''))"
proof -
  have m: "pt_inv (ps_snap s)" "distinct (map pr_hash (ps_rows s))"
    using ps_reach_mirrored [OF assms(1)] by (simp_all add: mirrored_def)
  have snap: "ps_snap s' = ps_snap (Remove_mem now\<^sub>1 (ptx_Hash tx) (Add_ps ck True tx s))"
    by (simp add: s'_def Add_sql_def Remove_sql_def Remove_mem_def Add_ps_def split: option.split)
  have "tx \<notin> set (List_ps s')"
    using ps.add_then_remove [OF m(1), where ok = True and ok' = True, of now\<^sub>1 now\<^sub>2 tx ck] by (simp add: snap)
  let ?rows = "delete_where (stale_row now) (ps_rows s')"
  have rows: "ps_rows s' = insert_or_replace pr_hash (encode_row ck tx)
      (update_where (\<lambda>r. pr_hash r = ptx_Hash tx) (\<lambda>r. r\<lparr>pr_removed_at := Some now\<^sub>2\<rparr>) (ps_rows s))"
    by (simp add: s'_def Add_sql_def Remove_sql_def Remove_mem_def Add_mem_def)
  have d: "distinct (map pr_hash (ps_rows s'))"
    using m(2) by (simp add: rows distinct_insert_or_replace map_update_where)
  have "row_of pr_hash ?rows (ptx_Hash tx) = Some (encode_row ck tx)"
    using d unfolding row_of_delete_where [OF d]
    by (simp add: rows row_of_insert_or_replace encode_row_def stale_row_def)
  then have "map_of (txs (fold hydrate_row ?rows newPendingTracker)) (ptx_Hash tx) = Some (norm_tx tx)"
    unfolding hydrate_rows [OF distinct_map_delete_where [OF d]]
    by (simp add: active_of_row_def scan_encode) (simp add: encode_row_def)
  then have "norm_tx tx \<in> set (List_ps \<lparr>ps_snap = fold hydrate_row ?rows newPendingTracker, ps_rows = ?rows\<rparr>)"
    by (auto simp: List_pt_def dest: map_of_SomeD intro: rev_image_eqI)
  with \<open>tx \<notin> set (List_ps s')\<close> show ?thesis by (simp add: NewPendingStore_ok)
qed

lemma add_remove_race_witness:
  "sample_pending \<notin> set (List_ps (Add_sql (\<lambda>_ _. False) True sample_pending (Remove_sql True 6 ''0xab''
      (Remove_mem 5 ''0xab'' (Add_mem sample_pending
        (Add_ps (\<lambda>_ _. False) True sample_pending \<lparr>ps_snap = \<lparr>txs = [], recent = []\<rparr>, ps_rows = []\<rparr>))))))"
  using add_remove_race [OF sample_reach refl, of sample_pending 6 5] by (simp add: sample_pending_def)

end
