(* ===== verification/Tx.thy ===== *)
theory Tx
  imports Pending
begin

text \<open>
  pkg/ethkit/tx.go, gas.go and replacement.go: nonces, fee quotes, sending, waiting for
  and replacing transactions. The node, the retry policy around its calls and the wallet's
  signature are outside the repository: a call's answer (after the retries, where the code
  retries it) is a parameter, and \<open>sign\<close> gives the hash of the signed transaction.
\<close>

definition errorf :: "string \<Rightarrow> err \<Rightarrow> err" where
  "errorf prefix e = WrapError (prefix @ Error_text e) [e]"

section \<open>Nonces\<close>

type_synonym nonces = "(address, u64) gomap"

definition next_nonce :: "(address \<Rightarrow> err + u64) \<Rightarrow> address \<Rightarrow> nonces \<Rightarrow> (err + u64) \<times> nonces" where
  "next_nonce PendingNonceAt addr nm =
     (case (case map_of nm addr of
              Some n \<Rightarrow> Inr nm
            | None \<Rightarrow> (case PendingNonceAt addr of
                Inl e \<Rightarrow> Inl (errorf ''ethkit: get nonce: '' e)
              | Inr n \<Rightarrow> Inr (AList.update addr n nm))) of
        Inl e \<Rightarrow> (Inl e, nm)
      | Inr nm' \<Rightarrow> (let nonce = the_default 0 (map_of nm' addr)
                    in (Inr nonce, AList.update addr (nonce + 1) nm')))"

definition reset_nonce :: "address \<Rightarrow> nonces \<Rightarrow> nonces" where
  "reset_nonce addr nm = AList.delete addr nm"

section \<open>Fees\<close>

text \<open>
  The answers to the fee queries: the base fee of the latest header (\<open>None\<close> before
  EIP-1559), the suggested tip and the gas estimate.
\<close>

record fee_answers =
  fa_header :: "err + int option"
  fa_tip :: "err + int"
  fa_gas :: "tx_request \<Rightarrow> address \<Rightarrow> err + u64"

definition GasEstimate :: "fee_answers \<Rightarrow> tx_request \<Rightarrow> address \<Rightarrow> err + u64" where
  "GasEstimate fa req sender =
     (case fa_gas fa req sender of
        Inl e \<Rightarrow> Inl (errorf ''ethkit: estimate gas: '' e)
      | Inr gas \<Rightarrow> Inr gas)"

definition GasEstimateAnonymous :: "fee_answers \<Rightarrow> tx_request \<Rightarrow> err + u64" where
  "GasEstimateAnonymous fa req = GasEstimate fa req 0"

definition GasFees :: "fee_answers \<Rightarrow> err + gas_info" where
  "GasFees fa =
     (case fa_header fa of
        Inl e \<Rightarrow> Inl (errorf ''ethkit: fetch header: '' e)
      | Inr None \<Rightarrow> Inl (Sentinel ''ethkit: node does not support EIP-1559 (no base fee)'')
      | Inr (Some baseFee) \<Rightarrow> (case fa_tip fa of
            Inl e \<Rightarrow> Inl (errorf ''ethkit: suggest gas tip: '' e)
          | Inr tip \<Rightarrow> Inr \<lparr>BaseFee = NewAmountFromWei (Some baseFee),
              PriorityFee = NewAmountFromWei (Some tip),
              MaxFee = NewAmountFromWei (Some (baseFee * 2 + tip)),
              GasPrice = NewAmountFromWei (Some (baseFee + tip))\<rparr>))"

definition GasEstimateWithFees ::
  "fee_answers \<Rightarrow> tx_request \<Rightarrow> address \<Rightarrow> err + u64 \<times> gas_info \<times> amount" where
  "GasEstimateWithFees fa req sender =
     bindE (GasFees fa) (\<lambda>gasInfo.
     bindE (if rq_GasLimit req = 0 then bindE (GasEstimate fa req sender) (\<lambda>g. Inr (g * 12 div 10))
            else Inr (rq_GasLimit req)) (\<lambda>gasUnits.
     Inr (gasUnits, gasInfo, NewAmountFromWei (Some (Wei (MaxFee gasInfo) * sint gasUnits)))))"

section \<open>Receipts\<close>

record node_receipt =
  nr_Status :: u64
  nr_EffectiveGasPrice :: "int option"
  nr_GasUsed :: u64
  nr_BlockNumber :: int

definition ReceiptStatusFailed :: u64 where "ReceiptStatusFailed = 0"

definition mk_receipt :: "string \<Rightarrow> node_receipt \<Rightarrow> tx_receipt" where
  "mk_receipt hash r =
     \<lparr>rc_Hash = hash,
      rc_Status = (if nr_Status r = ReceiptStatusFailed then TxStatusFailed else TxStatusSuccess),
      rc_BlockNumber = word_of_int (nr_BlockNumber r), rc_GasUsed = nr_GasUsed r,
      rc_GasCost = NewAmountFromWei (Some
        ((case nr_EffectiveGasPrice r of None \<Rightarrow> 0 | Some p \<Rightarrow> p) * sint (nr_GasUsed r)))\<rparr>"

text \<open>
  What the waiting loop observes, in order: a tick with the node's answer, or the end of
  its context. It has not returned when the events run out.
\<close>

datatype wait_event = CtxDone err | Tick "err + node_receipt"

fun waitForReceipt :: "string \<Rightarrow> wait_event list \<Rightarrow> (err + tx_receipt) option" where
  "waitForReceipt hash [] = None"
| "waitForReceipt hash (CtxDone e # es) = Some (Inl e)"
| "waitForReceipt hash (Tick (Inl e) # es) = waitForReceipt hash es"
| "waitForReceipt hash (Tick (Inr r) # es) = Some (Inr (mk_receipt hash r))"

definition GetReceipt :: "string \<Rightarrow> err + node_receipt \<Rightarrow> (err + tx_receipt) option" where
  "GetReceipt hash answer =
     (case answer of
        Inl e \<Rightarrow> if Error_text e = ''not found'' then None else Some (Inl (errorf ''ethkit: get receipt: '' e))
      | Inr r \<Rightarrow> Some (Inr (mk_receipt hash r)))"

section \<open>Sending\<close>

record dynamic_fee_tx =
  dt_ChainID :: int
  dt_Nonce :: u64
  dt_GasTipCap :: int
  dt_GasFeeCap :: int
  dt_Gas :: u64
  dt_To :: "address option"
  dt_Value :: int
  dt_Data :: "u8 list"

text \<open>The client: its nonces, its registry, and the transactions handed to the node so far.\<close>

record 's client =
  cl_chainID :: int
  cl_nonces :: nonces
  cl_pending :: 's
  cl_broadcast :: "dynamic_fee_tx list"

text \<open>The node's and the wallet's part of one send.\<close>

record send_env =
  se_PendingNonceAt :: "address \<Rightarrow> err + u64"
  se_fees :: fee_answers
  se_sign :: "dynamic_fee_tx \<Rightarrow> err + string"
  se_send :: "err option"
  se_now :: time
  se_removed :: "time \<times> time"
  se_wait :: "wait_event list"

definition build_tx :: "int \<Rightarrow> u64 \<Rightarrow> u64 \<Rightarrow> gas_info \<Rightarrow> tx_request \<Rightarrow> dynamic_fee_tx" where
  "build_tx chainID nonce gasUnits gasInfo req =
     \<lparr>dt_ChainID = chainID, dt_Nonce = nonce,
      dt_GasTipCap = (case rq_GasTip req of None \<Rightarrow> Wei (PriorityFee gasInfo) | Some t \<Rightarrow> Wei t),
      dt_GasFeeCap = (case rq_GasCap req of None \<Rightarrow> Wei (MaxFee gasInfo) | Some c \<Rightarrow> Wei c),
      dt_Gas = (if rq_GasLimit req \<noteq> 0 then rq_GasLimit req else gasUnits),
      dt_To = Some (rq_To req), dt_Value = Wei (rq_Value req), dt_Data = rq_Data req\<rparr>"

definition pending_of :: "string \<Rightarrow> address \<Rightarrow> tx_request \<Rightarrow> dynamic_fee_tx \<Rightarrow> time \<Rightarrow> pending_tx" where
  "pending_of hash from req tx now =
     \<lparr>ptx_Hash = hash, ptx_From = from, ptx_To = rq_To req, ptx_Value = rq_Value req,
      ptx_Nonce = dt_Nonce tx, ptx_GasTipWei = NewAmountFromWei (Some (dt_GasTipCap tx)),
      ptx_GasCapWei = NewAmountFromWei (Some (dt_GasFeeCap tx)), ptx_SubmittedAt = now,
      ptx_Kind = rq_Kind req\<rparr>"

text \<open>
  The result is \<open>None\<close> while the call is still waiting for the receipt; the deferred
  Remove runs when it returns.
\<close>

definition SendTx ::
  "(pending_tx \<Rightarrow> 's \<Rightarrow> 's) \<Rightarrow> (time \<Rightarrow> time \<Rightarrow> string \<Rightarrow> 's \<Rightarrow> 's) \<Rightarrow> send_env \<Rightarrow> address \<Rightarrow> tx_request \<Rightarrow>
   's client \<Rightarrow> (err + tx_receipt) option \<times> 's client" where
  "SendTx add remove env addr req c =
     (case next_nonce (se_PendingNonceAt env) addr (cl_nonces c) of
        (Inl e, nm) \<Rightarrow> (Some (Inl e), c\<lparr>cl_nonces := nm\<rparr>)
      | (Inr nonce, nm) \<Rightarrow>
        (let c1 = c\<lparr>cl_nonces := nm\<rparr> in
         case GasEstimateWithFees (se_fees env) req addr of
           Inl e \<Rightarrow> (Some (Inl e), c1)
         | Inr (gasUnits, gasInfo, _) \<Rightarrow>
           (let tx = build_tx (cl_chainID c) nonce gasUnits gasInfo req in
            case se_sign env tx of
              Inl e \<Rightarrow> (Some (Inl (errorf ''ethkit: sign tx: '' e)), c1)
            | Inr hash \<Rightarrow>
              (let c2 = c1\<lparr>cl_broadcast := cl_broadcast c1 @ [tx]\<rparr> in
               case se_send env of
                 Some e \<Rightarrow> (Some (Inl (errorf ''ethkit: broadcast tx: '' e)),
                            c2\<lparr>cl_nonces := reset_nonce addr (cl_nonces c2)\<rparr>)
               | None \<Rightarrow>
                 (let c3 = c2\<lparr>cl_pending := add (pending_of hash addr req tx (se_now env)) (cl_pending c2)\<rparr>
                  in case waitForReceipt hash (se_wait env) of
                       None \<Rightarrow> (None, c3)
                     | Some r \<Rightarrow> (Some r, c3\<lparr>cl_pending :=
                         remove (fst (se_removed env)) (snd (se_removed env)) hash (cl_pending c3)\<rparr>))))))"

section \<open>Replacing\<close>

definition ErrTxAlreadyMined :: err where
  "ErrTxAlreadyMined = Sentinel ''ethkit: transaction already mined''"

definition ErrTxNotFound :: err where
  "ErrTxNotFound = Sentinel ''ethkit: transaction not found''"

definition bumpedTip :: "int \<Rightarrow> int" where "bumpedTip tip = tip * 120 div 100"
definition bumpedCap :: "int \<Rightarrow> int" where "bumpedCap feeCap = feeCap * 110 div 100"

definition replacement_tx :: "int \<Rightarrow> address \<Rightarrow> bool \<Rightarrow> dynamic_fee_tx \<Rightarrow> dynamic_fee_tx" where
  "replacement_tx chainID wallet cancel tx =
     (let newTx = \<lparr>dt_ChainID = chainID, dt_Nonce = dt_Nonce tx, dt_GasTipCap = bumpedTip (dt_GasTipCap tx),
            dt_GasFeeCap = bumpedCap (dt_GasFeeCap tx), dt_Gas = dt_Gas tx, dt_To = dt_To tx,
            dt_Value = dt_Value tx, dt_Data = dt_Data tx\<rparr>
      in if cancel then newTx\<lparr>dt_To := Some wallet, dt_Value := 0, dt_Data := [], dt_Gas := 21000\<rparr>
         else newTx)"

definition replacement_pending ::
  "string \<Rightarrow> address \<Rightarrow> bool \<Rightarrow> dynamic_fee_tx \<Rightarrow> time \<Rightarrow> pending_tx" where
  "replacement_pending hash from cancel newTx now =
     \<lparr>ptx_Hash = hash, ptx_From = from, ptx_To = (case dt_To newTx of None \<Rightarrow> 0 | Some a \<Rightarrow> a),
      ptx_Value = NewAmountFromWei (Some (dt_Value newTx)), ptx_Nonce = dt_Nonce newTx,
      ptx_GasTipWei = NewAmountFromWei (Some (dt_GasTipCap newTx)),
      ptx_GasCapWei = NewAmountFromWei (Some (dt_GasFeeCap newTx)), ptx_SubmittedAt = now,
      ptx_Kind = (if cancel then ''cancel'' else ''speed-up'')\<rparr>"

text \<open>The node's and the wallet's part of one replacement.\<close>

record replace_env =
  rp_lookup :: "err + dynamic_fee_tx \<times> bool"
  rp_sign :: "dynamic_fee_tx \<Rightarrow> err + string"
  rp_send :: "err option"
  rp_now :: time
  rp_removed :: "time \<times> time"

definition replaceTx ::
  "(pending_tx \<Rightarrow> 's \<Rightarrow> 's) \<Rightarrow> (time \<Rightarrow> time \<Rightarrow> string \<Rightarrow> 's \<Rightarrow> 's) \<Rightarrow> replace_env \<Rightarrow> address \<Rightarrow> string \<Rightarrow> bool \<Rightarrow>
   's client \<Rightarrow> (err + string) \<times> 's client" where
  "replaceTx add remove env wallet original cancel c =
     (let cleanup = c\<lparr>cl_pending := remove (fst (rp_removed env)) (snd (rp_removed env)) original (cl_pending c)\<rparr>
      in case rp_lookup env of
        Inl e \<Rightarrow> (Inl (WrapError (Error_text ErrTxNotFound @ '': '' @ Error_text e) [ErrTxNotFound, e]), cleanup)
      | Inr (tx, isPending) \<Rightarrow>
        if \<not> isPending then (Inl ErrTxAlreadyMined, cleanup)
        else (let newTx = replacement_tx (cl_chainID c) wallet cancel tx in
          case rp_sign env newTx of
            Inl e \<Rightarrow> (Inl (errorf ''ethkit: sign replacement: '' (errorf ''ethkit: sign tx: '' e)), c)
          | Inr newHash \<Rightarrow>
            (let c1 = c\<lparr>cl_broadcast := cl_broadcast c @ [newTx]\<rparr> in
             case rp_send env of
               Some e \<Rightarrow> (Inl (errorf ''ethkit: broadcast replacement: '' e), c1)
             | None \<Rightarrow> (Inr newHash, c1\<lparr>cl_pending :=
                 add (replacement_pending newHash wallet cancel newTx (rp_now env)) (cl_pending c1)\<rparr>))))"

definition SpeedUpTx ::
  "(pending_tx \<Rightarrow> 's \<Rightarrow> 's) \<Rightarrow> (time \<Rightarrow> time \<Rightarrow> string \<Rightarrow> 's \<Rightarrow> 's) \<Rightarrow> replace_env \<Rightarrow> address \<Rightarrow> string \<Rightarrow>
   's client \<Rightarrow> (err + string) \<times> 's client" where
  "SpeedUpTx add remove env wallet original c = replaceTx add remove env wallet original False c"

definition CancelTx ::
  "(pending_tx \<Rightarrow> 's \<Rightarrow> 's) \<Rightarrow> (time \<Rightarrow> time \<Rightarrow> string \<Rightarrow> 's \<Rightarrow> 's) \<Rightarrow> replace_env \<Rightarrow> address \<Rightarrow> string \<Rightarrow>
   's client \<Rightarrow> (err + string) \<times> 's client" where
  "CancelTx add remove env wallet original c = replaceTx add remove env wallet original True c"

section \<open>Laws of nonces\<close>

lemma next_nonce_known:
  "map_of nm addr = Some n \<Longrightarrow> next_nonce ans addr nm = (Inr n, AList.update addr (n + 1) nm)"
  by (simp add: next_nonce_def)

lemma next_nonce_fresh:
  "map_of nm addr = None \<Longrightarrow> ans addr = Inr n \<Longrightarrow>
   next_nonce ans addr nm = (Inr n, AList.update addr (n + 1) (AList.update addr n nm))"
  by (simp add: next_nonce_def gomap_simps)

lemma next_nonce_Inr:
  assumes "next_nonce ans addr nm = (Inr n, nm')"
  shows "map_of nm' = (map_of nm)(addr \<mapsto> n + 1)"
    and "map_of nm addr = Some n \<or> map_of nm addr = None \<and> ans addr = Inr n"
  using assms by (auto simp: next_nonce_def gomap_simps Let_def split: option.splits sum.splits)

lemma next_nonce_Inl:
  "next_nonce ans addr nm = (Inl e, nm') \<Longrightarrow> nm' = nm"
  by (auto simp: next_nonce_def Let_def split: option.splits sum.splits)

text \<open>Reservations in a row, each with the node's answer at that moment.\<close>

fun reserve :: "(address \<Rightarrow> err + u64) list \<Rightarrow> address \<Rightarrow> nonces \<Rightarrow> (err + u64) list \<times> nonces" where
  "reserve [] addr nm = ([], nm)"
| "reserve (ans # rest) addr nm =
     (let (r, nm') = next_nonce ans addr nm; (rs, nm'') = reserve rest addr nm' in (r # rs, nm''))"

lemma reserve_known:
  "map_of nm addr = Some n \<Longrightarrow>
   fst (reserve anss addr nm) = map (\<lambda>i. Inr (n + of_nat i)) [0..<length anss]"
proof (induction anss arbitrary: nm n)
  case (Cons ans rest)
  have "fst (reserve rest addr (AList.update addr (n + 1) nm))
      = map (\<lambda>i. Inr (n + 1 + of_nat i)) [0..<length rest]"
    by (rule Cons.IH) (simp add: gomap_simps)
  then have "fst (reserve (ans # rest) addr nm) = Inr n # map (\<lambda>i. Inr (n + 1 + of_nat i)) [0..<length rest]"
    using Cons.prems by (simp add: next_nonce_known Let_def split_def)
  also have "\<dots> = map (\<lambda>i. Inr (n + of_nat i)) [0..<length (ans # rest)]"
    by (simp add: upt_conv_Cons map_Suc_upt [symmetric] o_def ac_simps del: upt_Suc)
  finally show ?case .
qed simp

text \<open>
  C9. Transactions sent in quick succession get consecutive nonces: the node is asked once,
  and \<open>k\<close> reservations in a row return its answer and the following numbers, whatever the
  node would answer later.
\<close>

theorem nonces_consecutive:
  assumes "map_of nm addr = None" "ans addr = Inr n"
  shows "fst (reserve (ans # anss) addr nm) = map (\<lambda>i. Inr (n + of_nat i)) [0..<Suc (length anss)]"
proof -
  have "fst (reserve (ans # anss) addr nm)
      = Inr n # fst (reserve anss addr (AList.update addr (n + 1) (AList.update addr n nm)))"
    using assms by (simp add: next_nonce_fresh Let_def split_def)
  also have "\<dots> = fst (reserve (ans # anss) addr (AList.update addr n nm))"
    by (simp add: next_nonce_known gomap_simps Let_def split_def)
  also have "\<dots> = map (\<lambda>i. Inr (n + of_nat i)) [0..<Suc (length anss)]"
    using reserve_known [of "AList.update addr n nm" addr n "ans # anss"]
    by (simp add: gomap_simps del: reserve.simps)
  finally show ?thesis .
qed

lemma nonces_consecutive_witness:
  "fst (reserve [\<lambda>_. Inr 7, \<lambda>_. Inr 0, \<lambda>_. Inl (Sentinel ''down'')] 1 []) = [Inr 7, Inr 8, Inr 9]"
  using nonces_consecutive [of "[]" 1 "\<lambda>_. Inr 7" 7 "[\<lambda>_. Inr 0, \<lambda>_. Inl (Sentinel ''down'')]"]
  by (simp add: upt_rec)

section \<open>Laws of fees and receipts\<close>

lemma GasFees_Inr:
  "GasFees fa = Inr g \<longleftrightarrow> (\<exists>base tip. fa_header fa = Inr (Some base) \<and> fa_tip fa = Inr tip \<and>
     g = \<lparr>BaseFee = Amount (Some base), PriorityFee = Amount (Some tip),
          MaxFee = Amount (Some (base * 2 + tip)), GasPrice = Amount (Some (base + tip))\<rparr>)"
  by (auto simp: GasFees_def NewAmountFromWei_def split: sum.splits option.splits)

text \<open>
  The fee quote of a request. With base fee \<open>b\<close>, tip \<open>t\<close> and an estimate of \<open>g\<close> gas
  units that leaves room in 64 bits, an unset gas limit gives a fifth more than the
  estimate, rounded down, a set one is kept, and the quoted cost is the gas times
  \<open>2 b + t\<close>.
\<close>

theorem fee_quote:
  assumes "fa_header fa = Inr (Some b)" "fa_tip fa = Inr t" "fa_gas fa req sender = Inr g"
    and "uint g < 2 ^ 59" "uint (rq_GasLimit req) < 2 ^ 63"
  shows "\<exists>gas info cost. GasEstimateWithFees fa req sender = Inr (gas, info, cost)
    \<and> uint gas = (if rq_GasLimit req = 0 then uint g * 12 div 10 else uint (rq_GasLimit req))
    \<and> Wei (PriorityFee info) = t \<and> Wei (MaxFee info) = 2 * b + t
    \<and> Wei cost = (2 * b + t) * uint gas"
proof -
  let ?gas = "if rq_GasLimit req = 0 then g * 12 div 10 else rq_GasLimit req"
  have m: "uint (g * 12) = uint g * 12"
    using assms(4) by (simp add: uint_word_ariths)
  have gas: "uint ?gas = (if rq_GasLimit req = 0 then uint g * 12 div 10 else uint (rq_GasLimit req))"
    using m by (simp add: uint_div_distrib)
  have "uint ?gas < 2 ^ 63"
    using assms(4,5) unfolding gas by (auto intro: zdiv_mono1 [THEN le_less_trans, of _ "2 ^ 59 * 12"])
  then have "sint ?gas = uint ?gas" by (rule sint_u64)
  then show ?thesis
    using assms gas
    by (auto simp: GasEstimateWithFees_def GasFees_def GasEstimate_def NewAmountFromWei_def Wei_safe)
qed

definition sample_fees :: fee_answers where
  "sample_fees = \<lparr>fa_header = Inr (Some 100), fa_tip = Inr 3, fa_gas = (\<lambda>_ _. Inr 21000)\<rparr>"

definition sample_req :: tx_request where
  "sample_req = \<lparr>rq_To = 2, rq_Value = Amount (Some 5), rq_Data = [], rq_GasLimit = 0, rq_GasTip = None,
     rq_GasCap = None, rq_Kind = ''send''\<rparr>"

lemma fee_quote_witness:
  "\<exists>gas info cost. GasEstimateWithFees sample_fees sample_req 1 = Inr (gas, info, cost)
     \<and> uint gas = 25200 \<and> Wei cost = 203 * 25200"
  using fee_quote [of sample_fees 100 3 sample_req 1 21000]
  by (auto simp: sample_fees_def sample_req_def)

text \<open>
  Waiting for a receipt returns the receipt of the first tick at which the node has
  one, unless the context ends before: then its error. Failed lookups are retried, and
  nothing else ends the wait.
\<close>

theorem waitForReceipt_spec:
  "waitForReceipt hash es = Some r \<longleftrightarrow>
     (\<exists>pre ev post. es = map (\<lambda>e. Tick (Inl e)) pre @ ev # post \<and>
        ((\<exists>e. ev = CtxDone e \<and> r = Inl e) \<or> (\<exists>nr. ev = Tick (Inr nr) \<and> r = Inr (mk_receipt hash nr))))"
proof (induction hash es rule: waitForReceipt.induct)
  case (3 hash e es)
  have "(\<exists>pre ev post. Tick (Inl e) # es = map (\<lambda>e. Tick (Inl e)) pre @ ev # post \<and>
        ((\<exists>e. ev = CtxDone e \<and> r = Inl e) \<or> (\<exists>nr. ev = Tick (Inr nr) \<and> r = Inr (mk_receipt hash nr))))
    \<longleftrightarrow> (\<exists>pre ev post. es = map (\<lambda>e. Tick (Inl e)) pre @ ev # post \<and>
        ((\<exists>e. ev = CtxDone e \<and> r = Inl e) \<or> (\<exists>nr. ev = Tick (Inr nr) \<and> r = Inr (mk_receipt hash nr))))"
    (is "?L \<longleftrightarrow> ?R")
  proof
    assume ?L
    then obtain pre ev post where *: "Tick (Inl e) # es = map (\<lambda>e. Tick (Inl e)) pre @ ev # post"
        "(\<exists>e. ev = CtxDone e \<and> r = Inl e) \<or> (\<exists>nr. ev = Tick (Inr nr) \<and> r = Inr (mk_receipt hash nr))"
      by blast
    then obtain pre' where "pre = e # pre'" by (cases pre) auto
    with * show ?R by auto
  next
    assume ?R
    then obtain pre ev post where "es = map (\<lambda>e. Tick (Inl e)) pre @ ev # post"
        "(\<exists>e. ev = CtxDone e \<and> r = Inl e) \<or> (\<exists>nr. ev = Tick (Inr nr) \<and> r = Inr (mk_receipt hash nr))"
      by blast
    then show ?L by (intro exI [of _ "e # pre"] exI [of _ ev] exI [of _ post]) simp
  qed
  with 3 show ?case by simp
qed (auto simp: Cons_eq_append_conv Cons_eq_map_conv)

section \<open>Laws of sending\<close>

text \<open>
  Every outcome of a send, with all it changes. Either nothing is handed to the node
  and the registry is untouched; or one transaction is handed over and refused, and the
  sender's nonce is forgotten; or it is accepted, carries the reserved nonce, and is
  registered: the call then waits, and when it returns the entry has been removed.
\<close>

lemma SendTx_cases:
  "(\<exists>e nm. SendTx add remove env addr req c = (Some (Inl e), c\<lparr>cl_nonces := nm\<rparr>))
   \<or> (\<exists>tx e nm. SendTx add remove env addr req c =
        (Some (Inl (errorf ''ethkit: broadcast tx: '' e)),
         c\<lparr>cl_nonces := nm, cl_broadcast := cl_broadcast c @ [tx]\<rparr>)
        \<and> se_send env = Some e \<and> map_of nm addr = None)
   \<or> (\<exists>tx hash nonce gas info nm. se_send env = None \<and> se_sign env tx = Inr hash
        \<and> tx = build_tx (cl_chainID c) nonce gas info req \<and> map_of nm addr = Some (nonce + 1)
        \<and> SendTx add remove env addr req c =
          (let p = add (pending_of hash addr req tx (se_now env)) (cl_pending c)
           in (waitForReceipt hash (se_wait env),
               c\<lparr>cl_nonces := nm, cl_broadcast := cl_broadcast c @ [tx], cl_pending :=
                 (case waitForReceipt hash (se_wait env) of None \<Rightarrow> p
                  | Some _ \<Rightarrow> remove (fst (se_removed env)) (snd (se_removed env)) hash p)\<rparr>)))"
  (is "?A \<or> ?B \<or> ?C")
proof (cases "next_nonce (se_PendingNonceAt env) addr (cl_nonces c)")
  case (Pair r nm)
  show ?thesis
  proof (cases r)
    case (Inl e)
    have ?A using Pair by (simp add: SendTx_def Inl) blast
    then show ?thesis ..
  next
    case (Inr nonce)
    show ?thesis
    proof (cases "GasEstimateWithFees (se_fees env) req addr")
      case (Inl e)
      have ?A using Pair \<open>r = Inr nonce\<close> by (simp add: SendTx_def Inl) blast
      then show ?thesis ..
    next
      case G: (Inr q)
      obtain gas info cost where q: "q = (gas, info, cost)" by (cases q)
      let ?tx = "build_tx (cl_chainID c) nonce gas info req"
      show ?thesis
      proof (cases "se_sign env ?tx")
        case (Inl e)
        have ?A using Pair Inr G by (simp add: SendTx_def Inl q) blast
        then show ?thesis ..
      next
        case S: (Inr hash)
        show ?thesis
        proof (cases "se_send env")
          case (Some e)
          have ?B
            using Pair Inr G S Some
            by (intro exI [of _ ?tx] exI [of _ e] exI [of _ "reset_nonce addr nm"])
              (simp add: SendTx_def q reset_nonce_def gomap_simps)
          then show ?thesis by blast
        next
          case None
          have "map_of nm addr = Some (nonce + 1)"
            using next_nonce_Inr [OF Pair [unfolded Inr]] by simp
          then have ?C
            using Pair Inr G S None
            by (intro exI [of _ ?tx] exI [of _ hash] exI [of _ nonce] exI [of _ gas] exI [of _ info] exI [of _ nm])
              (simp add: SendTx_def q Let_def split: option.splits)
          then show ?thesis by blast
        qed
      qed
    qed
  qed
qed

lemma SendTx_success:
  assumes "SendTx add remove env addr req c = (Some (Inr r), c')"
  shows "\<exists>tx. cl_broadcast c' = cl_broadcast c @ [tx] \<and> dt_To tx = Some (rq_To req)
    \<and> dt_Value tx = Wei (rq_Value req) \<and> dt_Data tx = rq_Data req"
  using SendTx_cases [of add remove env addr req c] unfolding assms
  by (auto simp: Let_def build_tx_def)

text \<open>
  A send that fails before the broadcast (here: the gas estimate fails, as it does for
  a call that would revert) keeps the nonce it reserved. The next send of that wallet goes
  out with the following nonce, one above the number the node is waiting for.
\<close>

theorem failed_estimate_leaves_gap:
  assumes "map_of (cl_nonces c) addr = None" "se_PendingNonceAt env addr = Inr n"
    and "GasEstimateWithFees (se_fees env) req addr = Inl e"
    and "GasEstimateWithFees (se_fees env') req' addr = Inr q"
    and "\<And>tx. se_sign env' tx = Inr (hash tx)"
    and "SendTx add remove env addr req c = (r, c')"
  shows "r = Some (Inl e) \<and> cl_broadcast c' = cl_broadcast c
    \<and> (\<exists>tx. cl_broadcast (snd (SendTx add remove env' addr req' c')) = cl_broadcast c @ [tx]
          \<and> dt_Nonce tx = n + 1)"
proof -
  obtain nm where nm: "next_nonce (se_PendingNonceAt env) addr (cl_nonces c) = (Inr n, nm)"
      "map_of nm addr = Some (n + 1)"
    using next_nonce_fresh [where ans = "se_PendingNonceAt env", OF assms(1,2)] by (simp add: gomap_simps)
  have c': "r = Some (Inl e)" "c' = c\<lparr>cl_nonces := nm\<rparr>"
    using assms(3,6) nm(1) by (simp_all add: SendTx_def)
  obtain gas info cost where q: "q = (gas, info, cost)" by (cases q)
  let ?tx = "build_tx (cl_chainID c) (n + 1) gas info req'"
  have "cl_broadcast (snd (SendTx add remove env' addr req' c')) = cl_broadcast c @ [?tx]"
    using assms(4,5) nm(2)
    by (simp add: c'(2) SendTx_def q next_nonce_known Let_def split: option.splits)
  with c' show ?thesis by (auto simp: build_tx_def)
qed

definition sample_env :: send_env where
  "sample_env = \<lparr>se_PendingNonceAt = (\<lambda>_. Inr 7), se_fees = sample_fees,
     se_sign = (\<lambda>tx. Inr ''0xab''), se_send = None, se_now = 10, se_removed = (20, 20), se_wait = []\<rparr>"

definition sample_client :: "pending_tracker client" where
  "sample_client = \<lparr>cl_chainID = 1, cl_nonces = [], cl_pending = newPendingTracker, cl_broadcast = []\<rparr>"

lemma failed_estimate_leaves_gap_witness:
  "\<exists>e tx. fst (SendTx Add_pt Remove_pt (sample_env\<lparr>se_fees := sample_fees\<lparr>fa_gas := \<lambda>_ _. Inl (Sentinel ''revert'')\<rparr>\<rparr>)
        1 sample_req sample_client) = Some (Inl e)
     \<and> cl_broadcast (snd (SendTx Add_pt Remove_pt sample_env 1 sample_req
         (snd (SendTx Add_pt Remove_pt (sample_env\<lparr>se_fees := sample_fees\<lparr>fa_gas := \<lambda>_ _. Inl (Sentinel ''revert'')\<rparr>\<rparr>)
           1 sample_req sample_client)))) = [tx] \<and> dt_Nonce tx = 8"
proof -
  let ?env = "sample_env\<lparr>se_fees := sample_fees\<lparr>fa_gas := \<lambda>_ _. Inl (Sentinel ''revert'')\<rparr>\<rparr>"
  obtain q where q: "GasEstimateWithFees (se_fees sample_env) sample_req 1 = Inr q"
    by (simp add: GasEstimateWithFees_def GasFees_def GasEstimate_def sample_env_def sample_fees_def sample_req_def)
  obtain e where e: "GasEstimateWithFees (se_fees ?env) sample_req 1 = Inl e"
    by (simp add: GasEstimateWithFees_def GasFees_def GasEstimate_def sample_env_def sample_fees_def sample_req_def)
  have s: "map_of (cl_nonces sample_client) 1 = None" "se_PendingNonceAt ?env 1 = Inr 7"
      "\<And>tx. se_sign sample_env tx = Inr ''0xab''"
    by (simp_all add: sample_client_def sample_env_def)
  from failed_estimate_leaves_gap [OF s(1,2) e q s(3) prod.collapse [symmetric]] show ?thesis
    by (auto simp: sample_client_def)
qed

section \<open>Laws of replacing\<close>

text \<open>
  C6. A replacement reaches the node only for a transaction that is still pending, with its
  nonce and its fees raised by a fifth (tip) and a tenth (cap). A speed-up keeps the
  destination, value, data and gas; a cancel sends nothing to the wallet itself with
  21000 gas. It is registered under its own hash; when the original is mined or unknown,
  the original is removed from the registry instead.
\<close>

theorem replaceTx_spec:
  "(fst (replaceTx add remove env wallet original cancel c) = Inr newHash \<longleftrightarrow>
      (\<exists>tx. rp_lookup env = Inr (tx, True) \<and> rp_send env = None
         \<and> rp_sign env (replacement_tx (cl_chainID c) wallet cancel tx) = Inr newHash))
   \<and> (rp_lookup env = Inr (tx, True) \<and> rp_send env = None
         \<and> rp_sign env (replacement_tx (cl_chainID c) wallet cancel tx) = Inr newHash \<longrightarrow>
      (\<exists>new. snd (replaceTx add remove env wallet original cancel c) =
          c\<lparr>cl_broadcast := cl_broadcast c @ [new],
            cl_pending := add (replacement_pending newHash wallet cancel new (rp_now env)) (cl_pending c)\<rparr>
        \<and> dt_Nonce new = dt_Nonce tx \<and> dt_GasTipCap new = dt_GasTipCap tx * 120 div 100
        \<and> dt_GasFeeCap new = dt_GasFeeCap tx * 110 div 100
        \<and> (if cancel then dt_To new = Some wallet \<and> dt_Value new = 0 \<and> dt_Data new = [] \<and> dt_Gas new = 21000
           else dt_To new = dt_To tx \<and> dt_Value new = dt_Value tx \<and> dt_Data new = dt_Data tx
             \<and> dt_Gas new = dt_Gas tx)))
   \<and> ((\<forall>tx. rp_lookup env \<noteq> Inr (tx, True)) \<longrightarrow>
      snd (replaceTx add remove env wallet original cancel c) =
        c\<lparr>cl_pending := remove (fst (rp_removed env)) (snd (rp_removed env)) original (cl_pending c)\<rparr>)"
  (is "?A \<and> ?B \<and> ?C")
proof (intro conjI)
  show ?A
    by (auto simp: replaceTx_def Let_def split: sum.splits option.splits if_splits)
  show ?B
    by (auto simp: replaceTx_def Let_def replacement_tx_def bumpedTip_def bumpedCap_def)
  show ?C
    by (auto simp: replaceTx_def Let_def split: sum.splits if_splits)
qed

definition sample_tx :: dynamic_fee_tx where
  "sample_tx = \<lparr>dt_ChainID = 1, dt_Nonce = 7, dt_GasTipCap = 100, dt_GasFeeCap = 1000, dt_Gas = 50000,
     dt_To = Some 2, dt_Value = 5, dt_Data = [1]\<rparr>"

definition sample_replace :: replace_env where
  "sample_replace = \<lparr>rp_lookup = Inr (sample_tx, True), rp_sign = (\<lambda>_. Inr ''0xcd''), rp_send = None,
     rp_now = 10, rp_removed = (10, 10)\<rparr>"

lemma replaceTx_spec_witness:
  "\<exists>new. cl_broadcast (snd (replaceTx Add_pt Remove_pt sample_replace 1 ''0xab'' True sample_client)) = [new]
     \<and> dt_Nonce new = 7 \<and> dt_GasTipCap new = 120 \<and> dt_GasFeeCap new = 1100 \<and> dt_To new = Some 1
     \<and> dt_Value new = 0"
  using conjunct1 [OF conjunct2 [OF replaceTx_spec [where env = sample_replace and tx = sample_tx
      and newHash = "''0xcd''" and wallet = 1 and cancel = True and c = sample_client
      and add = Add_pt and remove = Remove_pt and original = "''0xab''"]]]
  by (auto simp: sample_replace_def sample_tx_def sample_client_def)

text \<open>
  A replacement raises the cap by the tenth a node asks for, rounded down, and the tip
  by at least that. But the tip grows faster than the cap: when both were the same number
  \<open>x\<close> of at least 5 wei, the new tip is above the new cap and the transaction is
  invalid; a tip below 5 wei is not raised at all.
\<close>

theorem replacement_fees:
  assumes "0 \<le> dt_GasTipCap tx" "dt_GasTipCap tx \<le> dt_GasFeeCap tx"
  shows "dt_GasTipCap tx * 110 div 100 \<le> dt_GasTipCap (replacement_tx chainID wallet cancel tx)
    \<and> dt_GasFeeCap (replacement_tx chainID wallet cancel tx) = dt_GasFeeCap tx * 110 div 100
    \<and> (12 * dt_GasTipCap tx \<le> 11 * dt_GasFeeCap tx \<longrightarrow>
        dt_GasTipCap (replacement_tx chainID wallet cancel tx)
          \<le> dt_GasFeeCap (replacement_tx chainID wallet cancel tx))
    \<and> (dt_GasTipCap tx = dt_GasFeeCap tx \<and> 5 \<le> dt_GasTipCap tx \<longrightarrow>
        dt_GasFeeCap (replacement_tx chainID wallet cancel tx)
          < dt_GasTipCap (replacement_tx chainID wallet cancel tx))
    \<and> (dt_GasTipCap tx < 5 \<longrightarrow> dt_GasTipCap (replacement_tx chainID wallet cancel tx) = dt_GasTipCap tx)"
proof -
  have f: "dt_GasTipCap (replacement_tx chainID wallet cancel tx) = dt_GasTipCap tx * 120 div 100"
    "dt_GasFeeCap (replacement_tx chainID wallet cancel tx) = dt_GasFeeCap tx * 110 div 100"
    by (simp_all add: replacement_tx_def bumpedTip_def bumpedCap_def Let_def)
  have tip: "x * 120 div 100 = x + x div 5" for x :: int
    using div_mult_mult1 [of 20 "6 * x" 5] div_mult_self1 [of 5 x x] by (simp add: algebra_simps)
  have cap: "x * 110 div 100 = x + x div 10" for x :: int
    using div_mult_mult1 [of 10 "11 * x" 10] div_mult_self1 [of 10 x x] by (simp add: algebra_simps)
  have "x * 110 div 100 < x * 120 div 100" if "5 \<le> x" for x :: int
  proof -
    have "x div 10 = x div 5 div 2" using zdiv_zmult2_eq [of 2 x 5] by simp
    moreover have "1 \<le> x div 5" using zdiv_mono1 [OF that, of 5] by simp
    ultimately show ?thesis unfolding tip cap by simp
  qed
  moreover have "x * 120 div 100 = x" if "0 \<le> x" "x < 5" for x :: int
    using that unfolding tip by (simp add: div_pos_pos_trivial)
  moreover have "x * 120 div 100 \<le> y * 110 div 100" if "12 * x \<le> 11 * y" for x y :: int
    using that by (intro zdiv_mono1) auto
  moreover have "dt_GasTipCap tx * 110 div 100 \<le> dt_GasTipCap tx * 120 div 100"
    using assms(1) by (intro zdiv_mono1) auto
  ultimately show ?thesis unfolding f using assms by simp
qed

lemma replacement_fees_witness:
  "dt_GasFeeCap (replacement_tx 1 1 False (sample_tx\<lparr>dt_GasFeeCap := 100\<rparr>))
     < dt_GasTipCap (replacement_tx 1 1 False (sample_tx\<lparr>dt_GasFeeCap := 100\<rparr>))"
  using replacement_fees [of "sample_tx\<lparr>dt_GasFeeCap := 100\<rparr>" 1 1 False] by (simp add: sample_tx_def)

end
