(* ===== verification/Contracts.thy ===== *)
theory Contracts
  imports Tx
begin

text \<open>
  pkg/ethkit/balance.go, erc20.go and subscribe.go: balances, the ERC-20 calls and the
  balance watcher. The ABI encoding of go-ethereum is the parameter \<open>pack\<close> on the
  calls the wallet makes; \<open>call\<close> answers a contract call (after the retries) and
  \<open>unpack\<close> is the ABI decoding of a result.
\<close>

datatype abi_call =
    BalanceOf address
  | Transfer address int
  | Approve address int
  | AllowanceOf address address
  | NameOf
  | SymbolOf
  | DecimalsOf
  | QuoteExactInputSingle address address int int int
  | ExactInputSingle address address int address int int int
  | UnwrapWETH9 int address
  | Multicall "u8 list list"

type_synonym packer = "abi_call \<Rightarrow> err + u8 list"
type_synonym caller = "address \<Rightarrow> u8 list \<Rightarrow> err + u8 list"

definition mapE :: "('e \<Rightarrow> 'f) \<Rightarrow> 'e + 'a \<Rightarrow> 'f + 'a" where
  "mapE f r = (case r of Inl e \<Rightarrow> Inl (f e) | Inr v \<Rightarrow> Inr v)"

lemma mapE_simps [simp]: "mapE f (Inl e) = Inl (f e)" "mapE f (Inr v) = Inr v"
  by (simp_all add: mapE_def)

lemma mapE_Inr_iff [simp]: "mapE f r = Inr v \<longleftrightarrow> r = Inr v"
  by (cases r) simp_all

section \<open>Balances\<close>

definition bytes_to_nat :: "u8 list \<Rightarrow> nat" where
  "bytes_to_nat bs = foldl (\<lambda>acc b. acc * 256 + unat b) 0 bs"

definition decodeUint256 :: "u8 list \<Rightarrow> err + int" where
  "decodeUint256 data =
     (if length data < 32 then Inl (WrapError (''response too short: '' @ show_nat (length data) @ '' bytes'') [])
      else Inr (int (bytes_to_nat (take 32 data))))"

text \<open>\<open>balanceAt\<close> is the node's answer for the native balance (\<open>None\<close> a nil number).\<close>

definition ETHBalance :: "(address \<Rightarrow> err + int option) \<Rightarrow> address \<Rightarrow> err + amount" where
  "ETHBalance balanceAt addr =
     bindE (mapE (errorf ''ethkit: eth balance: '') (balanceAt addr)) (\<lambda>bal. Inr (NewAmountFromWei bal))"

definition TokenBalance ::
  "packer \<Rightarrow> caller \<Rightarrow> (address \<Rightarrow> err + int option) \<Rightarrow> address \<Rightarrow> token \<Rightarrow> err + amount" where
  "TokenBalance pack call balanceAt addr token =
     (if IsNative token then ETHBalance balanceAt addr
      else bindE (pack (BalanceOf addr)) (\<lambda>data.
        bindE (mapE (errorf (''ethkit: token balance '' @ tk_Symbol token @ '': '')) (call (tk_Address token) data)) (\<lambda>result.
        bindE (mapE (errorf ''ethkit: decode token balance: '') (decodeUint256 result)) (\<lambda>bal.
        Inr (NewAmountFromWei (Some bal))))))"

text \<open>The map built so far, with the error that stopped the loop.\<close>

fun MultiTokenBalance_loop ::
  "(token \<Rightarrow> err + amount) \<Rightarrow> token list \<Rightarrow> (string, amount) gomap \<Rightarrow> (string, amount) gomap \<times> err option" where
  "MultiTokenBalance_loop balance [] result = (result, None)"
| "MultiTokenBalance_loop balance (t # ts) result =
     (case balance t of
        Inl e \<Rightarrow> (result, Some e)
      | Inr bal \<Rightarrow> MultiTokenBalance_loop balance ts (AList.update (tk_Symbol t) bal result))"

definition MultiTokenBalance ::
  "packer \<Rightarrow> caller \<Rightarrow> (address \<Rightarrow> err + int option) \<Rightarrow> address \<Rightarrow> token list \<Rightarrow> (string, amount) gomap \<times> err option" where
  "MultiTokenBalance pack call balanceAt addr tokens =
     MultiTokenBalance_loop (TokenBalance pack call balanceAt addr) tokens []"

section \<open>ERC-20\<close>

definition Allowance :: "packer \<Rightarrow> caller \<Rightarrow> token \<Rightarrow> address \<Rightarrow> address \<Rightarrow> err + amount" where
  "Allowance pack call token owner spender =
     bindE (mapE (errorf ''ethkit: allowance: '')
       (bindE (mapE (errorf ''erc20 pack allowance: '') (pack (AllowanceOf owner spender)))
          (call (tk_Address token)))) (\<lambda>result.
     bindE (decodeUint256 result) (\<lambda>val. Inr (NewAmountFromWei (Some val))))"

definition PackERC20Transfer :: "packer \<Rightarrow> address \<Rightarrow> amount \<Rightarrow> err + u8 list" where
  "PackERC20Transfer pack to amount =
     mapE (errorf ''ethkit: pack erc20 transfer: '') (pack (Transfer to (Wei amount)))"

text \<open>\<open>unpackName\<close>, \<open>unpackSymbol\<close> and \<open>unpackDecimals\<close> decode the three results.\<close>

definition TokenMetadata ::
  "packer \<Rightarrow> caller \<Rightarrow> (u8 list \<Rightarrow> err + string) \<Rightarrow> (u8 list \<Rightarrow> err + string) \<Rightarrow> (u8 list \<Rightarrow> err + u8) \<Rightarrow>
   address \<Rightarrow> err + token" where
  "TokenMetadata pack call unpackName unpackSymbol unpackDecimals addr =
     (let callRaw = (\<lambda>m. call addr (case pack m of Inl e \<Rightarrow> [] | Inr d \<Rightarrow> d)) in
      bindE (mapE (errorf ''ethkit: token name: '') (callRaw NameOf)) (\<lambda>nameRaw.
      bindE (mapE (errorf ''ethkit: token symbol: '') (callRaw SymbolOf)) (\<lambda>symbolRaw.
      bindE (mapE (errorf ''ethkit: token decimals: '') (callRaw DecimalsOf)) (\<lambda>decimalsRaw.
      bindE (mapE (errorf ''ethkit: unpack name: '') (unpackName nameRaw)) (\<lambda>name.
      bindE (mapE (errorf ''ethkit: unpack symbol: '') (unpackSymbol symbolRaw)) (\<lambda>symbol.
      bindE (mapE (errorf ''ethkit: unpack decimals: '') (unpackDecimals decimalsRaw)) (\<lambda>decimals.
      Inr \<lparr>tk_Address = addr, tk_Symbol = symbol, tk_Name = name, tk_Decimals = decimals\<rparr>)))))))"

text \<open>
  The transactions. The arguments \<open>add\<close> and \<open>remove\<close> are the registry's, \<open>env\<close> the
  node's and the wallet's part of the send.
\<close>

definition transfer_request :: "token \<Rightarrow> u8 list \<Rightarrow> amount option \<Rightarrow> amount option \<Rightarrow> tx_request" where
  "transfer_request token data gasTip gasCap =
     \<lparr>rq_To = tk_Address token, rq_Value = Amount None, rq_Data = data, rq_GasLimit = 0,
      rq_GasTip = gasTip, rq_GasCap = gasCap, rq_Kind = ''send''\<rparr>"

definition approve_request :: "token \<Rightarrow> u8 list \<Rightarrow> tx_request" where
  "approve_request token data =
     \<lparr>rq_To = tk_Address token, rq_Value = Amount None, rq_Data = data, rq_GasLimit = 0,
      rq_GasTip = None, rq_GasCap = None, rq_Kind = ''approve''\<rparr>"

definition TransferTokenWithGas ::
  "(pending_tx \<Rightarrow> 's \<Rightarrow> 's) \<Rightarrow> (time \<Rightarrow> time \<Rightarrow> string \<Rightarrow> 's \<Rightarrow> 's) \<Rightarrow> packer \<Rightarrow> send_env \<Rightarrow> address \<Rightarrow>
   token \<Rightarrow> address \<Rightarrow> amount \<Rightarrow> amount option \<Rightarrow> amount option \<Rightarrow> 's client \<Rightarrow>
   (err + tx_receipt) option \<times> 's client" where
  "TransferTokenWithGas add remove pack env wallet token to amount gasTip gasCap c =
     (case pack (Transfer to (Wei amount)) of
        Inl e \<Rightarrow> (Some (Inl (errorf ''ethkit: pack transfer: '' e)), c)
      | Inr data \<Rightarrow> SendTx add remove env wallet (transfer_request token data gasTip gasCap) c)"

definition TransferToken ::
  "(pending_tx \<Rightarrow> 's \<Rightarrow> 's) \<Rightarrow> (time \<Rightarrow> time \<Rightarrow> string \<Rightarrow> 's \<Rightarrow> 's) \<Rightarrow> packer \<Rightarrow> send_env \<Rightarrow> address \<Rightarrow>
   token \<Rightarrow> address \<Rightarrow> amount \<Rightarrow> 's client \<Rightarrow> (err + tx_receipt) option \<times> 's client" where
  "TransferToken add remove pack env wallet token to amount c =
     TransferTokenWithGas add remove pack env wallet token to amount None None c"

definition ApproveToken ::
  "(pending_tx \<Rightarrow> 's \<Rightarrow> 's) \<Rightarrow> (time \<Rightarrow> time \<Rightarrow> string \<Rightarrow> 's \<Rightarrow> 's) \<Rightarrow> packer \<Rightarrow> send_env \<Rightarrow> address \<Rightarrow>
   token \<Rightarrow> address \<Rightarrow> amount \<Rightarrow> 's client \<Rightarrow> (err + tx_receipt) option \<times> 's client" where
  "ApproveToken add remove pack env wallet token spender amount c =
     (case pack (Approve spender (Wei amount)) of
        Inl e \<Rightarrow> (Some (Inl (errorf ''ethkit: pack approve: '' e)), c)
      | Inr data \<Rightarrow> SendTx add remove env wallet (approve_request token data) c)"

section \<open>The balance watcher\<close>

text \<open>
  One poll per tick, with its result; the state is the last balance seen, \<open>None\<close> before the
  baseline. The updates are sent in order.
\<close>

definition watch_poll :: "address \<Rightarrow> err + amount \<Rightarrow> amount option \<Rightarrow> amount option \<times> balance_update list" where
  "watch_poll addr poll prev =
     (case poll of
        Inl e \<Rightarrow> (prev, [])
      | Inr bal \<Rightarrow> (case prev of
            None \<Rightarrow> (Some bal, [])
          | Some p \<Rightarrow> if Equal bal p then (Some p, [])
              else (Some bal, [\<lparr>bu_Address = addr, bu_Token = None, bu_Balance = bal, bu_Delta = Sub bal p\<rparr>])))"

fun WatchBalance :: "address \<Rightarrow> (err + amount) list \<Rightarrow> amount option \<Rightarrow> amount option \<times> balance_update list" where
  "WatchBalance addr [] prev = (prev, [])"
| "WatchBalance addr (p # ps) prev =
     (let (prev', us) = watch_poll addr p prev; (prev'', us') = WatchBalance addr ps prev' in (prev'', us @ us'))"

section \<open>Laws\<close>

lemma watch_poll_law:
  "watch_poll addr poll (Some p) = (q, us) \<Longrightarrow>
   \<exists>b. q = Some b \<and> safe b = safe p + sum_list (map (\<lambda>u. safe (bu_Delta u)) us)
     \<and> (\<forall>u \<in> set us. safe (bu_Delta u) \<noteq> 0 \<and> bu_Address u = addr)"
  by (auto simp: watch_poll_def amount_cmp split: sum.splits if_splits)

lemma WatchBalance_sum:
  "WatchBalance addr ps (Some p) = (q, us) \<Longrightarrow>
   \<exists>b. q = Some b \<and> safe b = safe p + sum_list (map (\<lambda>u. safe (bu_Delta u)) us)
     \<and> (\<forall>u \<in> set us. safe (bu_Delta u) \<noteq> 0 \<and> bu_Address u = addr)"
proof (induction ps arbitrary: p q us)
  case (Cons x ps)
  obtain q1 us1 where 1: "watch_poll addr x (Some p) = (q1, us1)" by force
  then obtain b1 where b1: "q1 = Some b1" "safe b1 = safe p + sum_list (map (\<lambda>u. safe (bu_Delta u)) us1)"
    "\<forall>u \<in> set us1. safe (bu_Delta u) \<noteq> 0 \<and> bu_Address u = addr"
    using watch_poll_law by blast
  obtain q2 us2 where 2: "WatchBalance addr ps (Some b1) = (q2, us2)" by force
  from Cons.IH [OF 2] b1 show ?case using Cons.prems 1 2 by auto
qed simp

text \<open>
  The balance watcher neither loses nor invents a change. After its silent baseline
  \<open>p\<close>, the balance it holds is the baseline plus the deltas of the updates it has sent,
  whatever polls failed in between, and it sends no update without a change.
\<close>

theorem WatchBalance_conserves:
  assumes "WatchBalance addr (Inr p # polls) None = (q, us)"
  shows "\<exists>b. q = Some b \<and> Wei b = Wei p + sum_list (map (\<lambda>u. Wei (bu_Delta u)) us)
    \<and> (\<forall>u \<in> set us. Wei (bu_Delta u) \<noteq> 0 \<and> bu_Address u = addr)"
proof -
  have "WatchBalance addr polls (Some p) = (q, us)"
    using assms by (simp add: watch_poll_def split_def prod_eq_iff)
  from WatchBalance_sum [OF this] show ?thesis by (simp add: Wei_safe o_def)
qed

lemma WatchBalance_conserves_witness:
  "\<exists>b us. WatchBalance 1 [Inr (Amount (Some 5)), Inl (Sentinel ''x''), Inr (Amount (Some 9))] None = (Some b, us)
     \<and> Wei b = 5 + sum_list (map (\<lambda>u. Wei (bu_Delta u)) us)"
proof -
  obtain l us where w: "WatchBalance 1 [Inr (Amount (Some 5)), Inl (Sentinel ''x''), Inr (Amount (Some 9))] None = (l, us)"
    by force
  from WatchBalance_conserves [OF this] w show ?thesis by (auto simp: Wei_safe)
qed

end
