(* ===== verification/Swaps.thy ===== *)
theory Swaps
  imports Contracts
begin

text \<open>
  pkg/ethkit/swap.go and approvals.go with the usecases on top of them
  (internal/usecase/swap, internal/usecase/approval): quoting and executing Uniswap V3
  swaps, the allowance guard, and listing and revoking approvals.
\<close>

section \<open>Quotes\<close>

definition resolveSwapAddresses :: "network \<Rightarrow> token \<Rightarrow> token \<Rightarrow> err + address \<times> address" where
  "resolveSwapAddresses nw tokenIn tokenOut =
     (let inAddr = (if IsNative tokenIn then nw_UniswapWrappedETH nw else tk_Address tokenIn);
          outAddr = (if IsNative tokenOut then nw_UniswapWrappedETH nw else tk_Address tokenOut)
      in if inAddr = outAddr then Inl (Sentinel ''ethkit: tokenIn and tokenOut are the same'')
         else Inr (inAddr, outAddr))"

text \<open>\<open>unpackQuote\<close> decodes the output amount and the gas estimate (nil as \<open>None\<close>).\<close>

definition QuoteSwap ::
  "packer \<Rightarrow> caller \<Rightarrow> (u8 list \<Rightarrow> err + int option \<times> int option) \<Rightarrow> network \<Rightarrow> token \<Rightarrow> token \<Rightarrow> amount \<Rightarrow>
   pool_fee \<Rightarrow> err + swap_quote" where
  "QuoteSwap pack call unpackQuote nw tokenIn tokenOut amountIn fee0 =
     (if nw_UniswapQuoterV2 nw = ZeroAddress then Inl ErrNoNetwork
      else let fee = (if fee0 = 0 then PoolFee005 else fee0) in
        bindE (resolveSwapAddresses nw tokenIn tokenOut) (\<lambda>(inAddr, outAddr).
        bindE (mapE (errorf ''ethkit: pack quote: '')
          (pack (QuoteExactInputSingle inAddr outAddr (Wei amountIn) (uint fee) 0))) (\<lambda>data.
        bindE (mapE (errorf ''ethkit: quote swap call: '') (call (nw_UniswapQuoterV2 nw) data)) (\<lambda>result.
        bindE (mapE (errorf ''ethkit: unpack quote: '') (unpackQuote result)) (\<lambda>(out, gas).
        Inr \<lparr>sq_TokenIn = tokenIn, sq_TokenOut = tokenOut, sq_AmountIn = amountIn,
             sq_AmountOut = NewAmountFromWei out, sq_Fee = fee,
             sq_GasEstimate = (case gas of None \<Rightarrow> 0 | Some g \<Rightarrow> word_of_int g)\<rparr>)))))"

text \<open>\<open>10000 - slippageBps\<close> is a uint64, then converted to an int64.\<close>

definition SlippageAmount :: "amount \<Rightarrow> u64 \<Rightarrow> amount" where
  "SlippageAmount amount slippageBps =
     NewAmountFromWei (Some (Wei amount * sint (10000 - slippageBps) div 10000))"

section \<open>Swapping\<close>

definition maxUint256 :: int where "maxUint256 = 2 ^ 256 - 1"

text \<open>
  The outside of one swap: the ABI, contract calls, and the node's and the wallet's part of
  the approval and of the swap transaction.
\<close>

record swap_env =
  sw_pack :: packer
  sw_call :: caller
  sw_approve :: send_env
  sw_swap :: send_env

text \<open>
  The allowance guard: \<open>None\<close> while the approval's receipt is awaited, \<open>Some None\<close> when
  the spender can pull the amount.
\<close>

definition ensureAllowance ::
  "(pending_tx \<Rightarrow> 's \<Rightarrow> 's) \<Rightarrow> (time \<Rightarrow> time \<Rightarrow> string \<Rightarrow> 's \<Rightarrow> 's) \<Rightarrow> swap_env \<Rightarrow> address \<Rightarrow> token \<Rightarrow>
   address \<Rightarrow> amount \<Rightarrow> 's client \<Rightarrow> err option option \<times> 's client" where
  "ensureAllowance add remove env wallet token spender amount c =
     (case Allowance (sw_pack env) (sw_call env) token wallet spender of
        Inl e \<Rightarrow> (Some (Some (errorf ''ethkit: check allowance: '' e)), c)
      | Inr current \<Rightarrow>
        if Wei current \<ge> Wei amount then (Some None, c)
        else (case ApproveToken add remove (sw_pack env) (sw_approve env) wallet token spender
                     (NewAmountFromWei (Some maxUint256)) c of
            (None, c') \<Rightarrow> (None, c')
          | (Some (Inl e), c') \<Rightarrow> (Some (Some (errorf ''ethkit: approve token: '' e)), c')
          | (Some (Inr receipt), c') \<Rightarrow>
              if rc_Status receipt \<noteq> TxStatusSuccess
              then (Some (Some (WrapError (''ethkit: approve reverted (tx '' @ rc_Hash receipt @ '')'') [])), c')
              else (Some None, c')))"

text \<open>The call data: for a native output the router keeps the WETH and unwraps it for the user.\<close>

definition swap_data :: "packer \<Rightarrow> address \<Rightarrow> address \<Rightarrow> swap_request \<Rightarrow> address \<Rightarrow> address \<Rightarrow> pool_fee \<Rightarrow> err + u8 list" where
  "swap_data pack router wallet req inAddr outAddr fee =
     (let wantsNativeOut = IsNative (sr_TokenOut req);
          swapRecipient = (if wantsNativeOut then router else wallet)
      in bindE (mapE (errorf ''ethkit: pack swap: '')
           (pack (ExactInputSingle inAddr outAddr (uint fee) swapRecipient (Wei (sr_AmountIn req))
             (Wei (sr_MinAmountOut req)) 0))) (\<lambda>swapData.
         if wantsNativeOut
         then bindE (mapE (errorf ''ethkit: pack unwrap: '') (pack (UnwrapWETH9 (Wei (sr_MinAmountOut req)) wallet)))
           (\<lambda>unwrapData. mapE (errorf ''ethkit: pack multicall: '') (pack (Multicall [swapData, unwrapData])))
         else Inr swapData))"

definition swap_tx_request :: "address \<Rightarrow> swap_request \<Rightarrow> u8 list \<Rightarrow> tx_request" where
  "swap_tx_request router req data =
     \<lparr>rq_To = router, rq_Value = (if IsNative (sr_TokenIn req) then sr_AmountIn req else ZeroAmount),
      rq_Data = data, rq_GasLimit = 0, rq_GasTip = sr_GasTip req, rq_GasCap = sr_GasCap req,
      rq_Kind = ''swap''\<rparr>"

definition Swap ::
  "(pending_tx \<Rightarrow> 's \<Rightarrow> 's) \<Rightarrow> (time \<Rightarrow> time \<Rightarrow> string \<Rightarrow> 's \<Rightarrow> 's) \<Rightarrow> swap_env \<Rightarrow> network \<Rightarrow> address \<Rightarrow>
   swap_request \<Rightarrow> 's client \<Rightarrow> (err + tx_receipt) option \<times> 's client" where
  "Swap add remove env nw wallet req c =
     (let router = nw_UniswapSwapRouter02 nw;
          fee = (if sr_Fee req = 0 then PoolFee005 else sr_Fee req) in
      if router = ZeroAddress then (Some (Inl ErrNoNetwork), c)
      else case resolveSwapAddresses nw (sr_TokenIn req) (sr_TokenOut req) of
        Inl e \<Rightarrow> (Some (Inl e), c)
      | Inr (inAddr, outAddr) \<Rightarrow>
        (case (if \<not> IsNative (sr_TokenIn req)
               then ensureAllowance add remove env wallet (sr_TokenIn req) router (sr_AmountIn req) c
               else (Some None, c)) of
           (None, c1) \<Rightarrow> (None, c1)
         | (Some (Some e), c1) \<Rightarrow> (Some (Inl e), c1)
         | (Some None, c1) \<Rightarrow>
           (case swap_data (sw_pack env) router wallet req inAddr outAddr fee of
              Inl e \<Rightarrow> (Some (Inl e), c1)
            | Inr data \<Rightarrow> SendTx add remove (sw_swap env) wallet (swap_tx_request router req data) c1)))"

section \<open>Approvals\<close>

record token_approval =
  ta_Token :: token
  ta_Spender :: address
  ta_Amount :: amount

definition KnownDEXSpenders :: "address list" where
  "KnownDEXSpenders = map HexToAddress
     [''0x68b3465833fb72A70ecDF485E0e4C7bD8665Fc45'', ''0x7a250d5630B4cF539739dF2C5dAcb4c659F2488D'',
      ''0x3fC91A3afd70395Cd496C647d5a6CC9D4B2b7FAD'', ''0x1111111254EEB25477B68fb85Ed929f73A960582'',
      ''0xDef1C0ded9bec7F1a1670819833240f027b25EfF'', ''0x9008D19f58AAbD9eD0D60971565AA8510560ab41'',
      ''0xDEF171Fe48CF0115B1d80b88dc8eAB59176FEe57'']"

text \<open>
  The pairs are queried in parallel and collected in the order of completion \<open>order\<close>, an
  arrangement of the index pairs of \<open>tokens\<close> and \<open>spenders\<close>.
\<close>

definition index_pairs :: "'a list \<Rightarrow> 'b list \<Rightarrow> (nat \<times> nat) list" where
  "index_pairs xs ys = List.product [0..<length xs] [0..<length ys]"

fun collect_approvals ::
  "(token \<Rightarrow> address \<Rightarrow> err + amount) \<Rightarrow> token list \<Rightarrow> address list \<Rightarrow> (nat \<times> nat) list \<Rightarrow> token_approval list" where
  "collect_approvals allowance tokens spenders [] = []"
| "collect_approvals allowance tokens spenders ((i, j) # rest) =
     (case allowance (tokens ! i) (spenders ! j) of
        Inl e \<Rightarrow> collect_approvals allowance tokens spenders rest
      | Inr amt \<Rightarrow>
          if Wei amt \<le> 0 then collect_approvals allowance tokens spenders rest
          else \<lparr>ta_Token = tokens ! i, ta_Spender = spenders ! j, ta_Amount = amt\<rparr>
               # collect_approvals allowance tokens spenders rest)"

definition ListApprovals ::
  "packer \<Rightarrow> caller \<Rightarrow> (nat \<times> nat) list \<Rightarrow> address \<Rightarrow> token list \<Rightarrow> address list \<Rightarrow> token_approval list" where
  "ListApprovals pack call order owner tokens spenders =
     (if length tokens * length spenders = 0 then []
      else collect_approvals (\<lambda>t s. Allowance pack call t owner s) tokens spenders order)"

definition RevokeApproval ::
  "(pending_tx \<Rightarrow> 's \<Rightarrow> 's) \<Rightarrow> (time \<Rightarrow> time \<Rightarrow> string \<Rightarrow> 's \<Rightarrow> 's) \<Rightarrow> packer \<Rightarrow> send_env \<Rightarrow> address \<Rightarrow>
   token \<Rightarrow> address \<Rightarrow> 's client \<Rightarrow> (err + tx_receipt) option \<times> 's client" where
  "RevokeApproval add remove pack env wallet token spender c =
     ApproveToken add remove pack env wallet token spender ZeroAmount c"

section \<open>The usecases\<close>

definition ResolveToken :: "(address \<Rightarrow> err + token) \<Rightarrow> string \<Rightarrow> err + token" where
  "ResolveToken metadata addr =
     (if addr = '''' \<or> addr = ''ETH''
      then Inr \<lparr>tk_Address = 0, tk_Symbol = ''ETH'', tk_Name = '''', tk_Decimals = 18\<rparr>
      else bindE (mapE (wrap CodeInvalidArgument ''invalid token address'') (NewAddress addr)) (\<lambda>a.
           mapE (wrap CodeInternal ''token metadata'') (metadata a)))"

definition wrap_unwrap_error :: err where
  "wrap_unwrap_error = New CodeInvalidArgument
     (''ETH and WETH are 1:1 '' @ [CHR 0xE2, CHR 0x80, CHR 0x94] @ '' use wrap/unwrap, not swap'')"

definition validateSwapPair :: "token \<Rightarrow> token \<Rightarrow> err option" where
  "validateSwapPair in_tok out =
     (if IsNative in_tok \<and> tk_Symbol out = ''WETH'' then Some wrap_unwrap_error
      else if IsNative out \<and> tk_Symbol in_tok = ''WETH'' then Some wrap_unwrap_error
      else if \<not> IsNative in_tok \<and> \<not> IsNative out \<and> tk_Address in_tok = tk_Address out
      then Some (New CodeInvalidArgument ''tokenIn and tokenOut must be different'')
      else None)"

record quote_params =
  qp_TokenIn :: token
  qp_TokenOut :: token
  qp_AmountIn :: amount
  qp_Fee :: pool_fee

record execute_params =
  ep_TokenIn :: token
  ep_TokenOut :: token
  ep_AmountIn :: amount
  ep_SlippageBps :: u64
  ep_Fee :: pool_fee
  ep_GasTip :: "amount option"
  ep_GasCap :: "amount option"

type_synonym quoter = "token \<Rightarrow> token \<Rightarrow> amount \<Rightarrow> pool_fee \<Rightarrow> err + swap_quote"

definition Quote :: "quoter \<Rightarrow> quote_params \<Rightarrow> err + swap_quote" where
  "Quote quote p =
     (case validateSwapPair (qp_TokenIn p) (qp_TokenOut p) of
        Some e \<Rightarrow> Inl e
      | None \<Rightarrow> mapE (wrap CodeInternal ''swap quote'')
          (quote (qp_TokenIn p) (qp_TokenOut p) (qp_AmountIn p) (qp_Fee p)))"

definition execute_request :: "execute_params \<Rightarrow> swap_quote \<Rightarrow> swap_request" where
  "execute_request p q =
     \<lparr>sr_TokenIn = ep_TokenIn p, sr_TokenOut = ep_TokenOut p, sr_AmountIn = ep_AmountIn p,
      sr_MinAmountOut = SlippageAmount (sq_AmountOut q) (ep_SlippageBps p), sr_Fee = ep_Fee p,
      sr_DeadlineSeconds = 0, sr_GasTip = ep_GasTip p, sr_GasCap = ep_GasCap p\<rparr>"

text \<open>\<open>wallet\<close> is the loaded wallet, \<open>swap\<close> the client's Swap for it.\<close>

definition Execute ::
  "quoter \<Rightarrow> (address \<Rightarrow> swap_request \<Rightarrow> 'c \<Rightarrow> (err + tx_receipt) option \<times> 'c) \<Rightarrow> address option \<Rightarrow>
   execute_params \<Rightarrow> 'c \<Rightarrow> (err + tx_receipt) option \<times> 'c" where
  "Execute quote swap wallet p c =
     (case wallet of
        None \<Rightarrow> (Some (Inl (New CodeFailedPrecondition ''no wallet loaded'')), c)
      | Some w \<Rightarrow> (case validateSwapPair (ep_TokenIn p) (ep_TokenOut p) of
          Some e \<Rightarrow> (Some (Inl e), c)
        | None \<Rightarrow> (case quote (ep_TokenIn p) (ep_TokenOut p) (ep_AmountIn p) (ep_Fee p) of
            Inl e \<Rightarrow> (Some (Inl (wrap CodeInternal ''pre-swap quote'' e)), c)
          | Inr q \<Rightarrow> swap w (execute_request p q) c)))"

text \<open>\<open>tokens\<close> is the answer of the watchlist.\<close>

definition List_approvals ::
  "(address \<Rightarrow> token list \<Rightarrow> address list \<Rightarrow> err + token_approval list) \<Rightarrow> address \<Rightarrow> err + token list \<Rightarrow>
   err + token_approval list" where
  "List_approvals listApprovals loaded tokens =
     (if IsZero_address loaded then Inl (New CodeFailedPrecondition ''no wallet loaded'')
      else bindE (mapE (wrap CodeInternal ''list tokens for approval scan'') tokens) (\<lambda>ts.
        if length ts = 0 then Inr []
        else mapE (wrap CodeInternal ''list approvals'') (listApprovals loaded ts KnownDEXSpenders)))"

definition zero_token :: token where
  "zero_token = \<lparr>tk_Address = 0, tk_Symbol = '''', tk_Name = '''', tk_Decimals = 0\<rparr>"

definition Revoke ::
  "checksum \<Rightarrow> (address \<Rightarrow> token \<Rightarrow> address \<Rightarrow> 'c \<Rightarrow> (err + tx_receipt) option \<times> 'c) \<Rightarrow> address option \<Rightarrow>
   err + token list \<Rightarrow> address \<Rightarrow> address \<Rightarrow> 'c \<Rightarrow> (err + tx_receipt) option \<times> 'c" where
  "Revoke ck revoke wallet tokens tokenAddress spender c =
     (case wallet of
        None \<Rightarrow> (Some (Inl (New CodeFailedPrecondition ''no wallet loaded'')), c)
      | Some w \<Rightarrow> (case tokens of
          Inl e \<Rightarrow> (Some (Inl (wrap CodeInternal ''list tokens'' e)), c)
        | Inr ts \<Rightarrow>
          (let token = the_default zero_token (find (\<lambda>t. Hex ck (tk_Address t) = Hex ck tokenAddress) ts) in
           if IsZero_address (tk_Address token)
           then (Some (Inl (New CodeNotFound (''token '' @ Hex ck tokenAddress @ '' not in watchlist''))), c)
           else (case revoke w token spender c of
               (Some (Inl e), c') \<Rightarrow> (Some (Inl (wrap CodeInternal ''revoke approval'' e)), c')
             | r \<Rightarrow> r))))"

section \<open>Laws of slippage\<close>

lemma diff_mod:
  fixes n :: int
  shows "0 \<le> n \<Longrightarrow> n \<le> 10000 \<Longrightarrow> (10000 - n) mod 2 ^ 64 = 10000 - n"
    and "10000 < n \<Longrightarrow> n < 2 ^ 63 \<Longrightarrow> (10000 - n) mod 2 ^ 64 = 10000 - n + 2 ^ 64"
  using mod_add_self2 [of "10000 - n" "2 ^ 64"] mod_pos_pos_trivial [of "10000 - n + 2 ^ 64" "2 ^ 64"]
  by simp_all

text \<open>
  C11. With at most 10000 basis points, the slippage floor of an output is its exact share
  rounded down: never negative, never above the quoted output, and less than one wei
  below the share; it never grows with the slippage.
\<close>

theorem slippage_floor:
  assumes "0 \<le> Wei a" "uint bps \<le> 10000" "uint bps' \<le> uint bps"
  shows "Wei (SlippageAmount a bps) * 10000 \<le> Wei a * (10000 - uint bps)
    \<and> Wei a * (10000 - uint bps) < (Wei (SlippageAmount a bps) + 1) * 10000
    \<and> 0 \<le> Wei (SlippageAmount a bps) \<and> Wei (SlippageAmount a bps) \<le> Wei (SlippageAmount a bps')
    \<and> Wei (SlippageAmount a bps') \<le> Wei a"
proof -
  have s: "sint (10000 - b :: u64) = 10000 - uint b" if "uint b \<le> 10000" for b :: u64
  proof -
    have "(10000 - uint b) mod 2 ^ 64 = 10000 - uint b"
      using uint_ge_0 that by (rule diff_mod(1))
    then have "uint (10000 - b) = 10000 - uint b" by (simp add: uint_word_ariths)
    moreover have "10000 - uint b < 2 ^ 63" by (rule le_less_trans [of _ 10000]) simp_all
    ultimately show ?thesis by (simp add: sint_u64)
  qed
  have w: "Wei (SlippageAmount a b) = Wei a * (10000 - uint b) div 10000" if "uint b \<le> 10000" for b
    using that by (simp add: SlippageAmount_def Wei_safe s)
  let ?n = "Wei a * (10000 - uint bps)"
  have le: "?n \<le> Wei a * (10000 - uint bps')" "Wei a * (10000 - uint bps') \<le> Wei a * 10000"
    using assms by (auto intro!: mult_left_mono)
  have "?n div 10000 * 10000 \<le> ?n" "?n < (?n div 10000 + 1) * 10000"
    using div_mult_mod_eq [of ?n 10000] pos_mod_sign [of 10000 ?n] pos_mod_bound [of 10000 ?n]
    by (simp_all add: algebra_simps)
  moreover have "0 \<le> ?n div 10000" using assms by (simp add: pos_imp_zdiv_nonneg_iff)
  moreover have "?n div 10000 \<le> Wei a * (10000 - uint bps') div 10000" using le(1) by (rule zdiv_mono1) simp
  moreover have "Wei a * (10000 - uint bps') div 10000 \<le> Wei a" using zdiv_mono1 [OF le(2), of 10000] by simp
  moreover have "uint bps' \<le> 10000" using assms by simp
  ultimately show ?thesis using w assms(2) by simp
qed

lemma slippage_floor_witness:
  "Wei (SlippageAmount (Amount (Some 1000000)) 50) * 10000 \<le> 1000000 * 9950
   \<and> 0 \<le> Wei (SlippageAmount (Amount (Some 1000000)) 50)"
  using slippage_floor [of "Amount (Some 1000000)" 50 0] by (simp add: Wei_safe)

definition sample_token :: token where
  "sample_token = \<lparr>tk_Address = 7, tk_Symbol = ''USDC'', tk_Name = ''USD Coin'', tk_Decimals = 6\<rparr>"

definition sample_execute :: execute_params where
  "sample_execute = \<lparr>ep_TokenIn = NativeETH, ep_TokenOut = sample_token, ep_AmountIn = Amount (Some 5),
     ep_SlippageBps = 10001, ep_Fee = 0, ep_GasTip = None, ep_GasCap = None\<rparr>"

definition sample_quote :: swap_quote where
  "sample_quote = \<lparr>sq_TokenIn = NativeETH, sq_TokenOut = sample_token, sq_AmountIn = Amount (Some 5),
     sq_AmountOut = Amount (Some 100), sq_Fee = 500, sq_GasEstimate = 0\<rparr>"

text \<open>
  Beyond 10000 basis points the difference wraps round and the floor of a positive output is
  negative. The usecase does not check the number; its only caller, the gRPC handler, passes 50.
\<close>

lemma slippage_wraps:
  assumes "0 < Wei a" "10000 < uint bps" "uint bps < 2 ^ 63"
  shows "Wei (SlippageAmount a bps) < 0"
proof -
  have "(10000 - uint bps) mod 2 ^ 64 = 10000 - uint bps + 2 ^ 64"
    using assms(2,3) by (rule diff_mod(2))
  then have "uint (10000 - bps) = 10000 - uint bps + 2 ^ 64" by (simp add: uint_word_ariths)
  then have "sint (10000 - bps) < 0"
    using assms by (intro uint_le_sint) simp
  then have "Wei a * sint (10000 - bps) < 0"
    using assms(1) by (simp add: mult_pos_neg)
  then show ?thesis
    by (simp add: SlippageAmount_def Wei_safe neg_imp_zdiv_neg_iff)
qed

section \<open>Laws of swapping\<close>

lemma ensureAllowance_ok:
  assumes "ensureAllowance add remove env wallet token spender amount c = (Some None, c')"
  shows "\<exists>current. Allowance (sw_pack env) (sw_call env) token wallet spender = Inr current
    \<and> (if Wei amount \<le> Wei current then c' = c
       else \<exists>atx adata. cl_broadcast c' = cl_broadcast c @ [atx] \<and> dt_To atx = Some (tk_Address token)
         \<and> dt_Value atx = 0 \<and> dt_Data atx = adata \<and> sw_pack env (Approve spender maxUint256) = Inr adata)"
proof (cases "Allowance (sw_pack env) (sw_call env) token wallet spender")
  case (Inl e)
  with assms show ?thesis by (simp add: ensureAllowance_def)
next
  case (Inr current)
  show ?thesis
  proof (cases "Wei amount \<le> Wei current")
    case True
    with assms Inr show ?thesis by (simp add: ensureAllowance_def)
  next
    case False
    obtain r where ap: "ApproveToken add remove (sw_pack env) (sw_approve env) wallet token spender
        (NewAmountFromWei (Some maxUint256)) c = (Some (Inr r), c')"
      using assms Inr False
      by (auto simp: ensureAllowance_def split: prod.splits option.splits sum.splits if_splits)
    then obtain data where data: "sw_pack env (Approve spender maxUint256) = Inr data"
      and send: "SendTx add remove (sw_approve env) wallet (approve_request token data) c = (Some (Inr r), c')"
      by (auto simp: ApproveToken_def Wei_safe split: sum.splits)
    from SendTx_success [OF send] data Inr False show ?thesis
      by (auto simp: approve_request_def Wei_safe)
  qed
qed

text \<open>The approvals a swap sends before its exchange: one for the maximum if the allowance is short.\<close>

definition approvals_for :: "swap_env \<Rightarrow> address \<Rightarrow> token \<Rightarrow> address \<Rightarrow> amount \<Rightarrow> dynamic_fee_tx list \<Rightarrow> bool" where
  "approvals_for env wallet token router amount approvals \<longleftrightarrow>
     (if IsNative token then approvals = []
      else \<exists>current. Allowance (sw_pack env) (sw_call env) token wallet router = Inr current
         \<and> (if Wei amount \<le> Wei current then approvals = []
            else \<exists>atx. approvals = [atx] \<and> dt_To atx = Some (tk_Address token) \<and> dt_Value atx = 0
              \<and> sw_pack env (Approve router maxUint256) = Inr (dt_Data atx)))"

lemma guard_approvals:
  assumes "(if \<not> IsNative token then ensureAllowance add remove env wallet token router amount c else (Some None, c)) = (Some None, c1)"
  obtains approvals where "cl_broadcast c1 = cl_broadcast c @ approvals" "approvals_for env wallet token router amount approvals"
proof (cases "IsNative token")
  case True
  with assms show ?thesis by (intro that [of "[]"]) (auto simp: approvals_for_def)
next
  case False
  with assms have "ensureAllowance add remove env wallet token router amount c = (Some None, c1)" by simp
  from ensureAllowance_ok [OF this] obtain current
    where cur: "Allowance (sw_pack env) (sw_call env) token wallet router = Inr current"
      "if Wei amount \<le> Wei current then c1 = c
       else \<exists>atx adata. cl_broadcast c1 = cl_broadcast c @ [atx] \<and> dt_To atx = Some (tk_Address token)
         \<and> dt_Value atx = 0 \<and> dt_Data atx = adata \<and> sw_pack env (Approve router maxUint256) = Inr adata"
    by blast
  show ?thesis
  proof (cases "Wei amount \<le> Wei current")
    case True
    with cur False show ?thesis by (intro that [of "[]"]) (auto simp: approvals_for_def)
  next
    case less: False
    then obtain atx where "cl_broadcast c1 = cl_broadcast c @ [atx]" "dt_To atx = Some (tk_Address token)"
      "dt_Value atx = 0" "sw_pack env (Approve router maxUint256) = Inr (dt_Data atx)"
      using cur(2) by auto
    with cur(1) False less show ?thesis by (intro that [of "[atx]"]) (auto simp: approvals_for_def)
  qed
qed

lemma swap_data_calls:
  assumes "swap_data pack router wallet req inAddr outAddr fee = Inr data"
  shows "let fee = uint fee; floor = Wei (sr_MinAmountOut req);
          exchange = (\<lambda>to. ExactInputSingle inAddr outAddr fee to (Wei (sr_AmountIn req)) floor 0) in
      if IsNative (sr_TokenOut req)
      then \<exists>s u. pack (exchange router) = Inr s \<and> pack (UnwrapWETH9 floor wallet) = Inr u \<and> pack (Multicall [s, u]) = Inr data
      else pack (exchange wallet) = Inr data"
  using assms by (auto simp: swap_data_def bindE_Inr_iff Let_def split: if_splits)

lemma Swap_broadcasts:
  assumes "Swap add remove env nw wallet req c = (Some (Inr r), c')"
  obtains approvals tx inAddr outAddr where
    "cl_broadcast c' = cl_broadcast c @ approvals @ [tx]"
    "resolveSwapAddresses nw (sr_TokenIn req) (sr_TokenOut req) = Inr (inAddr, outAddr)"
    "dt_To tx = Some (nw_UniswapSwapRouter02 nw)" "nw_UniswapSwapRouter02 nw \<noteq> 0"
    "dt_Value tx = (if IsNative (sr_TokenIn req) then Wei (sr_AmountIn req) else 0)"
    "swap_data (sw_pack env) (nw_UniswapSwapRouter02 nw) wallet req inAddr outAddr (if sr_Fee req = 0 then PoolFee005 else sr_Fee req)
       = Inr (dt_Data tx)"
    "approvals_for env wallet (sr_TokenIn req) (nw_UniswapSwapRouter02 nw) (sr_AmountIn req) approvals"
proof -
  let ?router = "nw_UniswapSwapRouter02 nw"
  let ?fee = "if sr_Fee req = 0 then PoolFee005 else sr_Fee req"
  let ?guard = "if \<not> IsNative (sr_TokenIn req)
       then ensureAllowance add remove env wallet (sr_TokenIn req) ?router (sr_AmountIn req) c else (Some None, c)"
  have router: "?router \<noteq> 0" using assms by (auto simp: Swap_def ZeroAddress_def split: if_splits)
  obtain inAddr outAddr where res: "resolveSwapAddresses nw (sr_TokenIn req) (sr_TokenOut req) = Inr (inAddr, outAddr)"
    using assms router by (cases "resolveSwapAddresses nw (sr_TokenIn req) (sr_TokenOut req)")
      (auto simp: Swap_def ZeroAddress_def Let_def)
  obtain c1 where guard: "?guard = (Some None, c1)"
    using assms router res
    by (cases ?guard) (auto simp: Swap_def ZeroAddress_def Let_def split: option.splits)
  obtain data where data: "swap_data (sw_pack env) ?router wallet req inAddr outAddr ?fee = Inr data"
    and send: "SendTx add remove (sw_swap env) wallet (swap_tx_request ?router req data) c1 = (Some (Inr r), c')"
    using assms router res guard
    by (cases "swap_data (sw_pack env) ?router wallet req inAddr outAddr ?fee")
      (auto simp: Swap_def ZeroAddress_def Let_def)
  obtain tx where tx: "cl_broadcast c' = cl_broadcast c1 @ [tx]" "dt_To tx = Some ?router"
    "dt_Value tx = (if IsNative (sr_TokenIn req) then Wei (sr_AmountIn req) else 0)" "dt_Data tx = data"
    using SendTx_success [OF send] by (auto simp: swap_tx_request_def Wei_safe)
  obtain approvals where ap: "cl_broadcast c1 = cl_broadcast c @ approvals"
    "approvals_for env wallet (sr_TokenIn req) ?router (sr_AmountIn req) approvals"
    by (rule guard_approvals [OF guard])
  show ?thesis by (rule that [OF _ res tx(2) router tx(3) _ ap(2)]) (simp_all add: tx(1,4) ap(1) data)
qed

text \<open>
  C4. What a completed swap has put on the chain. The last transaction goes to the router,
  carries the input as its value exactly when the input is native, and exchanges the two
  resolved tokens with the slippage floor as minimum output: delivered to the wallet, or,
  for a native output, kept by the router and unwrapped to the wallet in the same call with
  the same floor. It is preceded by one unlimited approval of the router by the input token
  exactly when that token's allowance is below the input.
\<close>

theorem Swap_completed:
  assumes "Swap add remove env nw wallet req c = (Some (Inr r), c')"
  shows "\<exists>approvals tx inAddr outAddr data.
     cl_broadcast c' = cl_broadcast c @ approvals @ [tx]
   \<and> resolveSwapAddresses nw (sr_TokenIn req) (sr_TokenOut req) = Inr (inAddr, outAddr)
   \<and> dt_To tx = Some (nw_UniswapSwapRouter02 nw) \<and> nw_UniswapSwapRouter02 nw \<noteq> 0
   \<and> dt_Value tx = (if IsNative (sr_TokenIn req) then Wei (sr_AmountIn req) else 0)
   \<and> dt_Data tx = data
   \<and> (let fee = uint (if sr_Fee req = 0 then PoolFee005 else sr_Fee req);
          floor = Wei (sr_MinAmountOut req);
          exchange = (\<lambda>to. ExactInputSingle inAddr outAddr fee to (Wei (sr_AmountIn req)) floor 0) in
      if IsNative (sr_TokenOut req)
      then \<exists>s u. sw_pack env (exchange (nw_UniswapSwapRouter02 nw)) = Inr s
         \<and> sw_pack env (UnwrapWETH9 floor wallet) = Inr u \<and> sw_pack env (Multicall [s, u]) = Inr data
      else sw_pack env (exchange wallet) = Inr data)
   \<and> (if IsNative (sr_TokenIn req) then approvals = []
      else \<exists>current. Allowance (sw_pack env) (sw_call env) (sr_TokenIn req) wallet (nw_UniswapSwapRouter02 nw) = Inr current
         \<and> (if Wei (sr_AmountIn req) \<le> Wei current then approvals = []
            else \<exists>atx. approvals = [atx] \<and> dt_To atx = Some (tk_Address (sr_TokenIn req)) \<and> dt_Value atx = 0
              \<and> sw_pack env (Approve (nw_UniswapSwapRouter02 nw) maxUint256) = Inr (dt_Data atx)))"
proof -
  from assms obtain approvals tx inAddr outAddr where
    swap: "cl_broadcast c' = cl_broadcast c @ approvals @ [tx]"
      "resolveSwapAddresses nw (sr_TokenIn req) (sr_TokenOut req) = Inr (inAddr, outAddr)"
      "dt_To tx = Some (nw_UniswapSwapRouter02 nw)" "nw_UniswapSwapRouter02 nw \<noteq> 0"
      "dt_Value tx = (if IsNative (sr_TokenIn req) then Wei (sr_AmountIn req) else 0)"
    and data: "swap_data (sw_pack env) (nw_UniswapSwapRouter02 nw) wallet req inAddr outAddr
        (if sr_Fee req = 0 then PoolFee005 else sr_Fee req) = Inr (dt_Data tx)"
    and ap: "approvals_for env wallet (sr_TokenIn req) (nw_UniswapSwapRouter02 nw) (sr_AmountIn req) approvals"
    by (rule Swap_broadcasts)
  show ?thesis
    by (intro exI [of _ approvals] exI [of _ tx] exI [of _ inAddr] exI [of _ outAddr] exI [of _ "dt_Data tx"] conjI
        swap refl swap_data_calls [OF data] ap [unfolded approvals_for_def])
qed

definition sample_network :: network where
  "sample_network = \<lparr>nw_ChainID = 1, nw_UniswapQuoterV2 = 11, nw_UniswapSwapRouter02 = 12, nw_UniswapWrappedETH = 13\<rparr>"

definition mined_env :: send_env where
  "mined_env = sample_env\<lparr>se_wait := [Tick (Inl (Sentinel ''not found'')), Tick (Inr
     \<lparr>nr_Status = 1, nr_EffectiveGasPrice = Some 3, nr_GasUsed = 21000, nr_BlockNumber = 5\<rparr>)]\<rparr>"

definition sample_swap_env :: swap_env where
  "sample_swap_env = \<lparr>sw_pack = (\<lambda>call. Inr (case call of Multicall _ \<Rightarrow> [3] | UnwrapWETH9 _ _ \<Rightarrow> [2] | _ \<Rightarrow> [1])),
     sw_call = (\<lambda>_ _. Inr (replicate 32 0)), sw_approve = mined_env, sw_swap = mined_env\<rparr>"

definition sample_swap_request :: swap_request where
  "sample_swap_request = \<lparr>sr_TokenIn = sample_token, sr_TokenOut = NativeETH, sr_AmountIn = Amount (Some 5),
     sr_MinAmountOut = Amount (Some 4), sr_Fee = 0, sr_DeadlineSeconds = 0, sr_GasTip = None, sr_GasCap = None\<rparr>"

lemma foldl_zeros: "foldl (\<lambda>acc b. acc * 256 + unat b) 0 (replicate n (0 :: u8)) = 0"
  by (induction n) simp_all

lemma sample_swap_returns:
  "\<exists>r c'. Swap Add_pt Remove_pt sample_swap_env sample_network 1 sample_swap_request sample_client = (Some (Inr r), c')"
  by (simp add: Swap_def sample_swap_env_def sample_network_def sample_swap_request_def sample_client_def
      mined_env_def sample_env_def sample_token_def NativeETH_def ZeroAddress_def resolveSwapAddresses_def
      ensureAllowance_def Allowance_def decodeUint256_def bytes_to_nat_def ApproveToken_def SendTx_def
      next_nonce_def sample_fees_def GasEstimateWithFees_def GasFees_def GasEstimate_def approve_request_def
      Wei_safe swap_data_def swap_tx_request_def mk_receipt_def ReceiptStatusFailed_def TxStatusSuccess_def
      TxStatusFailed_def foldl_zeros gomap_simps Let_def)

lemma Swap_completed_witness:
  "\<exists>atx tx. cl_broadcast (snd (Swap Add_pt Remove_pt sample_swap_env sample_network 1 sample_swap_request sample_client))
       = [atx, tx]
     \<and> dt_To atx = Some 7 \<and> dt_To tx = Some 12 \<and> dt_Value tx = 0 \<and> dt_Data tx = [3]"
proof -
  obtain r c' where s: "Swap Add_pt Remove_pt sample_swap_env sample_network 1 sample_swap_request sample_client
      = (Some (Inr r), c')" using sample_swap_returns by blast
  from Swap_completed [OF this] show ?thesis unfolding s
    by (auto simp: sample_client_def sample_network_def sample_swap_request_def sample_token_def
        sample_swap_env_def NativeETH_def Allowance_def decodeUint256_def bytes_to_nat_def Wei_safe Let_def
        foldl_zeros split: if_splits)
qed

section \<open>Laws of approvals\<close>

lemma approval_eq_iff:
  "a = \<lparr>ta_Token = t, ta_Spender = s, ta_Amount = m\<rparr> \<longleftrightarrow> ta_Token a = t \<and> ta_Spender a = s \<and> ta_Amount a = m"
  for a :: token_approval
  by (cases a) simp

lemma set_collect_approvals:
  "a \<in> set (collect_approvals allowance tokens spenders order) \<longleftrightarrow>
     (\<exists>(i, j) \<in> set order. ta_Token a = tokens ! i \<and> ta_Spender a = spenders ! j)
     \<and> allowance (ta_Token a) (ta_Spender a) = Inr (ta_Amount a) \<and> 0 < Wei (ta_Amount a)"
proof (induction order)
  case (Cons p rest)
  show ?case
  proof (cases p)
    case (Pair i j)
    show ?thesis
      using Cons by (cases "allowance (tokens ! i) (spenders ! j)") (auto simp: Pair approval_eq_iff)
  qed
qed simp

text \<open>
  C14. The approvals screen shows, whatever order the parallel queries complete in, exactly
  the pairs of a token and a spender whose allowance could be read and is positive. (A one
  wei remainder is shown too.)
\<close>

theorem ListApprovals_exact:
  assumes "set order = set (index_pairs tokens spenders)"
  shows "set (ListApprovals pack call order owner tokens spenders) =
    {a. ta_Token a \<in> set tokens \<and> ta_Spender a \<in> set spenders \<and> 0 < Wei (ta_Amount a)
       \<and> Allowance pack call (ta_Token a) owner (ta_Spender a) = Inr (ta_Amount a)}"
    (is "?L = ?R")
proof (cases "length tokens * length spenders = 0")
  case True
  then show ?thesis by (auto simp: ListApprovals_def)
next
  case False
  have pairs: "(\<exists>(i, j) \<in> set order. ta_Token a = tokens ! i \<and> ta_Spender a = spenders ! j)
      \<longleftrightarrow> ta_Token a \<in> set tokens \<and> ta_Spender a \<in> set spenders" for a
  proof -
    have "ta_Token a \<in> set tokens \<longleftrightarrow> (\<exists>i < length tokens. ta_Token a = tokens ! i)"
      "ta_Spender a \<in> set spenders \<longleftrightarrow> (\<exists>i < length spenders. ta_Spender a = spenders ! i)"
      by (auto simp: in_set_conv_nth)
    then show ?thesis unfolding assms by (auto simp: index_pairs_def)
  qed
  have "ListApprovals pack call order owner tokens spenders
      = collect_approvals (\<lambda>t s. Allowance pack call t owner s) tokens spenders order"
    using False by (simp add: ListApprovals_def)
  then show ?thesis
    by (intro set_eqI) (simp only: set_collect_approvals pairs mem_Collect_eq, blast)
qed

lemma ListApprovals_exact_witness:
  "set (ListApprovals (\<lambda>_. Inr []) (\<lambda>_ _. Inr (replicate 31 0 @ [1])) [(0, 1), (0, 0)] 1 [sample_token] [2, 3]) =
    {a. ta_Token a \<in> {sample_token} \<and> ta_Spender a \<in> {2, 3} \<and> 0 < Wei (ta_Amount a)
       \<and> Allowance (\<lambda>_. Inr []) (\<lambda>_ _. Inr (replicate 31 0 @ [1])) (ta_Token a) 1 (ta_Spender a) = Inr (ta_Amount a)}"
proof -
  have "set [(0, 1), (0, 0)] = set (index_pairs [sample_token] [2, 3 :: address])"
    by (auto simp: index_pairs_def)
  from ListApprovals_exact [OF this] show ?thesis by (simp only: list.set)
qed

text \<open>
  C13. A completed revocation has sent one transaction, an approval of zero for the spender,
  to the contract of a token of the watchlist with the given address.
\<close>

theorem Revoke_completed:
  assumes "Revoke ck (\<lambda>w t s. RevokeApproval add remove pack env w t s) wallet tokens addr spender c
      = (Some (Inr r), c')"
  shows "\<exists>w ts t tx. wallet = Some w \<and> tokens = Inr ts \<and> t \<in> set ts \<and> tk_Address t = addr \<and> addr \<noteq> 0
    \<and> cl_broadcast c' = cl_broadcast c @ [tx] \<and> dt_To tx = Some addr \<and> dt_Value tx = 0
    \<and> pack (Approve spender 0) = Inr (dt_Data tx)"
proof -
  obtain w ts where w: "wallet = Some w" "tokens = Inr ts"
    using assms by (auto simp: Revoke_def split: option.splits sum.splits)
  let ?f = "find (\<lambda>t. Hex ck (tk_Address t) = Hex ck addr) ts"
  let ?t = "the_default zero_token ?f"
  have nz: "tk_Address ?t \<noteq> 0"
    using assms w by (auto simp: Revoke_def Let_def IsZero_address_def split: if_splits)
  then obtain t where t: "?f = Some t" by (cases ?f) (auto simp: zero_token_def)
  then have in_ts: "t \<in> set ts" "tk_Address t = addr" by (auto simp: find_Some_iff)
  have "RevokeApproval add remove pack env w t spender c = (Some (Inr r), c')"
    using assms w t nz
    by (auto simp: Revoke_def Let_def IsZero_address_def split: prod.splits option.splits sum.splits)
  then obtain data where data: "pack (Approve spender 0) = Inr data"
    and send: "SendTx add remove env w (approve_request t data) c = (Some (Inr r), c')"
    by (auto simp: RevokeApproval_def ApproveToken_def Wei_safe split: sum.splits)
  from SendTx_success [OF send] data in_ts w nz t show ?thesis
    by (auto simp: approve_request_def Wei_safe)
qed

lemma Revoke_completed_witness:
  "\<exists>tx c'. snd (Revoke (\<lambda>_ _. False) (\<lambda>w t s. RevokeApproval Add_pt Remove_pt (\<lambda>_. Inr [9]) mined_env w t s)
      (Some 1) (Inr [sample_token]) 7 12 sample_client) = c' \<and> cl_broadcast c' = [tx] \<and> dt_To tx = Some 7
      \<and> dt_Data tx = [9]"
proof -
  obtain r c' where r: "Revoke (\<lambda>_ _. False) (\<lambda>w t s. RevokeApproval Add_pt Remove_pt (\<lambda>_. Inr [9]) mined_env w t s)
      (Some 1) (Inr [sample_token]) 7 12 sample_client = (Some (Inr r), c')"
    by (simp add: Revoke_def RevokeApproval_def ApproveToken_def SendTx_def sample_token_def mined_env_def
        sample_env_def sample_client_def next_nonce_def sample_fees_def GasEstimateWithFees_def GasFees_def
        GasEstimate_def approve_request_def IsZero_address_def gomap_simps Let_def)
  from Revoke_completed [OF this] r show ?thesis by (auto simp: sample_client_def)
qed

end
