(* ===== verification/Alchemy.thy ===== *)
theory Alchemy
  imports Contracts
begin

text \<open>
  pkg/ethkit/alchemy.go and ens.go: the asset-transfer and token-balance queries and name
  resolution. The HTTP exchange and the JSON decoding are parameters: an answer is the
  decoded response. A JSON number is of a type \<open>'f\<close>, converted by \<open>fromFloat\<close>;
  \<open>parseTime\<close> is the RFC 3339 parser.
\<close>

section \<open>Requests\<close>

record transfers_params =
  gp_FromAddress :: "address option"
  gp_ToAddress :: "address option"
  gp_FromBlock :: string
  gp_ToBlock :: string
  gp_Categories :: "string list"
  gp_ContractAddresses :: "address list"
  gp_MaxCount :: int
  gp_PageKey :: string
  gp_WithMetadata :: bool

text \<open>The body of the request; an absent key is \<open>None\<close>.\<close>

record transfers_body =
  tb_fromBlock :: string
  tb_toBlock :: string
  tb_category :: "string list"
  tb_maxCount :: string
  tb_withMetadata :: bool
  tb_excludeZeroValue :: bool
  tb_fromAddress :: "string option"
  tb_toAddress :: "string option"
  tb_pageKey :: "string option"
  tb_contractAddresses :: "string list option"

definition hex_of_int :: "int \<Rightarrow> string" where
  "hex_of_int n = (if n < 0 then ''-'' @ ''0x'' @ show_base 16 (nat (- n)) else ''0x'' @ show_base 16 (nat n))"

definition transfers_request :: "checksum \<Rightarrow> transfers_params \<Rightarrow> transfers_body" where
  "transfers_request ck p =
     \<lparr>tb_fromBlock = (if gp_FromBlock p = '''' then ''0x0'' else gp_FromBlock p),
      tb_toBlock = (if gp_ToBlock p = '''' then ''latest'' else gp_ToBlock p),
      tb_category = (if length (gp_Categories p) = 0 then [CategoryExternal, CategoryInternal, CategoryERC20]
                     else gp_Categories p),
      tb_maxCount = hex_of_int (if gp_MaxCount p = 0 then 100 else gp_MaxCount p),
      tb_withMetadata = gp_WithMetadata p, tb_excludeZeroValue = True,
      tb_fromAddress = map_option (Hex ck) (gp_FromAddress p),
      tb_toAddress = map_option (Hex ck) (gp_ToAddress p),
      tb_pageKey = (if gp_PageKey p \<noteq> '''' then Some (gp_PageKey p) else None),
      tb_contractAddresses = (if length (gp_ContractAddresses p) > 0
         then Some (map (Hex ck) (gp_ContractAddresses p)) else None)\<rparr>"

text \<open>
  The exchange: \<open>encode\<close> marshals the body and builds the request, \<open>send\<close> does it,
  \<open>readAll\<close> reads the response and \<open>decode\<close> gives the envelope, an error message or the
  result. Only failures of the second and the last step are wrapped.
\<close>

definition alchemyRPC ::
  "('body \<Rightarrow> err + 'q) \<Rightarrow> ('q \<Rightarrow> err + 's) \<Rightarrow> ('s \<Rightarrow> err + 'b) \<Rightarrow> ('b \<Rightarrow> err + string option \<times> 'r) \<Rightarrow> 'body \<Rightarrow>
   err + 'r" where
  "alchemyRPC encode send readAll decode body =
     bindE (encode body) (\<lambda>req.
     bindE (mapE (errorf ''ethkit: alchemy rpc: '') (send req)) (\<lambda>resp.
     bindE (readAll resp) (\<lambda>b.
     bindE (mapE (errorf ''ethkit: alchemy decode: '') (decode b)) (\<lambda>(error, result).
       case error of Some message \<Rightarrow> Inl (WrapError (''ethkit: alchemy error: '' @ message) [])
       | None \<Rightarrow> Inr result))))"

section \<open>Transfers\<close>

record raw_contract =
  rw_Value :: string
  rw_Address :: string
  rw_Decimal :: string

record 'f alchemy_transfer =
  al_BlockNum :: string
  al_UniqueID :: string
  al_Hash :: string
  al_From :: string
  al_To :: string
  al_Value :: "'f option"
  al_Asset :: string
  al_Category :: string
  al_Metadata :: "string option"
  al_RawContract :: "raw_contract option"

definition floatToDecimal :: "('f \<Rightarrow> decimal) \<Rightarrow> 'f \<Rightarrow> decimal" where
  "floatToDecimal fromFloat f = fromFloat f"

definition transfer_token :: "'f alchemy_transfer \<Rightarrow> token option" where
  "transfer_token t =
     (case al_RawContract t of
        None \<Rightarrow> None
      | Some rc \<Rightarrow>
        if al_Category t = CategoryERC20 \<and> rw_Address rc \<noteq> ''''
        then (case NewAddress (rw_Address rc) of
            Inl e \<Rightarrow> None
          | Inr addr \<Rightarrow> Some \<lparr>tk_Address = addr, tk_Symbol = al_Asset t, tk_Name = '''',
              tk_Decimals = (if rw_Decimal rc = '''' then 18
                else case ParseUint 16 8 (TrimPrefix (rw_Decimal rc) ''0x'') of
                    Some d \<Rightarrow> word_of_nat d | None \<Rightarrow> 18)\<rparr>)
        else None)"

definition convertTransfer ::
  "('f :: zero \<Rightarrow> decimal) \<Rightarrow> (string \<Rightarrow> time option) \<Rightarrow> 'f alchemy_transfer \<Rightarrow> err + asset_transfer" where
  "convertTransfer fromFloat parseTime t =
     bindE (NewAddress (al_From t)) (\<lambda>from.
     bindE (NewAddress (al_To t)) (\<lambda>to.
     Inr \<lparr>at_BlockNumber = (case ParseUint 16 64 (TrimPrefix (al_BlockNum t) ''0x'') of
            Some n \<Rightarrow> word_of_nat n | None \<Rightarrow> 0),
          at_Timestamp = (case al_Metadata t of
              None \<Rightarrow> zero_time
            | Some s \<Rightarrow> if s = '''' then zero_time else the_default zero_time (parseTime s)),
          at_Hash = al_Hash t,
          at_UniqueID = (if al_UniqueID t = '''' then al_Hash t @ '':'' @ al_Category t @ '':'' @ al_Asset t
                         else al_UniqueID t),
          at_From = from, at_To = to,
          at_Value = floatToDecimal fromFloat (case al_Value t of None \<Rightarrow> 0 | Some v \<Rightarrow> v),
          at_Asset = al_Asset t, at_Category = al_Category t, at_Token = transfer_token t\<rparr>))"

record transfers_page =
  pg_Transfers :: "asset_transfer list"
  pg_PageKey :: string

fun parse_loop ::
  "('f :: zero \<Rightarrow> decimal) \<Rightarrow> (string \<Rightarrow> time option) \<Rightarrow> 'f alchemy_transfer list \<Rightarrow> asset_transfer list" where
  "parse_loop fromFloat parseTime [] = []"
| "parse_loop fromFloat parseTime (t # ts) =
     (case convertTransfer fromFloat parseTime t of
        Inl e \<Rightarrow> parse_loop fromFloat parseTime ts
      | Inr a \<Rightarrow> a # parse_loop fromFloat parseTime ts)"

definition parseAssetTransfers ::
  "('f :: zero \<Rightarrow> decimal) \<Rightarrow> (string \<Rightarrow> time option) \<Rightarrow> ('r \<Rightarrow> err + 'f alchemy_transfer list \<times> string) \<Rightarrow> 'r \<Rightarrow>
   err + transfers_page" where
  "parseAssetTransfers fromFloat parseTime unmarshal raw =
     bindE (mapE (errorf ''ethkit: parse transfers: '') (unmarshal raw)) (\<lambda>(ts, key).
     Inr \<lparr>pg_Transfers = parse_loop fromFloat parseTime ts, pg_PageKey = key\<rparr>)"

definition GetAssetTransfers ::
  "checksum \<Rightarrow> ('f :: zero \<Rightarrow> decimal) \<Rightarrow> (string \<Rightarrow> time option) \<Rightarrow> ('r \<Rightarrow> err + 'f alchemy_transfer list \<times> string) \<Rightarrow>
   string \<Rightarrow> (transfers_body \<Rightarrow> err + 'r) \<Rightarrow> transfers_params \<Rightarrow> err + transfers_page" where
  "GetAssetTransfers ck fromFloat parseTime unmarshal httpURL rpc params =
     (if httpURL = '''' then Inl (Sentinel ''ethkit: alchemy HTTPURL not configured'')
      else bindE (rpc (transfers_request ck params)) (parseAssetTransfers fromFloat parseTime unmarshal))"

section \<open>Token balances\<close>

record token_balance =
  tbl_ContractAddress :: address
  tbl_Balance :: amount

text \<open>
  \<open>junk\<close> is the number \<open>SetString\<close> leaves behind on a malformed string, which its
  documentation calls undefined.
\<close>

fun balances_loop :: "(string \<Rightarrow> int) \<Rightarrow> (string \<times> string) list \<Rightarrow> token_balance list" where
  "balances_loop junk [] = []"
| "balances_loop junk ((contract, bal) # rest) =
     (case NewAddress contract of
        Inl e \<Rightarrow> balances_loop junk rest
      | Inr addr \<Rightarrow>
        (let hex = TrimPrefix bal ''0x'';
             wei = (case SetString 16 hex of Some n \<Rightarrow> n | None \<Rightarrow> junk hex)
         in if wei = 0 then balances_loop junk rest
            else \<lparr>tbl_ContractAddress = addr, tbl_Balance = NewAmountFromWei (Some wei)\<rparr> # balances_loop junk rest))"

definition parseTokenBalances ::
  "(string \<Rightarrow> int) \<Rightarrow> ('r \<Rightarrow> err + (string \<times> string) list) \<Rightarrow> 'r \<Rightarrow> err + token_balance list" where
  "parseTokenBalances junk unmarshal raw =
     bindE (mapE (errorf ''ethkit: parse token balances: '') (unmarshal raw)) (\<lambda>entries.
     Inr (balances_loop junk entries))"

definition GetTokenBalances ::
  "checksum \<Rightarrow> (string \<Rightarrow> int) \<Rightarrow> ('r \<Rightarrow> err + (string \<times> string) list) \<Rightarrow> (string list \<Rightarrow> err + 'r) \<Rightarrow> address \<Rightarrow>
   err + token_balance list" where
  "GetTokenBalances ck junk unmarshal rpc addr =
     bindE (rpc [Hex ck addr, ''erc20'']) (parseTokenBalances junk unmarshal)"

section \<open>Names\<close>

text \<open>
  \<open>norm\<close> is \<open>TrimSpace\<close> after \<open>ToLower\<close>, over Unicode; \<open>quote\<close> is the \<open>%q\<close> verb.
\<close>

definition HasSuffix :: "string \<Rightarrow> string \<Rightarrow> bool" where
  "HasSuffix s p \<longleftrightarrow> length p \<le> length s \<and> drop (length s - length p) s = p"

definition ErrENSNotFound :: err where "ErrENSNotFound = Sentinel ''ethkit: ENS name not found''"

definition IsENSName :: "(string \<Rightarrow> string) \<Rightarrow> string \<Rightarrow> bool" where
  "IsENSName norm s \<longleftrightarrow> HasSuffix (norm s) ''.eth'' \<and> \<not> HasPrefix (norm s) ''0x''"

definition ResolveENS ::
  "(string \<Rightarrow> string) \<Rightarrow> (string \<Rightarrow> string) \<Rightarrow> int \<Rightarrow> (string \<Rightarrow> err + address) \<Rightarrow> string \<Rightarrow> err + address" where
  "ResolveENS norm quote chainID resolve name =
     (if \<not> IsENSName norm name then Inl (WrapError (''ethkit: '' @ quote name @ '' is not an ENS name'') [])
      else if chainID \<noteq> 1 then Inl ErrENSNotFound
      else (case resolve (norm name) of
          Inl e \<Rightarrow> if list_ex (Contains (Error_text e)) [''no resolver'', ''no address'', ''unregistered name'', ''not a valid name'']
                   then Inl ErrENSNotFound
                   else Inl (errorf (''ethkit: ENS resolve '' @ quote name @ '': '') e)
        | Inr a \<Rightarrow> Inr a))"

definition ReverseENS ::
  "checksum \<Rightarrow> int \<Rightarrow> (address \<Rightarrow> err + string) \<Rightarrow> address \<Rightarrow> err + string" where
  "ReverseENS ck chainID reverse addr =
     (if chainID \<noteq> 1 then Inl ErrENSNotFound
      else (case reverse addr of
          Inl e \<Rightarrow> if list_ex (Contains (Error_text e)) [''not found'', ''no resolver'', ''not a resolver'', ''no resolution'']
                   then Inl ErrENSNotFound
                   else Inl (errorf (''ethkit: ENS reverse '' @ Hex ck addr @ '': '') e)
        | Inr name \<Rightarrow> Inr name))"

section \<open>Laws\<close>

lemma convertTransfer_Inr_iff:
  "(\<exists>a. convertTransfer fromFloat parseTime t = Inr a) \<longleftrightarrow> IsHexAddress (al_From t) \<and> IsHexAddress (al_To t)"
  by (auto simp: convertTransfer_def NewAddress_def bindE_def)

text \<open>
  A page of transfers keeps the order of the response and loses only the entries with an
  unreadable sender or receiver (such as a contract creation, which has none).
\<close>

theorem transfers_page_exact:
  "parse_loop fromFloat parseTime ts =
     map (\<lambda>t. projr (convertTransfer fromFloat parseTime t))
       (filter (\<lambda>t. IsHexAddress (al_From t) \<and> IsHexAddress (al_To t)) ts)"
proof (induction ts)
  case (Cons t ts)
  then show ?case
    using convertTransfer_Inr_iff [of fromFloat parseTime t]
    by (cases "convertTransfer fromFloat parseTime t") auto
qed simp

text \<open>
  The numbers of a transfer are read back from the texts the service writes: a block
  number below \<open>2 ^ 64\<close> and token decimals below 256 in hex, and addresses in any letter
  case. A transfer without an id of its own gets one from its hash, category and asset.
\<close>

theorem convertTransfer_reads:
  assumes "al_BlockNum t = ''0x'' @ show_base 16 n" "n < 2 ^ 64"
    and "al_From t = Hex ck a" "al_To t = address_hex b"
    and "al_Category t = CategoryERC20"
    and "al_RawContract t = Some \<lparr>rw_Value = v, rw_Address = Hex ck' tok, rw_Decimal = ''0x'' @ show_base 16 d\<rparr>"
    and "d < 256"
  shows "\<exists>x. convertTransfer fromFloat parseTime t = Inr x \<and> unat (at_BlockNumber x) = n
    \<and> at_From x = a \<and> at_To x = b \<and> at_Hash x = al_Hash t
    \<and> at_Token x = Some \<lparr>tk_Address = tok, tk_Symbol = al_Asset t, tk_Name = [], tk_Decimals = word_of_nat d\<rparr>
    \<and> (al_UniqueID t = [] \<longrightarrow> at_UniqueID x = al_Hash t @ '':erc20:'' @ al_Asset t)
    \<and> (al_UniqueID t \<noteq> [] \<longrightarrow> at_UniqueID x = al_UniqueID t)"
proof -
  have hex: "ParseUint 16 64 (show_base 16 n) = Some n" "ParseUint 16 8 (show_base 16 d) = Some d"
    using assms(2,7) by (simp_all add: ParseUint_def parse_base_show_base)
  have tp: "TrimPrefix (CHR ''0'' # CHR ''x'' # s) ''0x'' = s" for s
    using TrimPrefix_append [of "''0x''" s] by simp
  have "Hex ck' tok \<noteq> []" using length_Hex [of ck' tok] by (metis list.size(3) zero_neq_numeral)
  moreover have "unat (word_of_nat n :: u64) = n" using assms(2) by (simp add: unat_of_nat take_bit_nat_eq_self)
  ultimately show ?thesis
    using assms hex by (simp add: convertTransfer_def transfer_token_def CategoryERC20_def tp)
qed

definition sample_transfer :: "int alchemy_transfer" where
  "sample_transfer = \<lparr>al_BlockNum = ''0x'' @ show_base 16 255, al_UniqueID = [], al_Hash = ''0xab'',
     al_From = Hex (\<lambda>_ _. True) 5, al_To = address_hex 6, al_Value = None, al_Asset = ''USDC'',
     al_Category = CategoryERC20, al_Metadata = None,
     al_RawContract = Some \<lparr>rw_Value = [], rw_Address = Hex (\<lambda>_ _. False) 7, rw_Decimal = ''0x'' @ show_base 16 6\<rparr>\<rparr>"

lemma convertTransfer_reads_witness:
  "\<exists>x. convertTransfer (\<lambda>f. Dec f 0) (\<lambda>_. None) sample_transfer = Inr x \<and> unat (at_BlockNumber x) = 255
     \<and> at_From x = 5 \<and> at_To x = 6 \<and> at_UniqueID x = ''0xab:erc20:USDC''"
  using convertTransfer_reads [of sample_transfer 255 "\<lambda>_ _. True" 5 6 "[]" "\<lambda>_ _. False" 7 6
      "\<lambda>f. Dec f 0" "\<lambda>_. None"]
  by (auto simp: sample_transfer_def)

end
