(* ===== verification/Simulate.thy ===== *)
theory Simulate
  imports Alchemy
begin

text \<open>
  pkg/ethkit/simulate.go and simulate_alchemy.go: the pre-flight simulation, its two paths
  and the decoding of revert payloads.
\<close>

record asset_change =
  ac_Kind :: string
  ac_ChangeType :: string
  ac_From :: string
  ac_To :: string
  ac_AmountHuman :: string
  ac_Symbol :: string
  ac_Name :: string
  ac_Decimals :: u8
  ac_ContractAddress :: string
  ac_TokenID :: string

record simulation_result =
  sm_WillRevert :: bool
  sm_RevertReason :: string
  sm_GasUnits :: u64
  sm_EstimatedCostWei :: amount
  sm_AssetChanges :: "asset_change list"

definition zero_simulation :: simulation_result where
  "zero_simulation = \<lparr>sm_WillRevert = False, sm_RevertReason = '''', sm_GasUnits = 0,
     sm_EstimatedCostWei = Amount None, sm_AssetChanges = []\<rparr>"

section \<open>Hex\<close>

definition bigToHex :: "int \<Rightarrow> string" where
  "bigToHex n =
     (if n = 0 then ''0x0''
      else ''0x'' @ (if n < 0 then ''-'' @ show_base 16 (nat (- n)) else show_base 16 (nat n)))"

definition bytesToHexString :: "u8 list \<Rightarrow> string" where
  "bytesToHexString bs = concat (map (\<lambda>b. fixed_hex 2 (unat b)) bs)"

definition bytesToHex :: "u8 list \<Rightarrow> string" where
  "bytesToHex b = (if length b = 0 then ''0x'' else ''0x'' @ bytesToHexString b)"

definition hexToUint64 :: "string \<Rightarrow> err + u64" where
  "hexToUint64 s0 =
     (let s = TrimPrefix s0 ''0x'' in
      if s = '''' then Inr 0
      else case ParseUint 16 64 s of
          Some n \<Rightarrow> Inr (word_of_nat n)
        | None \<Rightarrow> Inl (WrapError (''strconv.ParseUint: parsing '' @ s) []))"

section \<open>Reverts\<close>

text \<open>
  The \<open>%x\<close> verb of \<open>Sscanf\<close> on two characters, into a byte: leading blanks are skipped
  and at least one hex digit is needed.
\<close>

definition hex_digit :: "char \<Rightarrow> nat option" where
  "hex_digit c = (case digit_val c of Some d \<Rightarrow> if d < 16 then Some d else None | None \<Rightarrow> None)"

definition blank :: "char \<Rightarrow> bool" where
  "blank c \<longleftrightarrow> (of_char c :: nat) \<in> {9, 11, 12, 13, 32}"

definition scan_byte :: "char \<Rightarrow> char \<Rightarrow> u8 option" where
  "scan_byte c d =
     (case hex_digit c of
        Some x \<Rightarrow> (case hex_digit d of Some y \<Rightarrow> Some (word_of_nat (x * 16 + y)) | None \<Rightarrow> Some (word_of_nat x))
      | None \<Rightarrow> if blank c then map_option word_of_nat (hex_digit d) else None)"

fun scan_bytes :: "string \<Rightarrow> u8 list option" where
  "scan_bytes (c # d # rest) =
     (case scan_byte c d of
        None \<Rightarrow> None
      | Some b \<Rightarrow> map_option ((#) b) (scan_bytes rest))"
| "scan_bytes _ = Some []"

text \<open>
  The payload decoding. \<open>data\<close> is what the error carries: \<open>None\<close> when it is no data error,
  \<open>Some None\<close> when its data is not a string. The declared length is an int64, doubled in 64
  bits; \<open>make\<close> panics on a negative or excessive capacity.
\<close>

definition dataStart :: nat where "dataStart = 2 + 8 + 64 + 64"

definition decodeRevert :: "string option option \<Rightarrow> (err, string) outcome" where
  "decodeRevert data =
     (case data of
        None \<Rightarrow> Returned ''''
      | Some None \<Rightarrow> Returned ''''
      | Some (Some raw) \<Rightarrow>
        if \<not> HasPrefix raw ''0x08c379a0''
        then Returned (if length raw > 12 then take 12 raw @ [CHR 0xE2, CHR 0x80, CHR 0xA6] else raw)
        else if length raw < 2 + 8 + 64 + 64 then Returned ''''
        else (case SetString 16 (take 64 (drop (2 + 8 + 64) raw)) of
            None \<Rightarrow> Returned ''''
          | Some len \<Rightarrow>
            (let bytesLen = (word_of_int len :: 64 word);
                 dataEnd = (word_of_nat dataStart + bytesLen * 2 :: 64 word)
             in if sint dataEnd > int (length raw) then Returned ''''
                else if sint bytesLen < 0 \<or> 2 ^ 48 < sint bytesLen then Panicked
                else (case scan_bytes (take (nat (sint dataEnd) - dataStart) (drop dataStart raw)) of
                    None \<Rightarrow> Returned ''''
                  | Some bs \<Rightarrow> Returned (map (\<lambda>b. char_of (unat b)) bs)))))"

text \<open>\<open>trim\<close> is \<open>TrimSpace\<close>.\<close>

definition trimRevertPrefix :: "(string \<Rightarrow> string) \<Rightarrow> string \<Rightarrow> string" where
  "trimRevertPrefix trim s =
     (if HasPrefix s ''execution reverted: '' then trim (TrimPrefix s ''execution reverted: '')
      else if HasPrefix s ''execution reverted'' then trim (TrimPrefix s ''execution reverted'')
      else s)"

section \<open>The two paths\<close>

text \<open>
  The fallback: \<open>call\<close> is the answer to the call, an error with its data or nothing;
  \<open>estimate\<close> and \<open>fees\<close> are the gas estimate and the fee quote. \<open>lower\<close> is \<open>ToLower\<close>.
\<close>

definition simulateETHCall ::
  "(string \<Rightarrow> string) \<Rightarrow> (string \<Rightarrow> string) \<Rightarrow> (err \<times> string option option) option \<Rightarrow> err + u64 \<Rightarrow> err + gas_info \<Rightarrow>
   (err, simulation_result) outcome" where
  "simulateETHCall trim lower call estimate fees =
     (case call of
        Some (e, data) \<Rightarrow>
          (case decodeRevert data of
             Panicked \<Rightarrow> Panicked
           | Failed x \<Rightarrow> Failed x
           | Returned reason \<Rightarrow>
               if reason \<noteq> '''' then Returned (zero_simulation\<lparr>sm_WillRevert := True, sm_RevertReason := reason\<rparr>)
               else if Contains (lower (Error_text e)) ''revert''
               then Returned (zero_simulation\<lparr>sm_WillRevert := True,
                      sm_RevertReason := trimRevertPrefix trim (Error_text e)\<rparr>)
               else Failed (errorf ''ethkit: simulate call: '' e))
      | None \<Rightarrow> (case estimate of
          Inl e \<Rightarrow> Failed (errorf ''ethkit: estimate gas: '' e)
        | Inr gasUnits \<Rightarrow> (case fees of
            Inl e \<Rightarrow> Failed (errorf ''ethkit: gas fees: '' e)
          | Inr gas \<Rightarrow> Returned (zero_simulation\<lparr>sm_GasUnits := gasUnits,
              sm_EstimatedCostWei := NewAmountFromWei (Some (Wei (MaxFee gas) * sint gasUnits))\<rparr>))))"

text \<open>The decoded response of alchemy_simulateAssetChanges.\<close>

record simulate_response =
  sp_Changes :: "asset_change list"
  sp_GasUsed :: string
  sp_Error :: "string option"

definition isMethodNotSupported :: "(string \<Rightarrow> string) \<Rightarrow> err option \<Rightarrow> bool" where
  "isMethodNotSupported lower e =
     (case e of None \<Rightarrow> False
      | Some x \<Rightarrow> (let msg = lower (Error_text x) in
          Contains msg ''method not found'' \<or> Contains msg ''not supported'' \<or> Contains msg ''does not support''))"

text \<open>\<open>Inr None\<close> asks for the fallback.\<close>

definition simulateAssetChanges ::
  "(string \<Rightarrow> string) \<Rightarrow> (string \<Rightarrow> string) \<Rightarrow> err + 'r \<Rightarrow> ('r \<Rightarrow> err + simulate_response) \<Rightarrow> err + gas_info \<Rightarrow>
   err + simulation_result option" where
  "simulateAssetChanges trim lower rpc unmarshal fees =
     (case rpc of
        Inl e \<Rightarrow> if isMethodNotSupported lower (Some e) then Inr None else Inl e
      | Inr raw \<Rightarrow>
        bindE (mapE (errorf ''ethkit: simulate decode: '') (unmarshal raw)) (\<lambda>resp.
        case sp_Error resp of
          Some m \<Rightarrow> Inr (Some (zero_simulation\<lparr>sm_WillRevert := True, sm_RevertReason := trimRevertPrefix trim m\<rparr>))
        | None \<Rightarrow> (case hexToUint64 (sp_GasUsed resp) of
            Inl e \<Rightarrow> Inr None
          | Inr gasUnits \<Rightarrow> bindE (mapE (errorf ''ethkit: gas fees: '') fees) (\<lambda>gas.
              Inr (Some (zero_simulation\<lparr>sm_GasUnits := gasUnits,
                sm_EstimatedCostWei := NewAmountFromWei (Some (Wei (MaxFee gas) * uint gasUnits)),
                sm_AssetChanges := sp_Changes resp\<rparr>))))))"

definition simulate_value :: "checksum \<Rightarrow> address \<Rightarrow> tx_request \<Rightarrow> (string \<times> string) list" where
  "simulate_value ck sender req =
     (let base = [(''from'', Hex ck sender), (''to'', Hex ck (rq_To req)), (''value'', bigToHex (Wei (rq_Value req)))]
      in if bytesToHex (rq_Data req) \<noteq> ''0x'' then base @ [(''data'', bytesToHex (rq_Data req))] else base)"

definition SimulateTx ::
  "(string \<Rightarrow> string) \<Rightarrow> (string \<Rightarrow> string) \<Rightarrow> checksum \<Rightarrow> string \<Rightarrow> ((string \<times> string) list \<Rightarrow> err + 'r) \<Rightarrow>
   ('r \<Rightarrow> err + simulate_response) \<Rightarrow> err + gas_info \<Rightarrow> (err \<times> string option option) option \<Rightarrow> err + u64 \<Rightarrow>
   err + gas_info \<Rightarrow> address \<Rightarrow> tx_request \<Rightarrow> (err, simulation_result) outcome" where
  "SimulateTx trim lower ck httpURL rpc unmarshal fees\<^sub>1 call estimate fees\<^sub>2 sender req =
     (let fallback = simulateETHCall trim lower call estimate fees\<^sub>2 in
      if httpURL \<noteq> ''''
      then (case simulateAssetChanges trim lower (rpc (simulate_value ck sender req)) unmarshal fees\<^sub>1 of
          Inl e \<Rightarrow> fallback
        | Inr (Some res) \<Rightarrow> Returned res
        | Inr None \<Rightarrow> fallback)
      else fallback)"

section \<open>Laws\<close>

lemma parse_base_fixed_hex: "w > 0 \<Longrightarrow> n < 16 ^ w \<Longrightarrow> parse_base 16 (fixed_hex w n) = Some n"
proof -
  assume "w > 0" "n < 16 ^ w"
  moreover from this have "fixed_hex w n \<noteq> []" by (cases w) auto
  ultimately show ?thesis by (simp add: parse_base_def parse_digits_fixed_hex)
qed

text \<open>
  Hex texts are read back: an amount that fits a uint64 survives \<open>bigToHex\<close>, and a
  number without digits reads as zero.
\<close>

theorem hex_roundtrip:
  assumes "0 \<le> n" "n < 2 ^ 64"
  shows "hexToUint64 (bigToHex n) = Inr (word_of_int n) \<and> hexToUint64 ''0x'' = Inr 0"
proof -
  have tp: "TrimPrefix (CHR ''0'' # CHR ''x'' # s) ''0x'' = s" for s
    using TrimPrefix_append [of "''0x''" s] by simp
  have "ParseUint 16 64 (show_base 16 (nat n)) = Some (nat n)"
    using assms by (simp add: ParseUint_def parse_base_show_base nat_less_iff)
  moreover have "hexToUint64 ''0x0'' = Inr 0"
    by (simp add: hexToUint64_def tp ParseUint_def parse_base_def digit_val_def Let_def)
  ultimately show ?thesis
    using assms by (auto simp: hexToUint64_def bigToHex_def tp)
qed

lemma hex_roundtrip_witness: "hexToUint64 (bigToHex 48879) = Inr 48879"
  using hex_roundtrip [of 48879] by simp

lemma hex_digit_char: "d < 16 \<Longrightarrow> hex_digit (digit_char d) = Some d"
  by (simp add: hex_digit_def digit_val_char)

lemma fixed_hex_2: "fixed_hex 2 n = [digit_char (n div 16 mod 16), digit_char (n mod 16)]"
  by (simp add: numeral_2_eq_2)

lemma scan_bytes_hex: "scan_bytes (bytesToHexString bs @ pad) = map_option ((@) bs) (scan_bytes pad)"
proof (induction bs)
  case Nil
  show ?case by (cases "scan_bytes pad") (simp_all add: bytesToHexString_def)
next
  case (Cons b bs)
  have b: "unat b < 256" using unsigned_less [of b, where ?'a = nat] by simp
  then have "unat b div 16 mod 16 * 16 + unat b mod 16 = unat b" by (simp add: div_mult_mod_eq less_mult_imp_div_less)
  then have "scan_byte (digit_char (unat b div 16 mod 16)) (digit_char (unat b mod 16)) = Some b"
    by (simp add: scan_byte_def hex_digit_char)
  then show ?case
    using Cons by (cases "scan_bytes pad") (simp_all add: bytesToHexString_def fixed_hex_2)
qed

lemma length_bytesToHexString: "length (bytesToHexString bs) = 2 * length bs"
  by (induction bs) (simp_all add: bytesToHexString_def)

lemma SetString_fixed_hex:
  assumes "w > 0" "n < 16 ^ w"
  shows "SetString 16 (fixed_hex w n) = Some (int n)"
proof -
  have p: "parse_base 16 (fixed_hex w n) = Some n" using assms by (rule parse_base_fixed_hex)
  obtain c cs where c: "fixed_hex w n = c # cs" using assms by (cases "fixed_hex w n") (cases w; simp)+
  then obtain d where "d < 16" "c = digit_char d" using set_fixed_hex [of c w n] by auto
  then have "c \<noteq> CHR ''-''" "c \<noteq> CHR ''+''" using digit_char_not_sign [of d] by auto
  with p show ?thesis by (simp add: SetString_def c)
qed

text \<open>The payload of a revert with a message: selector, offset word, length word, bytes, padding.\<close>

definition revert_payload :: "string \<Rightarrow> nat \<Rightarrow> u8 list \<Rightarrow> string \<Rightarrow> string" where
  "revert_payload offset len bs pad =
     ''0x08c379a0'' @ offset @ fixed_hex 64 len @ bytesToHexString bs @ pad"

lemma decodeRevert_payload:
  assumes "length offset = 64" "len < 2 ^ 256"
  shows "decodeRevert (Some (Some (revert_payload offset len bs pad))) =
    (let bytesLen = (word_of_nat len :: 64 word); dataEnd = (138 + bytesLen * 2 :: 64 word) in
     if sint dataEnd > int (138 + 2 * length bs + length pad) then Returned []
     else if sint bytesLen < 0 \<or> 2 ^ 48 < sint bytesLen then Panicked
     else (case scan_bytes (take (nat (sint dataEnd) - 138) (bytesToHexString bs @ pad)) of
         None \<Rightarrow> Returned []
       | Some bs \<Rightarrow> Returned (map (\<lambda>b. char_of (unat b)) bs)))"
proof -
  let ?raw = "revert_payload offset len bs pad"
  have lenraw: "length ?raw = 138 + 2 * length bs + length pad"
    using assms(1) by (simp add: revert_payload_def length_bytesToHexString)
  have word: "take 64 (drop 74 ?raw) = fixed_hex 64 len"
    using assms(1) by (simp add: revert_payload_def)
  have "(16 :: nat) ^ 64 = 2 ^ 256" by simp
  then have len: "SetString 16 (fixed_hex 64 len) = Some (int len)"
    using assms(2) by (intro SetString_fixed_hex) simp_all
  have rest: "drop 138 ?raw = bytesToHexString bs @ pad"
    using assms(1) by (simp add: revert_payload_def)
  have "HasPrefix ?raw ''0x08c379a0''" by (simp add: revert_payload_def HasPrefix_def)
  then show ?thesis
    by (simp add: decodeRevert_def lenraw word len rest dataStart_def Let_def)
qed

text \<open>
  C36. The reason of a revert with a message is read back: for a standard payload that
  carries the bytes \<open>bs\<close>, whatever its offset word and padding, the reason is \<open>bs\<close>.
\<close>

theorem decodeRevert_message:
  assumes "length offset = 64" "length bs < 2 ^ 32"
  shows "decodeRevert (Some (Some (revert_payload offset (length bs) bs pad)))
    = Returned (map (\<lambda>b. char_of (unat b)) bs)"
proof -
  let ?w = "word_of_nat (length bs) :: 64 word"
  have u: "uint ?w = int (length bs)" using assms(2) by (simp add: uint_nat unat_of_nat take_bit_nat_eq_self)
  have "uint (138 + ?w * 2) = 138 + 2 * int (length bs)"
    using assms(2) by (simp add: uint_word_ariths u)
  then have e: "sint (138 + ?w * 2) = 138 + 2 * int (length bs)"
    using assms(2) by (subst sint_u64) simp_all
  have w: "sint ?w = int (length bs)" using u assms(2) by (subst sint_u64) simp_all
  have "nat (138 + 2 * int (length bs)) - 138 = 2 * length bs" by simp
  then have "scan_bytes (take (nat (sint (138 + ?w * 2)) - 138) (bytesToHexString bs @ pad)) = Some bs"
    using scan_bytes_hex [of bs "[]"] by (simp add: e length_bytesToHexString)
  then show ?thesis
    using assms by (simp add: decodeRevert_payload e w Let_def)
qed

lemma decodeRevert_message_witness:
  "decodeRevert (Some (Some (revert_payload (replicate 64 (CHR ''0'')) 2 [79, 75] ''00'')))
     = Returned [char_of (79 :: nat), char_of (75 :: nat)]"
  using decodeRevert_message [of "replicate 64 (CHR ''0'')" "[79, 75]" "''00''"] by (simp flip: numeral_2_eq_2)

text \<open>
  A payload can crash the process: one whose length word is \<open>2 ^ 256 - 1\<close> reads as the
  length -1, which passes the bounds check and makes the allocation panic.
\<close>

theorem decodeRevert_panics:
  assumes "length offset = 64"
  shows "decodeRevert (Some (Some (revert_payload offset (2 ^ 256 - 1) bs pad))) = Panicked"
proof -
  have "(word_of_nat (2 ^ 256 - 1) :: 64 word) = - 1" by simp
  then show ?thesis using assms by (simp add: decodeRevert_payload Let_def)
qed

lemma decodeRevert_panics_witness:
  "decodeRevert (Some (Some (revert_payload (replicate 64 (CHR ''0'')) (2 ^ 256 - 1) [] []))) = Panicked"
  by (rule decodeRevert_panics) simp

end
