(* ===== verification/Cache.thy ===== *)
theory Cache
  imports Prelude
begin

text \<open>
  pkg/cache: the in-memory store with a time to live, its contract (the locale
  \<open>ttl_cache\<close>), and the stale-while-error pattern its clients follow. An operation that
  reads the clock takes the reading as an argument.
\<close>

record 'v entry =
  en_value :: 'v
  en_expiresAt :: time

record ('k, 'v) cache =
  ca_entries :: "('k, 'v entry) gomap"
  ca_ttl :: duration

definition New_cache :: "duration \<Rightarrow> ('k, 'v) cache" where
  "New_cache ttl = \<lparr>ca_entries = [], ca_ttl = ttl\<rparr>"

definition Get :: "time \<Rightarrow> 'k \<Rightarrow> ('k, 'v) cache \<Rightarrow> 'v option" where
  "Get now key c =
     (case map_of (ca_entries c) key of
        None \<Rightarrow> None
      | Some e \<Rightarrow> if now > en_expiresAt e then None else Some (en_value e))"

definition GetStale :: "'k \<Rightarrow> ('k, 'v) cache \<Rightarrow> 'v option" where
  "GetStale key c = map_option en_value (map_of (ca_entries c) key)"

definition Set_cache :: "time \<Rightarrow> 'k \<Rightarrow> 'v \<Rightarrow> ('k, 'v) cache \<Rightarrow> ('k, 'v) cache" where
  "Set_cache now key v c = c\<lparr>ca_entries :=
     AList.update key \<lparr>en_value = v, en_expiresAt = now + ca_ttl c\<rparr> (ca_entries c)\<rparr>"

definition Delete :: "'k \<Rightarrow> ('k, 'v) cache \<Rightarrow> ('k, 'v) cache" where
  "Delete key c = c\<lparr>ca_entries := AList.delete key (ca_entries c)\<rparr>"

definition Purge :: "time \<Rightarrow> ('k, 'v) cache \<Rightarrow> ('k, 'v) cache" where
  "Purge now c = c\<lparr>ca_entries := map_keep (\<lambda>e. \<not> now > en_expiresAt e) (ca_entries c)\<rparr>"

definition Len :: "('k, 'v) cache \<Rightarrow> nat" where
  "Len c = length (ca_entries c)"

section \<open>Stale while error\<close>

text \<open>
  The pattern: a fresh hit, else a fetch whose success is stored, else the stale value, else
  the default. \<open>answer\<close> is what the fetch would return now, \<open>now\<^sub>1\<close> and \<open>now\<^sub>2\<close> the clock at
  the lookup and at the store.
\<close>

definition fetch_through ::
  "(time \<Rightarrow> 'k \<Rightarrow> 's \<Rightarrow> 'v option) \<Rightarrow> ('k \<Rightarrow> 's \<Rightarrow> 'v option) \<Rightarrow> (time \<Rightarrow> 'k \<Rightarrow> 'v \<Rightarrow> 's \<Rightarrow> 's) \<Rightarrow> time \<Rightarrow> time \<Rightarrow>
   'k \<Rightarrow> 'v option \<Rightarrow> 'v \<Rightarrow> 's \<Rightarrow> 'v \<times> 's" where
  "fetch_through get stale put now\<^sub>1 now\<^sub>2 key answer dflt s =
     (case get now\<^sub>1 key s of
        Some v \<Rightarrow> (v, s)
      | None \<Rightarrow> (case answer of
          Some v \<Rightarrow> (v, put now\<^sub>2 key v s)
        | None \<Rightarrow> (case stale key s of Some v \<Rightarrow> (v, s) | None \<Rightarrow> (dflt, s))))"

text \<open>What the clients rely on.\<close>

locale ttl_cache =
  fixes get :: "time \<Rightarrow> 'k \<Rightarrow> 's \<Rightarrow> 'v option"
    and stale :: "'k \<Rightarrow> 's \<Rightarrow> 'v option"
    and set_v :: "time \<Rightarrow> 'k \<Rightarrow> 'v \<Rightarrow> 's \<Rightarrow> 's"
    and ttl :: "'s \<Rightarrow> duration"
  assumes get_stale: "get now k s = Some v \<Longrightarrow> stale k s = Some v"
    and get_set: "get now k (set_v t k v s) = (if now > t + ttl s then None else Some v)"
    and get_set_other: "k \<noteq> k' \<Longrightarrow> get now k (set_v t k' v s) = get now k s"
    and stale_set: "stale k (set_v t k' v s) = (if k = k' then Some v else stale k s)"
    and ttl_set: "ttl (set_v t k v s) = ttl s"
begin

text \<open>The answers a key has had so far, the latest first, over a run of lookups of any keys.\<close>

fun run :: "(time \<times> time \<times> 'k \<times> 'v option \<times> 'v) list \<Rightarrow> 's \<Rightarrow> 'v list \<times> 's" where
  "run [] s = ([], s)"
| "run ((t\<^sub>1, t\<^sub>2, k, a, d) # rest) s =
     (let (v, s') = fetch_through get stale set_v t\<^sub>1 t\<^sub>2 k a d s; (vs, s'') = run rest s' in (v # vs, s''))"

lemma fetch_through_keeps:
  assumes "stale k s = Some v" "fetch_through get stale set_v t\<^sub>1 t\<^sub>2 k' a d s = (w, s')"
  shows "stale k s' \<noteq> None" "k' = k \<Longrightarrow> stale k s' = Some w"
  using assms get_stale by (auto simp: fetch_through_def stale_set split: option.splits)

lemma fetch_through_known:
  assumes "stale k s = Some v" "fetch_through get stale set_v t\<^sub>1 t\<^sub>2 k a d s = (w, s')"
  shows "w = v \<or> a = Some w"
  using assms get_stale [of t\<^sub>1 k s] by (auto simp: fetch_through_def split: option.splits)

lemma fetch_through_fresh:
  assumes "fetch_through get stale set_v t\<^sub>1 t\<^sub>2 k (Some v) d s = (v, s')" "get t\<^sub>1 k s = None"
    and "t \<le> t\<^sub>2 + ttl s"
  shows "fetch_through get stale set_v t t' k a d' s' = (v, s')"
  using assms by (auto simp: fetch_through_def get_set ttl_set split: option.splits)

lemma run_keeps: "stale k s \<noteq> None \<Longrightarrow> stale k (snd (run calls s)) \<noteq> None"
proof (induction calls s rule: run.induct)
  case (2 t\<^sub>1 t\<^sub>2 k' a d rest s)
  obtain w s' where f: "fetch_through get stale set_v t\<^sub>1 t\<^sub>2 k' a d s = (w, s')" by force
  obtain v where "stale k s = Some v" using "2.prems" by blast
  then have "stale k s' \<noteq> None" using fetch_through_keeps(1) f by blast
  then show ?case using "2.IH" [OF f [symmetric] refl] f by (simp add: split_def Let_def)
qed simp

end

interpretation tc: ttl_cache Get GetStale Set_cache ca_ttl
  by unfold_locales
    (auto simp: Get_def GetStale_def Set_cache_def gomap_simps split: option.splits if_splits)

section \<open>The store\<close>

definition cache_inv :: "('k, 'v) cache \<Rightarrow> bool" where
  "cache_inv c \<longleftrightarrow> distinct (map fst (ca_entries c))"

lemma cache_inv_ops:
  "cache_inv (New_cache ttl)"
  "cache_inv c \<Longrightarrow> cache_inv (Set_cache now k v c)"
  "cache_inv c \<Longrightarrow> cache_inv (Delete k c)"
  "cache_inv c \<Longrightarrow> cache_inv (Purge now c)"
  by (simp_all add: cache_inv_def New_cache_def Set_cache_def Delete_def Purge_def AList.distinct_update
      AList.distinct_delete distinct_map_keep)

text \<open>
  The store behaves as a map whose entries expire. Purging removes exactly the entries
  that no lookup at that time would return, and no later lookup can tell; a deleted key is
  gone, even for a stale lookup, and a set one is readable for the store's time to live.
\<close>

theorem cache_laws:
  assumes "cache_inv c"
  shows "Get t k (Purge now c) = (if Get now k c = None then None else Get t k c)
    \<and> GetStale k (Purge now c) = Get now k c
    \<and> (now \<le> t \<longrightarrow> Get t k (Purge now c) = Get t k c)
    \<and> GetStale k (Delete k c) = None
    \<and> Get t k (Set_cache now k v c) = (if t > now + ca_ttl c then None else Some v)
    \<and> Len (Set_cache now k v c) = (if GetStale k c = None then Suc (Len c) else Len c)"
proof -
  have len: "length (AList.update k x m) = (if map_of m k = None then Suc (length m) else length m)" for x m
    by (induction m) auto
  have "map_of (ca_entries (Purge now c)) k = (case map_of (ca_entries c) k of None \<Rightarrow> None
      | Some e \<Rightarrow> if \<not> now > en_expiresAt e then Some e else None)"
    using assms by (simp add: Purge_def cache_inv_def map_of_map_keep)
  then show ?thesis
    by (auto simp: Get_def GetStale_def Delete_def Set_cache_def Len_def gomap_simps len
        split: option.splits)
qed

lemma cache_laws_witness:
  "Get 5 (0 :: nat) (Purge 3 (Set_cache 1 0 (7 :: nat) (New_cache 10))) = Some 7"
  using cache_laws [of "Set_cache 1 (0 :: nat) (7 :: nat) (New_cache 10)" 5 0 3 8]
  by (simp add: cache_inv_ops) (simp add: Get_def Set_cache_def New_cache_def)
end
