(* ===== verification/Prices.thy ===== *)
theory Prices
  imports Cache Strconv Errors "HOL-Library.Multiset"
begin

text \<open>
  internal/adapter/price/adapter.go: the price feed over three caches. A price is of an
  ordered type \<open>'f\<close> (a float64 decoded from JSON, which is never a NaN). The HTTP exchange
  is a parameter: its answer is a transport error, a status code, or a body that decodes or
  not. \<open>uni\<close> is the upper-casing of non-ASCII symbols; addresses are ASCII.
\<close>

datatype 'r http_answer = RequestError err | StatusCode int | Undecodable err | Body 'r

type_synonym 'f prices = "(string, 'f) gomap"

record 'f market_data =
  md_PriceUSD :: 'f
  md_Change24hPct :: 'f
  md_ChangePositive :: bool

type_synonym 'f token_prices = "(string, 'f market_data) gomap"

record 'f feed =
  fd_cache :: "(string, 'f prices) cache"
  fd_tokenCache :: "(string, 'f token_prices) cache"
  fd_sparklineCache :: "(string, 'f list) cache"
  fd_baseURL :: string
  fd_apiKey :: string
  fd_apiKeyName :: string
  fd_symbolToID :: "(string, string) gomap"

record price_config =
  pc_TTL :: duration
  pc_APIKey :: string
  pc_Plan :: string
  pc_SymbolToID :: "(string, string) gomap"

definition DefaultTTL :: duration where "DefaultTTL = 5 * Minute"
definition SparklineTTL :: duration where "SparklineTTL = 30 * Minute"
definition publicBaseURL :: string where "publicBaseURL = ''https://api.coingecko.com/api/v3''"
definition demoBaseURL :: string where "demoBaseURL = ''https://api.coingecko.com/api/v3''"
definition proBaseURL :: string where "proBaseURL = ''https://pro-api.coingecko.com/api/v3''"
definition cacheKey :: string where "cacheKey = ''prices''"

definition New_feed :: "(string \<Rightarrow> string) \<Rightarrow> price_config \<Rightarrow> 'f feed" where
  "New_feed uni cfg =
     (let ttl = (if pc_TTL cfg \<le> 0 then DefaultTTL else pc_TTL cfg);
          plan = ToLower (pc_Plan cfg);
          (baseURL, headerName) =
            (if pc_APIKey cfg \<noteq> '''' then
               (if plan = ''pro'' then (proBaseURL, ''x-cg-pro-api-key'')
                else if plan = ''demo'' \<or> plan = '''' then (demoBaseURL, ''x-cg-demo-api-key'')
                else (publicBaseURL, ''''))
             else (publicBaseURL, ''''))
      in \<lparr>fd_cache = New_cache ttl, fd_tokenCache = New_cache ttl, fd_sparklineCache = New_cache SparklineTTL,
          fd_baseURL = baseURL, fd_apiKey = pc_APIKey cfg, fd_apiKeyName = headerName,
          fd_symbolToID = fold (\<lambda>(k, v) m. AList.update (ToUpper_with uni k) v m) (pc_SymbolToID cfg) []\<rparr>)"

definition authHeaders :: "'f feed \<Rightarrow> (string \<times> string) list" where
  "authHeaders f = (if fd_apiKey f \<noteq> '''' \<and> fd_apiKeyName f \<noteq> '''' then [(fd_apiKeyName f, fd_apiKey f)] else [])
     @ [(''Accept'', ''application/json'')]"

section \<open>Fetching\<close>

definition answerE :: "string \<Rightarrow> 'r http_answer \<Rightarrow> err + 'r" where
  "answerE src a =
     (case a of
        RequestError e \<Rightarrow> Inl (WrapError (src @ '': request: '' @ Error_text e) [e])
      | StatusCode n \<Rightarrow> Inl (WrapError (src @ '': status '' @ show_int n) [])
      | Undecodable e \<Rightarrow> Inl (WrapError (src @ '': decode: '' @ Error_text e) [e])
      | Body r \<Rightarrow> Inr r)"

definition fetch :: "'f feed \<Rightarrow> (string, (string, 'f :: {zero, linorder}) gomap) gomap http_answer \<Rightarrow> err + 'f prices" where
  "fetch f answer =
     bindE (answerE ''pricefeed'' answer) (\<lambda>raw.
     Inr (fold (\<lambda>(sy, ident) result.
        (case Option.bind (map_of raw ident) (\<lambda>m. map_of m ''usd'') of
           Some usd \<Rightarrow> if usd > 0 then AList.update sy usd result else result
         | None \<Rightarrow> result)) (fd_symbolToID f) []))"

definition fetchTokenPrices ::
  "(string, (string, 'f :: {zero, linorder}) gomap) gomap http_answer \<Rightarrow> err + 'f token_prices" where
  "fetchTokenPrices answer =
     bindE (answerE ''pricefeed/token'' answer) (\<lambda>raw.
     Inr (fold (\<lambda>(addr, vals) out.
        (let change = the_default 0 (map_of vals ''usd_24h_change'') in
         AList.update (ToLower addr) \<lparr>md_PriceUSD = the_default 0 (map_of vals ''usd''),
           md_Change24hPct = change, md_ChangePositive = (change \<ge> 0)\<rparr> out)) raw []))"

definition fetchSparkline :: "('f \<times> 'f) list http_answer \<Rightarrow> err + 'f list" where
  "fetchSparkline answer = bindE (answerE ''pricefeed/sparkline'' answer) (\<lambda>points. Inr (map snd points))"

section \<open>Queries\<close>

definition filterSymbols :: "(string \<Rightarrow> string) \<Rightarrow> 'f prices \<Rightarrow> string list \<Rightarrow> 'f prices" where
  "filterSymbols uni all symbols =
     (if length symbols = 0 then all
      else fold (\<lambda>s out. case map_of all (ToUpper_with uni s) of
             Some p \<Rightarrow> AList.update (ToUpper_with uni s) p out | None \<Rightarrow> out) symbols [])"

definition GetPrices ::
  "(string \<Rightarrow> string) \<Rightarrow> time \<Rightarrow> time \<Rightarrow> (string, (string, 'f :: {zero, linorder}) gomap) gomap http_answer \<Rightarrow>
   string list \<Rightarrow> 'f feed \<Rightarrow> 'f prices \<times> 'f feed" where
  "GetPrices uni now\<^sub>1 now\<^sub>2 answer symbols f =
     (case Get now\<^sub>1 cacheKey (fd_cache f) of
        Some cached \<Rightarrow> (filterSymbols uni cached symbols, f)
      | None \<Rightarrow> (case fetch f answer of
          Inr fresh \<Rightarrow> (filterSymbols uni fresh symbols, f\<lparr>fd_cache := Set_cache now\<^sub>2 cacheKey fresh (fd_cache f)\<rparr>)
        | Inl e \<Rightarrow> (case GetStale cacheKey (fd_cache f) of
            Some stale \<Rightarrow> (filterSymbols uni stale symbols, f)
          | None \<Rightarrow> ([], f))))"

definition GetPrice ::
  "(string \<Rightarrow> string) \<Rightarrow> time \<Rightarrow> time \<Rightarrow> (string, (string, 'f :: {zero, linorder}) gomap) gomap http_answer \<Rightarrow>
   string \<Rightarrow> 'f feed \<Rightarrow> 'f \<times> 'f feed" where
  "GetPrice uni now\<^sub>1 now\<^sub>2 answer symbol f =
     (let (prices, f') = GetPrices uni now\<^sub>1 now\<^sub>2 answer [symbol] f
      in (the_default 0 (map_of prices (ToUpper_with uni symbol)), f'))"

text \<open>\<open>sift j\<close> is the inner loop of the insertion sort, at index \<open>j\<close>.\<close>

fun sift :: "nat \<Rightarrow> ('a :: linorder) list \<Rightarrow> 'a list" where
  "sift 0 xs = xs"
| "sift (Suc j) xs =
     (if xs ! Suc j < xs ! j then sift j (xs[Suc j := xs ! j, j := xs ! Suc j]) else xs)"

definition insertion_sort :: "('a :: linorder) list \<Rightarrow> 'a list" where
  "insertion_sort xs = fold sift [1..<length xs] xs"

fun uniq_loop :: "string list \<Rightarrow> string list \<Rightarrow> string list" where
  "uniq_loop out [] = out"
| "uniq_loop out (s # ss) =
     (let l = ToLower s in uniq_loop (if l \<in> set out then out else out @ [l]) ss)"

definition sortedUniq :: "string list \<Rightarrow> string list" where
  "sortedUniq ss = insertion_sort (uniq_loop [] ss)"

fun Join :: "string \<Rightarrow> string list \<Rightarrow> string" where
  "Join sep [] = ''''"
| "Join sep [x] = x"
| "Join sep (x # y # xs) = x @ sep @ Join sep (y # xs)"

definition token_key :: "string list \<Rightarrow> string" where
  "token_key addresses = ''tok:'' @ Join '','' (sortedUniq addresses)"

definition GetTokenPrices ::
  "time \<Rightarrow> time \<Rightarrow> (string, (string, 'f :: {zero, linorder}) gomap) gomap http_answer \<Rightarrow> string list \<Rightarrow> 'f feed \<Rightarrow>
   'f token_prices \<times> 'f feed" where
  "GetTokenPrices now\<^sub>1 now\<^sub>2 answer addresses f =
     (if length addresses = 0 then ([], f)
      else let cacheK = token_key addresses in
        (case Get now\<^sub>1 cacheK (fd_tokenCache f) of
           Some cached \<Rightarrow> (cached, f)
         | None \<Rightarrow> (case fetchTokenPrices answer of
             Inr result \<Rightarrow> (result, f\<lparr>fd_tokenCache := Set_cache now\<^sub>2 cacheK result (fd_tokenCache f)\<rparr>)
           | Inl e \<Rightarrow> (case GetStale cacheK (fd_tokenCache f) of
               Some stale \<Rightarrow> (stale, f) | None \<Rightarrow> ([], f)))))"

definition sparkline_key :: "string \<Rightarrow> int \<Rightarrow> string" where
  "sparkline_key contractAddress days = ToLower contractAddress @ '':'' @ show_int days @ ''d''"

definition GetSparkline ::
  "time \<Rightarrow> time \<Rightarrow> ('f \<times> 'f) list http_answer \<Rightarrow> string \<Rightarrow> int \<Rightarrow> 'f feed \<Rightarrow> 'f list \<times> 'f feed" where
  "GetSparkline now\<^sub>1 now\<^sub>2 answer contractAddress days f =
     (let key = sparkline_key contractAddress days in
      case Get now\<^sub>1 key (fd_sparklineCache f) of
        Some cached \<Rightarrow> (cached, f)
      | None \<Rightarrow> (case fetchSparkline answer of
          Inr points \<Rightarrow>
            if length points > 0
            then (points, f\<lparr>fd_sparklineCache := Set_cache now\<^sub>2 key points (fd_sparklineCache f)\<rparr>)
            else (case GetStale key (fd_sparklineCache f) of Some stale \<Rightarrow> (stale, f) | None \<Rightarrow> ([], f))
        | Inl e \<Rightarrow> (case GetStale key (fd_sparklineCache f) of Some stale \<Rightarrow> (stale, f) | None \<Rightarrow> ([], f))))"

record priceable_token =
  pt_Symbol :: string
  pt_Address :: string

text \<open>The two answers are those of the symbol and of the address endpoint.\<close>

definition GetPricesForTokens ::
  "(string \<Rightarrow> string) \<Rightarrow> time \<times> time \<Rightarrow> time \<times> time \<Rightarrow>
   (string, (string, 'f :: {zero, linorder}) gomap) gomap http_answer \<Rightarrow>
   (string, (string, 'f) gomap) gomap http_answer \<Rightarrow> priceable_token list \<Rightarrow> 'f feed \<Rightarrow> 'f prices \<times> 'f feed" where
  "GetPricesForTokens uni clock\<^sub>1 clock\<^sub>2 answer\<^sub>1 answer\<^sub>2 tokens f =
     (if length tokens = 0 then ([], f)
      else
       (let native = map pt_Symbol (filter (\<lambda>t. pt_Address t = '''') tokens);
            erc20 = filter (\<lambda>t. pt_Address t \<noteq> '''') tokens;
            addresses = map (\<lambda>t. ToLower (pt_Address t)) erc20;
            addrToSym = fold (\<lambda>t m. AList.update (ToLower (pt_Address t)) (ToUpper_with uni (pt_Symbol t)) m) erc20 [];
            (out1, f1) = (if length native > 0
               then (let (ps, f') = GetPrices uni (fst clock\<^sub>1) (snd clock\<^sub>1) answer\<^sub>1 native f
                     in (fold (\<lambda>(s, p) m. AList.update s p m) ps [], f'))
               else ([], f))
        in if length addresses > 0
           then (let (tps, f2) = GetTokenPrices (fst clock\<^sub>2) (snd clock\<^sub>2) answer\<^sub>2 addresses f1
                 in (fold (\<lambda>(addr, md) out.
                       if md_PriceUSD md = 0 then out
                       else (case map_of addrToSym addr of
                           Some sy \<Rightarrow> AList.update sy (md_PriceUSD md) out | None \<Rightarrow> out)) tps out1, f2))
           else (out1, f1)))"

section \<open>The cache key\<close>

lemma sift_insert:
  assumes "sorted ys"
  shows "\<exists>ws. sift (length ys) (ys @ x # zs) = ws @ zs \<and> sorted ws \<and> mset ws = add_mset x (mset ys)"
  using assms
proof (induction ys arbitrary: zs rule: rev_induct)
  case Nil
  show ?case by (intro exI [of _ "[x]"]) simp
next
  case (snoc y ys)
  have nth: "(ys @ y # x # zs) ! Suc (length ys) = x" "(ys @ y # x # zs) ! length ys = y"
    by (simp_all add: nth_append)
  show ?case
  proof (cases "x < y")
    case True
    have "(ys @ y # x # zs)[Suc (length ys) := y, length ys := x] = ys @ x # y # zs"
      by (simp add: list_update_append)
    then have step: "sift (Suc (length ys)) (ys @ y # x # zs) = sift (length ys) (ys @ x # y # zs)"
      using True by (simp add: nth del: list_update_append)
    obtain ws where ws: "sift (length ys) (ys @ x # y # zs) = ws @ y # zs" "sorted ws"
        "mset ws = add_mset x (mset ys)"
      using snoc.IH [of "y # zs"] snoc.prems by (auto simp: sorted_append)
    have "set ws = insert x (set ys)" using arg_cong [OF ws(3), of set_mset] by simp
    then have "sorted (ws @ [y])" using ws(2) snoc.prems True by (auto simp: sorted_append)
    with ws step show ?thesis by (intro exI [of _ "ws @ [y]"]) simp
  next
    case False
    then have "sift (Suc (length ys)) (ys @ y # x # zs) = ys @ y # x # zs" by (simp add: nth)
    moreover have "sorted (ys @ [y, x])" using snoc.prems False by (auto simp: sorted_append)
    ultimately show ?thesis by (intro exI [of _ "ys @ [y, x]"]) simp
  qed
qed

lemma fold_sift:
  "k \<le> length xs \<Longrightarrow> \<exists>ws. fold sift [0..<k] xs = ws @ drop k xs \<and> sorted ws \<and> mset ws = mset (take k xs)"
proof (induction k)
  case (Suc k)
  then obtain ws where ws: "fold sift [0..<k] xs = ws @ drop k xs" "sorted ws" "mset ws = mset (take k xs)"
    by auto
  have len: "length ws = k" using arg_cong [OF ws(3), of size] Suc.prems by simp
  have d: "drop k xs = xs ! k # drop (Suc k) xs" using Suc.prems by (simp add: Cons_nth_drop_Suc)
  obtain vs where "sift k (ws @ xs ! k # drop (Suc k) xs) = vs @ drop (Suc k) xs" "sorted vs"
      "mset vs = add_mset (xs ! k) (mset ws)"
    using sift_insert [OF ws(2)] unfolding len by blast
  moreover have "mset (take (Suc k) xs) = add_mset (xs ! k) (mset (take k xs))"
    using Suc.prems by (simp add: take_Suc_conv_app_nth)
  ultimately show ?case using ws d by auto
qed simp

lemma insertion_sort_sorts: "sorted (insertion_sort xs)" "mset (insertion_sort xs) = mset xs"
proof -
  have eq: "insertion_sort xs = fold sift [0..<length xs] xs"
    by (cases xs) (simp_all add: insertion_sort_def upt_conv_Cons del: upt_Suc)
  obtain ws where "fold sift [0..<length xs] xs = ws" "sorted ws" "mset ws = mset xs"
    using fold_sift [of "length xs" xs] by auto
  then show "sorted (insertion_sort xs)" "mset (insertion_sort xs) = mset xs" by (simp_all add: eq)
qed

lemma uniq_loop_set:
  "distinct out \<Longrightarrow> distinct (uniq_loop out ss) \<and> set (uniq_loop out ss) = set out \<union> ToLower ` set ss"
  by (induction out ss rule: uniq_loop.induct) (auto simp: Let_def)

text \<open>
  The key of the per-address cache does not depend on the order, the letter case or the
  repetition of the addresses: the insertion sort of the deduplicated list is the sorted
  list of the set of lower-case addresses.
\<close>

theorem sortedUniq_canonical:
  "sortedUniq ss = sorted_list_of_set (ToLower ` set ss)"
proof -
  have u: "distinct (uniq_loop [] ss)" "set (uniq_loop [] ss) = ToLower ` set ss"
    using uniq_loop_set [of "[]" ss] by simp_all
  have "sorted (sortedUniq ss)" "mset (sortedUniq ss) = mset (uniq_loop [] ss)"
    by (simp_all add: sortedUniq_def insertion_sort_sorts)
  moreover from this have "distinct (sortedUniq ss)" "set (sortedUniq ss) = ToLower ` set ss"
    using u mset_eq_imp_distinct_iff mset_eq_setD by metis+
  ultimately show ?thesis by (metis sorted_list_of_set.idem_if_sorted_distinct)
qed

section \<open>Stale while error\<close>

lemma fold_const: "fold (\<lambda>s out. out) xs m = m"
  by (induction xs) simp_all

lemma filterSymbols_Nil [simp]: "filterSymbols uni [] symbols = []"
  by (simp add: filterSymbols_def fold_const)

lemma GetPrices_pattern:
  "GetPrices uni now\<^sub>1 now\<^sub>2 answer symbols f =
     (let a = (case fetch f answer of Inr v \<Rightarrow> Some v | Inl e \<Rightarrow> None);
          (v, c) = fetch_through Get GetStale Set_cache now\<^sub>1 now\<^sub>2 cacheKey a [] (fd_cache f)
      in (filterSymbols uni v symbols, f\<lparr>fd_cache := c\<rparr>))"
  by (auto simp: GetPrices_def fetch_through_def split: option.splits sum.splits)

text \<open>
  C33. Prices do not disappear. Once a fetch has succeeded, a query answers with the last known
  prices or with newly fetched ones, and what it answered with is what is known afterwards;
  within the time to live after a fetch, queries give the same prices whatever the service
  would answer.
\<close>

theorem GetPrices_stale_while_error:
  assumes "GetStale cacheKey (fd_cache f) = Some known"
    and "GetPrices uni t\<^sub>1 t\<^sub>2 answer symbols f = (ps, f')"
  shows "(ps = filterSymbols uni known symbols \<and> f' = f
       \<or> (\<exists>fresh. fetch f answer = Inr fresh \<and> ps = filterSymbols uni fresh symbols
            \<and> GetStale cacheKey (fd_cache f') = Some fresh
            \<and> (t \<le> t\<^sub>2 + ca_ttl (fd_cache f) \<longrightarrow> GetPrices uni t t' answer' symbols f' = (ps, f'))))
    \<and> GetStale cacheKey (fd_cache f') \<noteq> None"
proof -
  let ?a = "case fetch f answer of Inr v \<Rightarrow> Some v | Inl e \<Rightarrow> None"
  let ?ft = "fetch_through Get GetStale Set_cache"
  obtain v c where ft: "?ft t\<^sub>1 t\<^sub>2 cacheKey ?a [] (fd_cache f) = (v, c)" by force
  have r: "ps = filterSymbols uni v symbols" "f' = f\<lparr>fd_cache := c\<rparr>"
    using assms(2) ft by (simp_all add: GetPrices_pattern Let_def)
  have keep: "GetStale cacheKey c = Some v" using tc.fetch_through_keeps(2) [OF assms(1) ft] by simp
  show ?thesis
  proof (cases "Get t\<^sub>1 cacheKey (fd_cache f) = None \<and> ?a \<noteq> None")
    case True
    then obtain fresh where fr: "fetch f answer = Inr fresh" by (auto split: sum.splits)
    with ft True have v: "v = fresh" by (simp add: fetch_through_def)
    from fr ft True v have "?ft t\<^sub>1 t\<^sub>2 cacheKey (Some v) [] (fd_cache f) = (v, c)" by simp
    note again = tc.fetch_through_fresh [OF this conjunct1 [OF True]]
    have "GetPrices uni t t' answer' symbols f' = (ps, f')" if "t \<le> t\<^sub>2 + ca_ttl (fd_cache f)"
      using again [OF that] by (simp add: GetPrices_pattern r)
    with fr keep v r show ?thesis by simp
  next
    case False
    then have "v = known \<and> c = fd_cache f"
      using ft assms(1) tc.get_stale [of t\<^sub>1 cacheKey "fd_cache f"]
      by (auto simp: fetch_through_def split: option.splits sum.splits)
    with keep r show ?thesis by simp
  qed
qed

definition sample_feed :: "int feed" where
  "sample_feed = (New_feed (\<lambda>s. s) \<lparr>pc_TTL = 0, pc_APIKey = [], pc_Plan = [], pc_SymbolToID = [(''eth'', ''ethereum'')]\<rparr>)
     \<lparr>fd_cache := Set_cache 0 cacheKey [(''ETH'', 2000)] (New_cache DefaultTTL)\<rparr>"

lemma GetPrices_stale_while_error_witness:
  "fst (GetPrices (\<lambda>s. s) (6 * Minute) (6 * Minute) (StatusCode 429) [''eth''] sample_feed) = [(''ETH'', 2000)]"
proof -
  obtain ps f' where g: "GetPrices (\<lambda>s. s) (6 * Minute) (6 * Minute) (StatusCode 429) [''eth''] sample_feed = (ps, f')"
    by force
  have k: "GetStale cacheKey (fd_cache sample_feed) = Some [(''ETH'', 2000)]"
    by (simp add: sample_feed_def GetStale_def Set_cache_def New_cache_def)
  have "fetch sample_feed (StatusCode 429) = Inl (WrapError (''pricefeed: status '' @ show_int 429) [])"
    by (simp add: fetch_def answerE_def)
  moreover have "filterSymbols (\<lambda>s. s) [(''ETH'', 2000 :: int)] [''eth''] = [(''ETH'', 2000)]"
  proof -
    have "ToUpper ''eth'' = ''ETH''" by code_simp
    then show ?thesis by (simp add: filterSymbols_def ToUpper_with_def is_ascii_def)
  qed
  ultimately show ?thesis using GetPrices_stale_while_error [OF k g] g by simp
qed

end
