(* ===== verification/Retry.thy ===== *)
theory Retry
  imports Errors Strconv
begin

text \<open>
  pkg/common/retryx: retries with exponential backoff and jitter. The operation acts on a
  state; \<open>cancelled k\<close> is the context's error if it ends during the wait after attempt
  \<open>k\<close>. A policy without a bound may retry for ever, so the loop is a partial
  function: not returning is \<open>None\<close>.

  The backoff is computed in float64 by the code; it is the exact product here, which is
  what the float holds for base delays below \<open>2 ^ 53\<close> nanoseconds. A product beyond an
  int64 exceeds every MaxDelay, as its conversion does in the code.
\<close>

record retry_config =
  BaseDelay :: duration
  MaxDelay :: duration
  MaxRetries :: int

definition Millisecond :: duration where "Millisecond = 1000000"

definition default_config :: retry_config where
  "default_config = \<lparr>BaseDelay = 100 * Millisecond, MaxDelay = 10 * Second, MaxRetries = 3\<rparr>"

text \<open>The options.\<close>

definition WithBaseDelay :: "duration \<Rightarrow> retry_config \<Rightarrow> retry_config" where
  "WithBaseDelay d c = c\<lparr>BaseDelay := d\<rparr>"

definition WithMaxRetries :: "int \<Rightarrow> retry_config \<Rightarrow> retry_config" where
  "WithMaxRetries n c = c\<lparr>MaxRetries := n\<rparr>"

definition validate :: "retry_config \<Rightarrow> err option" where
  "validate c =
     (if BaseDelay c \<le> 0 then Some (Sentinel ''base delay must be positive'')
      else if MaxDelay c \<le> 0 then Some (Sentinel ''max delay must be positive'')
      else if MaxDelay c < BaseDelay c then Some (Sentinel ''max delay must be >= base delay'')
      else None)"

text \<open>\<open>rand\<close> is the random source: a number below its argument.\<close>

definition calculateDelay :: "(int \<Rightarrow> int) \<Rightarrow> retry_config \<Rightarrow> nat \<Rightarrow> duration" where
  "calculateDelay rand cfg attempt =
     (let backoff0 = BaseDelay cfg * 2 ^ attempt;
          backoff = (if backoff0 > MaxDelay cfg \<or> backoff0 \<le> 0 then MaxDelay cfg else backoff0)
      in if backoff \<le> BaseDelay cfg then BaseDelay cfg
         else BaseDelay cfg + rand (backoff - BaseDelay cfg))"

definition exceeded :: "int \<Rightarrow> err \<Rightarrow> err" where
  "exceeded n e = WrapError (''max retries ('' @ show_int n @ '') exceeded: '' @ Error_text e) [e]"

definition cancelled_retry :: "err \<Rightarrow> err" where
  "cancelled_retry e = WrapError (''context cancelled during retry: '' @ Error_text e) [e]"

partial_function (option) retry_loop ::
  "('s \<Rightarrow> err option \<times> 's) \<Rightarrow> (nat \<Rightarrow> err option) \<Rightarrow> int \<Rightarrow> nat \<Rightarrow> 's \<Rightarrow> (err option \<times> 's) option" where
  "retry_loop oper cancelled maxRetries attempt s =
     (case oper s of
        (None, s') \<Rightarrow> Some (None, s')
      | (Some e, s') \<Rightarrow>
          if 0 \<le> maxRetries \<and> maxRetries \<le> int attempt then Some (Some (exceeded maxRetries e), s')
          else (case cancelled attempt of
                  Some c \<Rightarrow> Some (Some (cancelled_retry c), s')
                | None \<Rightarrow> retry_loop oper cancelled maxRetries (Suc attempt) s'))"

definition Do ::
  "retry_config \<Rightarrow> ('s \<Rightarrow> err option \<times> 's) \<Rightarrow> (nat \<Rightarrow> err option) \<Rightarrow> 's \<Rightarrow> (err option \<times> 's) option" where
  "Do cfg oper cancelled s =
     (case validate cfg of
        Some e \<Rightarrow> Some (Some e, s)
      | None \<Rightarrow> retry_loop oper cancelled (MaxRetries cfg) 0 s)"

text \<open>The default of the Ethereum client: one call.\<close>

definition directRetrier :: "('s \<Rightarrow> err option \<times> 's) \<Rightarrow> 's \<Rightarrow> err option \<times> 's" where
  "directRetrier fn s = fn s"

section \<open>Laws\<close>

text \<open>An operation that counts its calls and answers the k-th one with \<open>ans k\<close>.\<close>

definition counting :: "(nat \<Rightarrow> err option) \<Rightarrow> nat \<Rightarrow> err option \<times> nat" where
  "counting ans k = (ans k, Suc k)"

lemma retry_loop_counting:
  assumes "int attempt \<le> n"
  shows "\<exists>r k. retry_loop (counting ans) cancelled n attempt attempt = Some (r, k)
    \<and> attempt < k \<and> int k \<le> n + 1
    \<and> (\<forall>j. attempt \<le> j \<and> j < k - 1 \<longrightarrow> ans j \<noteq> None)
    \<and> (r = None \<longleftrightarrow> ans (k - 1) = None)
    \<and> (int k < n + 1 \<and> r \<noteq> None \<longrightarrow> cancelled (k - 1) \<noteq> None)"
  using assms
proof (induction "nat (n - int attempt)" arbitrary: attempt)
  case 0
  then have "int attempt = n" by simp
  then show ?case
    by (cases "ans attempt") (auto simp: retry_loop.simps [of _ _ n attempt] counting_def)
next
  case (Suc d)
  then have lt: "int attempt < n" by simp
  show ?case
  proof (cases "ans attempt = None \<or> cancelled attempt \<noteq> None")
    case True
    then show ?thesis
      using lt by (auto simp: retry_loop.simps [of _ _ n attempt] counting_def split: option.splits)
  next
    case False
    have step: "retry_loop (counting ans) cancelled n attempt attempt
        = retry_loop (counting ans) cancelled n (Suc attempt) (Suc attempt)"
      using False lt by (auto simp: retry_loop.simps [of _ _ n attempt] counting_def)
    obtain r k where IH: "retry_loop (counting ans) cancelled n (Suc attempt) (Suc attempt) = Some (r, k)"
        "Suc attempt < k" "int k \<le> n + 1" "\<forall>j. Suc attempt \<le> j \<and> j < k - 1 \<longrightarrow> ans j \<noteq> None"
        "r = None \<longleftrightarrow> ans (k - 1) = None" "int k < n + 1 \<and> r \<noteq> None \<longrightarrow> cancelled (k - 1) \<noteq> None"
      using Suc.hyps(1) [of "Suc attempt"] Suc.hyps(2) lt by force
    have "\<forall>j. attempt \<le> j \<and> j < k - 1 \<longrightarrow> ans j \<noteq> None"
      using IH(4) False by (metis Suc_leI le_neq_implies_less)
    with IH step show ?thesis by (intro exI [of _ r] exI [of _ k]) auto
  qed
qed

text \<open>
  C34. With a valid policy of \<open>n\<close> retries, \<open>Do\<close> returns after at least one and at most
  \<open>n + 1\<close> calls. All calls but the last have failed; it reports success exactly when the
  last call succeeded, and gives up early only when the context ended during a wait.
\<close>

theorem retry_bounded:
  assumes "validate cfg = None" "0 \<le> MaxRetries cfg"
  shows "\<exists>r k. Do cfg (counting ans) cancelled 0 = Some (r, k)
    \<and> 0 < k \<and> int k \<le> MaxRetries cfg + 1
    \<and> (\<forall>j < k - 1. ans j \<noteq> None)
    \<and> (r = None \<longleftrightarrow> ans (k - 1) = None)
    \<and> (int k < MaxRetries cfg + 1 \<and> r \<noteq> None \<longrightarrow> cancelled (k - 1) \<noteq> None)"
  using retry_loop_counting [of 0 "MaxRetries cfg" ans cancelled] assms by (simp add: Do_def)

lemma retry_bounded_witness:
  "\<exists>r k. Do (WithMaxRetries 2 default_config) (counting (\<lambda>k. if k < 2 then Some (Sentinel ''x'') else None))
     (\<lambda>_. None) 0 = Some (r, k) \<and> 0 < k \<and> k \<le> 3"
  using retry_bounded [of "WithMaxRetries 2 default_config"
      "\<lambda>k. if k < 2 then Some (Sentinel ''x'') else None" "\<lambda>_. None"]
  by (force simp: validate_def default_config_def WithMaxRetries_def Millisecond_def Second_def)

text \<open>
  A delay lies between the base and the maximum delay, whatever the attempt and the
  random source.
\<close>

theorem delay_bounds:
  assumes "validate cfg = None" "\<And>n. 0 < n \<Longrightarrow> 0 \<le> rand n \<and> rand n < n"
  shows "BaseDelay cfg \<le> calculateDelay rand cfg attempt \<and> calculateDelay rand cfg attempt \<le> MaxDelay cfg"
proof -
  have c: "0 < BaseDelay cfg" "BaseDelay cfg \<le> MaxDelay cfg"
    using assms(1) by (auto simp: validate_def split: if_splits)
  show ?thesis
    using assms(2) [of "BaseDelay cfg * 2 ^ attempt - BaseDelay cfg"]
      assms(2) [of "MaxDelay cfg - BaseDelay cfg"] c
    by (auto simp: calculateDelay_def Let_def)
qed

lemma delay_bounds_witness:
  "calculateDelay (\<lambda>n. n div 2) default_config 3 \<le> 10 * Second"
  using delay_bounds [of default_config "\<lambda>n. n div 2" 3]
  by (simp add: validate_def default_config_def Millisecond_def Second_def)

end
