(* ===== verification/Repository.thy ===== *)
theory Repository
  imports Errors Addresses "HOL-Library.Multiset"
begin

text \<open>
  The repositories of the domain packages: entities with an identifier and a unique
  address. The locale is the contract the usecases rely on: \<open>book\<close> reads a state as the map
  from identifiers to entities, and the laws say what the operations do to it when no
  statement fails. Statement failures are part of each storage's own operations.
\<close>

section \<open>The driver\<close>

text \<open>
  \<open>sql.ErrNoRows\<close>, and SQLite's message for a violated unique column, with the check the
  storages make on it.
\<close>

definition ErrNoRows :: err where "ErrNoRows = Sentinel ''sql: no rows in result set''"

definition unique_violation :: "string \<Rightarrow> err" where
  "unique_violation column = WrapError (''UNIQUE constraint failed: '' @ column) []"

definition isUniqueConstraint :: "err option \<Rightarrow> bool" where
  "isUniqueConstraint e =
     (case e of None \<Rightarrow> False | Some x \<Rightarrow> Contains (Error_text x) ''UNIQUE constraint failed'')"

lemma Contains_append: "Contains (p @ s) p"
  using HasPrefix_append [of p s] by (cases "p @ s") (simp_all del: HasPrefix_append)

lemma isUniqueConstraint_violation [simp]: "isUniqueConstraint (Some (unique_violation column))"
  using Contains_append [of "''UNIQUE constraint failed''" "'': '' @ column"]
  by (simp add: isUniqueConstraint_def unique_violation_def)

text \<open>A boolean column.\<close>

definition boolToInt :: "bool \<Rightarrow> int" where "boolToInt b = (if b then 1 else 0)"

lemma boolToInt_iff [simp]: "boolToInt b \<noteq> 0 \<longleftrightarrow> b" "boolToInt b = 0 \<longleftrightarrow> \<not> b"
  "boolToInt b = boolToInt c \<longleftrightarrow> b = c"
  by (simp_all add: boolToInt_def)

text \<open>
  Reading the rows of a query: the first row that does not scan ends it, and an error of the
  iteration itself is reported after the last row.
\<close>

fun scan_rows :: "('r \<Rightarrow> err + 'e) \<Rightarrow> 'r list \<Rightarrow> err + 'e list" where
  "scan_rows scan [] = Inr []"
| "scan_rows scan (r # rs) = bindE (scan r) (\<lambda>e. bindE (scan_rows scan rs) (\<lambda>es. Inr (e # es)))"

definition read_rows :: "('r \<Rightarrow> err + 'e) \<Rightarrow> err option \<Rightarrow> 'r list \<Rightarrow> err + 'e list" where
  "read_rows scan iterErr rs =
     bindE (scan_rows scan rs) (\<lambda>es. case iterErr of Some e \<Rightarrow> Inl e | None \<Rightarrow> Inr es)"

lemma scan_rows_map: "(\<And>e. scan (f e) = Inr e) \<Longrightarrow> scan_rows scan (map f es) = Inr es"
  by (induction es) auto

lemma sort_key_map: "sort_key k (map f es) = map f (sort_key (\<lambda>e. k (f e)) es)"
proof (rule properties_for_sort_key)
  show "mset (map f (sort_key (\<lambda>e. k (f e)) es)) = mset (map f es)" by simp
  show "sorted (map k (map f (sort_key (\<lambda>e. k (f e)) es)))"
    by (simp add: o_def)
  fix x assume "x \<in> set (map f (sort_key (\<lambda>e. k (f e)) es))"
  show "filter (\<lambda>y. k x = k y) (map f (sort_key (\<lambda>e. k (f e)) es)) = filter (\<lambda>y. k x = k y) (map f es)"
    using sort_key_stable [of "\<lambda>e. k (f e)" "k x" es] by (simp add: filter_map o_def eq_commute)
qed

section \<open>The contract\<close>

locale repository =
  fixes ident :: "'e \<Rightarrow> string" and addr :: "'e \<Rightarrow> address"
    and create :: "'e \<Rightarrow> 's \<Rightarrow> err option \<times> 's"
    and by_id :: "string \<Rightarrow> 's \<Rightarrow> err + 'e"
    and remove :: "string \<Rightarrow> 's \<Rightarrow> err option \<times> 's"
    and list_all :: "'s \<Rightarrow> err + 'e list"
    and book :: "'s \<Rightarrow> string \<Rightarrow> 'e option"
    and ok :: "'s \<Rightarrow> bool"
    and missing taken :: err
  assumes book_ident: "ok s \<Longrightarrow> book s i = Some e \<Longrightarrow> ident e = i"
    and book_addr: "ok s \<Longrightarrow> book s i = Some e \<Longrightarrow> book s j = Some e' \<Longrightarrow> addr e = addr e' \<Longrightarrow> i = j"
    and by_id_book: "ok s \<Longrightarrow> by_id i s = (case book s i of None \<Rightarrow> Inl missing | Some e \<Rightarrow> Inr e)"
    and create_free: "ok s \<Longrightarrow> book s (ident e) = None \<Longrightarrow> \<forall>e' \<in> ran (book s). addr e' \<noteq> addr e \<Longrightarrow>
        \<exists>s'. create e s = (None, s') \<and> ok s' \<and> book s' = (book s)(ident e \<mapsto> e)"
    and create_taken: "ok s \<Longrightarrow> book s (ident e) \<noteq> None \<or> (\<exists>e' \<in> ran (book s). addr e' = addr e) \<Longrightarrow>
        create e s = (Some taken, s)"
    and remove_present: "ok s \<Longrightarrow> book s i \<noteq> None \<Longrightarrow>
        \<exists>s'. remove i s = (None, s') \<and> ok s' \<and> book s' = (book s)(i := None)"
    and remove_missing: "ok s \<Longrightarrow> book s i = None \<Longrightarrow> remove i s = (Some missing, s)"
    and list_book: "ok s \<Longrightarrow> \<exists>es. list_all s = Inr es \<and> set es = ran (book s) \<and> distinct (map ident es)"
begin

lemma create_cases:
  assumes "ok s"
  obtains (free) s' where "create e s = (None, s')" "ok s'" "book s' = (book s)(ident e \<mapsto> e)"
      "book s (ident e) = None" "\<forall>e' \<in> ran (book s). addr e' \<noteq> addr e"
    | (taken) "create e s = (Some taken, s)"
      "\<not> (book s (ident e) = None \<and> (\<forall>e' \<in> ran (book s). addr e' \<noteq> addr e))"
proof (cases "book s (ident e) = None \<and> (\<forall>e' \<in> ran (book s). addr e' \<noteq> addr e)")
  case True
  then show thesis using create_free [OF assms, of e] that(1) by blast
next
  case False
  then show thesis using create_taken [OF assms, of e] that(2) by blast
qed

lemma create_ok: "ok s \<Longrightarrow> ok (snd (create e s))"
  by (rule create_cases [of s e]) simp_all

lemma remove_cases:
  assumes "ok s"
  obtains (present) s' where "remove i s = (None, s')" "ok s'" "book s' = (book s)(i := None)" "book s i \<noteq> None"
    | (missing) "remove i s = (Some missing, s)" "book s i = None"
proof (cases "book s i = None")
  case True
  then show thesis using remove_missing [OF assms] that(2) by blast
next
  case False
  then show thesis using remove_present [OF assms] that(1) by blast
qed

lemma remove_ok: "ok s \<Longrightarrow> ok (snd (remove i s))"
  by (rule remove_cases [of s i]) simp_all

lemma create_None_iff:
  assumes "ok s"
  shows "fst (create e s) = None \<longleftrightarrow> book s (ident e) = None \<and> (\<forall>e' \<in> ran (book s). addr e' \<noteq> addr e)"
  using assms
proof (cases rule: create_cases [of s e])
  case (free s')
  then show ?thesis by (simp del: not_None_eq)
next
  case taken
  then show ?thesis by (simp only: fst_conv) blast
qed

lemma create_book:
  "ok s \<Longrightarrow> create e s = (None, s') \<Longrightarrow> ok s' \<and> book s' = (book s)(ident e \<mapsto> e)"
  by (rule create_cases [of s e]) simp_all

lemma create_then_by_id: "ok s \<Longrightarrow> create e s = (None, s') \<Longrightarrow> by_id (ident e) s' = Inr e"
  using create_book [of s e s'] by (simp add: by_id_book)

lemma create_twice: "ok s \<Longrightarrow> create e s = (None, s') \<Longrightarrow> create e s' = (Some taken, s')"
  using create_book [of s e s'] create_taken [of s' e] by simp

lemma create_remove:
  assumes "ok s" "create e s = (None, s')"
  shows "\<exists>s''. remove (ident e) s' = (None, s'') \<and> ok s'' \<and> book s'' = book s"
proof -
  have b: "ok s'" "book s' = (book s)(ident e \<mapsto> e)" "book s (ident e) = None"
    using create_book [OF assms] create_None_iff [OF assms(1), of e] assms(2) by simp_all
  then show ?thesis using remove_present [of s' "ident e"] by (auto simp: fun_upd_idem)
qed

lemma list_addresses: "ok s \<Longrightarrow> list_all s = Inr es \<Longrightarrow> distinct (map addr es)"
proof -
  assume ok: "ok s" and l: "list_all s = Inr es"
  have es: "set es = ran (book s)" "distinct (map ident es)" using list_book [OF ok] l by auto
  have "e = e'" if m: "e \<in> set es" "e' \<in> set es" "addr e = addr e'" for e e'
  proof -
    obtain i j where "book s i = Some e" "book s j = Some e'"
      using m es(1) unfolding ran_def by blast
    then show "e = e'" using book_addr [OF ok] m(3) by fastforce
  qed
  then show "distinct (map addr es)"
    using es(2) by (auto simp: distinct_map inj_on_def)
qed

lemma list_member: "ok s \<Longrightarrow> list_all s = Inr es \<Longrightarrow> e \<in> set es \<longleftrightarrow> book s (ident e) = Some e"
  using list_book [of s] book_ident [of s] by (auto simp: ran_def)

end

text \<open>A sequence of calls, with their answers.\<close>

fun calls :: "('c \<Rightarrow> 's \<Rightarrow> 'r \<times> 's) \<Rightarrow> 'c list \<Rightarrow> 's \<Rightarrow> 'r list \<times> 's" where
  "calls step [] s = ([], s)"
| "calls step (c # cs) s = (let (r, s') = step c s; (rs, s'') = calls step cs s' in (r # rs, s''))"

section \<open>Tables with two unique columns\<close>

text \<open>
  The laws at the level of the list of entities a table stands for, shared by the
  storages.
\<close>

lemma insert_unique_map:
  assumes "\<And>e. k\<^sub>1 (f e) = i e" "\<And>e e'. k\<^sub>2 (f e) = k\<^sub>2 (f e') \<longleftrightarrow> a e = a e'"
  shows "insert_unique k\<^sub>1 k\<^sub>2 (f e) (map f es) = map_option (map f) (insert_unique i a e es)"
  using assms by (simp add: insert_unique_def list_ex_iff)

lemma insert_unique_None_iff:
  "distinct (map i es) \<Longrightarrow> insert_unique i a e es = None \<longleftrightarrow>
     row_of i es (i e) \<noteq> None \<or> (\<exists>e' \<in> ran (row_of i es). a e' = a e)"
  by (auto simp: insert_unique_def list_ex_iff ran_row_of row_of_None_iff image_iff split: if_splits) metis+

lemma insert_unique_SomeD:
  assumes "insert_unique i a e es = Some es'" "distinct (map i es)" "distinct (map a es)"
  shows "distinct (map i es') \<and> distinct (map a es') \<and> row_of i es' = (row_of i es)(i e \<mapsto> e)"
proof -
  have n: "list_all (\<lambda>x. i x \<noteq> i e \<and> a x \<noteq> a e) es" and e: "es' = es @ [e]"
    using assms(1) by (auto simp: insert_unique_def list_ex_iff list_all_iff split: if_splits)
  then have "row_of i es' k = ((row_of i es)(i e \<mapsto> e)) k" for k
    by (cases "row_of i es k") (auto simp: row_of_append row_of_Cons list_all_iff dest!: row_of_SomeD)
  then show ?thesis using n e assms(2,3) by (auto simp: list_all_iff)
qed

lemma row_of_unique:
  "distinct (map a es) \<Longrightarrow> row_of k es i = Some e \<Longrightarrow> row_of k es j = Some e' \<Longrightarrow> a e = a e' \<Longrightarrow> i = j"
proof -
  assume d: "distinct (map a es)" and r: "row_of k es i = Some e" "row_of k es j = Some e'" and a: "a e = a e'"
  have m: "e \<in> set es" "k e = i" "e' \<in> set es" "k e' = j" using r by (auto dest: row_of_SomeD)
  have "inj_on a (set es)" using d by (simp add: distinct_map)
  then have "e = e'" using a m(1,3) by (rule inj_onD)
  then show "i = j" using m by simp
qed

lemma delete_where_missing: "row_of k es i = None \<Longrightarrow> delete_where (\<lambda>e. k e = i) es = es"
  by (auto simp: delete_where_def row_of_None_iff intro!: filter_True)

lemma update_where_missing: "row_of k es i = None \<Longrightarrow> update_where (\<lambda>e. k e = i) f es = es"
  by (auto simp: row_of_None_iff intro!: update_where_none)

text \<open>
  A table that stands for a list of entities: the entities its rows scan to, the condition
  that it holds nothing else and no duplicates, and its reading as a map.
\<close>

definition entities :: "('r \<Rightarrow> err + 'e) \<Rightarrow> 'r list \<Rightarrow> 'e list" where
  "entities scan rows = map (\<lambda>r. projr (scan r)) rows"

definition table_ok ::
  "('e \<Rightarrow> 'r) \<Rightarrow> ('r \<Rightarrow> err + 'e) \<Rightarrow> ('e \<Rightarrow> string) \<Rightarrow> ('e \<Rightarrow> address) \<Rightarrow> 'r list \<Rightarrow> bool" where
  "table_ok enc scan ident addr rows \<longleftrightarrow> map enc (entities scan rows) = rows
     \<and> distinct (map ident (entities scan rows)) \<and> distinct (map addr (entities scan rows))"

definition table_book :: "('r \<Rightarrow> err + 'e) \<Rightarrow> ('e \<Rightarrow> string) \<Rightarrow> 'r list \<Rightarrow> string \<Rightarrow> 'e option" where
  "table_book scan ident rows = row_of ident (entities scan rows)"

text \<open>
  The contract of a storage with its statements: one unique insertion, lookup and deletion
  by the identifier, and a listing in some order.
\<close>

locale entity_table =
  fixes enc :: "'e \<Rightarrow> 'r" and scan :: "'r \<Rightarrow> err + 'e" and rid raddr :: "'r \<Rightarrow> string"
    and ident :: "'e \<Rightarrow> string" and addr :: "'e \<Rightarrow> address"
    and create :: "'e \<Rightarrow> 'r list \<Rightarrow> err option \<times> 'r list"
    and by_id :: "string \<Rightarrow> 'r list \<Rightarrow> err + 'e"
    and remove :: "string \<Rightarrow> 'r list \<Rightarrow> err option \<times> 'r list"
    and list_all :: "'r list \<Rightarrow> err + 'e list"
    and order :: "'e list \<Rightarrow> 'e list"
    and missing taken :: err
  assumes scan_enc: "scan (enc e) = Inr e"
    and rid_enc: "rid (enc e) = ident e"
    and raddr_enc: "raddr (enc e) = raddr (enc e') \<longleftrightarrow> addr e = addr e'"
    and create_rows: "create e rows = (case insert_unique rid raddr (enc e) rows of
        None \<Rightarrow> (Some taken, rows) | Some rows' \<Rightarrow> (None, rows'))"
    and by_id_rows: "by_id i (map enc es) = (case row_of ident es i of None \<Rightarrow> Inl missing | Some e \<Rightarrow> Inr e)"
    and remove_rows: "remove i rows =
        (if count_where (\<lambda>r. rid r = i) rows = 0 then Some missing else None, delete_where (\<lambda>r. rid r = i) rows)"
    and list_rows: "list_all (map enc es) = Inr (order es)"
    and order_mset: "mset (order es) = mset es"
begin

lemma entities_enc [simp]: "entities scan (map enc es) = es"
  by (simp add: entities_def scan_enc o_def)

lemma table_ok_enc [simp]:
  "table_ok enc scan ident addr (map enc es) \<longleftrightarrow> distinct (map ident es) \<and> distinct (map addr es)"
  by (simp add: table_ok_def)

lemma table_book_enc [simp]: "table_book scan ident (map enc es) = row_of ident es"
  by (simp add: table_book_def)

lemma table_okE:
  assumes "table_ok enc scan ident addr rows"
  obtains es where "rows = map enc es" "distinct (map ident es)" "distinct (map addr es)"
  using assms that [of "entities scan rows"] by (simp add: table_ok_def)

lemma empty_table: "table_ok enc scan ident addr []" "table_book scan ident [] = Map.empty"
  by (simp_all add: table_ok_def table_book_def entities_def fun_eq_iff)

lemma row_of_enc: "row_of rid (map enc es) i = map_option enc (row_of ident es i)"
  by (simp add: row_of_map rid_enc)

lemma create_enc: "create e (map enc es) = (case insert_unique ident addr e es of
    None \<Rightarrow> (Some taken, map enc es) | Some es' \<Rightarrow> (None, map enc es'))"
  by (simp add: create_rows insert_unique_map [of rid enc ident raddr addr] rid_enc raddr_enc split: option.splits)

lemma remove_enc: "remove i (map enc es) =
    (if row_of ident es i = None then Some missing else None, map enc (delete_where (\<lambda>e. ident e = i) es))"
proof -
  have "delete_where (\<lambda>r. rid r = i) (map enc es) = map enc (delete_where (\<lambda>e. ident e = i) es)"
    by (rule delete_where_map) (simp add: rid_enc)
  then show ?thesis by (simp add: remove_rows count_where_key row_of_enc)
qed

lemma update_ok:
  assumes "table_ok enc scan ident addr rows" "table_book scan ident rows i = Some e"
    and "\<And>e. ident (f e) = ident e" "\<And>e. addr (f e) = addr e" "\<And>e. u (enc e) = enc (f e)"
  shows "table_ok enc scan ident addr (update_where (\<lambda>r. rid r = i) u rows)"
    "table_book scan ident (update_where (\<lambda>r. rid r = i) u rows) = (table_book scan ident rows)(i \<mapsto> f e)"
    "count_where (\<lambda>r. rid r = i) rows \<noteq> 0"
proof -
  obtain es where es: "rows = map enc es" "distinct (map ident es)" "distinct (map addr es)"
    using assms(1) by (elim table_okE)
  have u: "update_where (\<lambda>r. rid r = i) u rows = map enc (update_where (\<lambda>e. ident e = i) f es)"
    unfolding es(1) by (rule update_where_map) (simp_all add: assms(5) rid_enc)
  show "table_ok enc scan ident addr (update_where (\<lambda>r. rid r = i) u rows)"
    using es(2,3) by (simp add: u map_update_where assms(3,4))
  show "table_book scan ident (update_where (\<lambda>r. rid r = i) u rows) = (table_book scan ident rows)(i \<mapsto> f e)"
    using assms(2) unfolding u unfolding es(1) by (auto simp: row_of_update_key assms(3) fun_eq_iff)
  show "count_where (\<lambda>r. rid r = i) rows \<noteq> 0"
    using es assms(2) by (simp add: count_where_key row_of_enc)
qed

lemma update_missing:
  assumes "table_ok enc scan ident addr rows" "table_book scan ident rows i = None"
  shows "update_where (\<lambda>r. rid r = i) u rows = rows" "count_where (\<lambda>r. rid r = i) rows = 0"
proof -
  have "row_of rid rows i = None" using assms by (auto elim!: table_okE simp: row_of_enc)
  then show "update_where (\<lambda>r. rid r = i) u rows = rows" "count_where (\<lambda>r. rid r = i) rows = 0"
    by (simp_all add: update_where_missing count_where_key)
qed

end

text \<open>Such a storage is a repository.\<close>

sublocale entity_table \<subseteq> repository ident addr create by_id remove list_all
  "table_book scan ident" "table_ok enc scan ident addr" missing taken
proof (unfold_locales, goal_cases)
  case (1 s i e)
  then show ?case by (auto elim!: table_okE dest!: row_of_SomeD)
next
  case (2 s i e j e')
  then obtain es where "s = map enc es" "distinct (map addr es)" by (elim table_okE)
  then show ?case using 2 row_of_unique [of addr es ident i e j e'] by simp
next
  case (3 s i)
  then show ?case by (auto elim!: table_okE simp: by_id_rows)
next
  case (4 s e)
  then obtain es where es: "s = map enc es" "distinct (map ident es)" "distinct (map addr es)" by (elim table_okE)
  then obtain es' where i: "insert_unique ident addr e es = Some es'"
    using 4 insert_unique_None_iff [of ident es addr e] by (cases "insert_unique ident addr e es") auto
  then have "create e s = (None, map enc es')" by (simp add: es(1) create_enc)
  then show ?case using insert_unique_SomeD [OF i es(2,3)] es(1) by simp
next
  case (5 s e)
  then obtain es where es: "s = map enc es" "distinct (map ident es)" by (elim table_okE)
  then have "insert_unique ident addr e es = None"
    using 5 insert_unique_None_iff [of ident es addr e] by simp
  then show ?case by (simp add: es(1) create_enc)
next
  case (6 s i)
  then obtain es where es: "s = map enc es" "distinct (map ident es)" "distinct (map addr es)" by (elim table_okE)
  then have "remove i s = (None, map enc (delete_where (\<lambda>e. ident e = i) es))"
    using 6 by (simp add: remove_enc)
  then show ?case using es by (auto simp: distinct_map_delete_where row_of_delete_key fun_eq_iff)
next
  case (7 s i)
  then show ?case by (auto elim!: table_okE simp: remove_enc delete_where_missing)
next
  case (8 s)
  then obtain es where es: "s = map enc es" "distinct (map ident es)" by (elim table_okE)
  have "set (order es) = ran (row_of ident es)"
    using es(2) mset_eq_setD [OF order_mset] by (simp add: ran_row_of)
  moreover have "mset (map ident (order es)) = mset (map ident es)" by (simp add: order_mset)
  then have "distinct (map ident (order es))" using es(2) mset_eq_imp_distinct_iff by blast
  ultimately show ?case using es(1) by (simp add: list_rows)
qed

lemma read_rows_ok:
  "list_all (\<lambda>r. \<not> isl (scan r)) rs \<Longrightarrow> read_rows scan None rs = Inr (entities scan rs)"
proof -
  have "list_all (\<lambda>r. \<not> isl (scan r)) rs \<Longrightarrow> scan_rows scan rs = Inr (entities scan rs)"
  proof (induction rs)
    case (Cons r rs)
    then show ?case by (cases "scan r") (auto simp: entities_def)
  qed (simp add: entities_def)
  then show "list_all (\<lambda>r. \<not> isl (scan r)) rs \<Longrightarrow> read_rows scan None rs = Inr (entities scan rs)"
    by (simp add: read_rows_def)
qed

end
