(* ===== verification/Contacts.thy ===== *)
theory Contacts
  imports Repository
begin

text \<open>
  internal/domain/contact and internal/usecase/contact: the address book over its table. An
  operation takes the failure of each of its SQL statements (\<open>None\<close> when it succeeds).
  \<open>ck\<close> is the letter case of printed addresses and \<open>quote\<close> the \<open>%q\<close> verb.
\<close>

section \<open>The table\<close>

record contact =
  ct_ID :: string
  ct_Address :: address
  ct_Name :: string
  ct_Notes :: string
  ct_IsFavorite :: bool
  ct_CreatedAt :: time
  ct_UpdatedAt :: time

record contact_row =
  cr_id :: string
  cr_address :: string
  cr_name :: string
  cr_notes :: string
  cr_is_favorite :: int
  cr_created_at :: time
  cr_updated_at :: time

type_synonym contacts = "contact_row list"

definition ErrNotFound_contact :: err where
  "ErrNotFound_contact = New CodeNotFound ''contact not found''"

definition ErrAlreadyExists_contact :: err where
  "ErrAlreadyExists_contact = New CodeAlreadyExists ''contact with this address already exists''"

definition contact_row :: "checksum \<Rightarrow> contact \<Rightarrow> contact_row" where
  "contact_row ck c =
     \<lparr>cr_id = ct_ID c, cr_address = Hex ck (ct_Address c), cr_name = ct_Name c, cr_notes = ct_Notes c,
      cr_is_favorite = boolToInt (ct_IsFavorite c), cr_created_at = ct_CreatedAt c,
      cr_updated_at = ct_UpdatedAt c\<rparr>"

definition scanContact :: "(string \<Rightarrow> string) \<Rightarrow> contact_row \<Rightarrow> err + contact" where
  "scanContact quote r =
     (case NewAddress (cr_address r) of
        Inl e \<Rightarrow> Inl (wrap CodeInternal (''invalid stored address '' @ quote (cr_address r)) e)
      | Inr addr \<Rightarrow> Inr
          \<lparr>ct_ID = cr_id r, ct_Address = addr, ct_Name = cr_name r, ct_Notes = cr_notes r,
           ct_IsFavorite = (cr_is_favorite r \<noteq> 0), ct_CreatedAt = cr_created_at r,
           ct_UpdatedAt = cr_updated_at r\<rparr>)"

section \<open>Storage\<close>

definition Create_contact_row :: "checksum \<Rightarrow> err option \<Rightarrow> contact \<Rightarrow> contacts \<Rightarrow> err option \<times> contacts" where
  "Create_contact_row ck fail c rows =
     (let (err, rows') =
        (case fail of Some e \<Rightarrow> (Some e, rows)
         | None \<Rightarrow> (case insert_unique cr_id cr_address (contact_row ck c) rows of
             None \<Rightarrow> (Some (unique_violation ''contacts''), rows) | Some rows' \<Rightarrow> (None, rows')))
      in case err of
           None \<Rightarrow> (None, rows')
         | Some e \<Rightarrow> if isUniqueConstraint err then (Some ErrAlreadyExists_contact, rows')
                     else (Some (wrap CodeInternal ''insert contact'' e), rows'))"

definition query_contact :: "(string \<Rightarrow> string) \<Rightarrow> err option \<Rightarrow> contact_row option \<Rightarrow> err + contact" where
  "query_contact quote fail row =
     (let res = (case fail of Some e \<Rightarrow> Inl e
           | None \<Rightarrow> (case row of None \<Rightarrow> Inl ErrNoRows | Some r \<Rightarrow> scanContact quote r))
      in case res of Inl e \<Rightarrow> if Is e ErrNoRows then Inl ErrNotFound_contact else Inl e | Inr c \<Rightarrow> Inr c)"

definition GetByID_contact :: "(string \<Rightarrow> string) \<Rightarrow> err option \<Rightarrow> string \<Rightarrow> contacts \<Rightarrow> err + contact" where
  "GetByID_contact quote fail ident rows = query_contact quote fail (row_of cr_id rows ident)"

definition GetByAddress_contact :: "(string \<Rightarrow> string) \<Rightarrow> err option \<Rightarrow> string \<Rightarrow> contacts \<Rightarrow> err + contact" where
  "GetByAddress_contact quote fail address rows = query_contact quote fail (row_of cr_address rows address)"

definition Update_contact_row :: "err option \<Rightarrow> contact \<Rightarrow> contacts \<Rightarrow> err option \<times> contacts" where
  "Update_contact_row fail c rows =
     (case fail of
        Some e \<Rightarrow> (Some (wrap CodeInternal ''update contact'' e), rows)
      | None \<Rightarrow>
          (if count_where (\<lambda>r. cr_id r = ct_ID c) rows = 0 then Some ErrNotFound_contact else None,
           update_where (\<lambda>r. cr_id r = ct_ID c)
             (\<lambda>r. r\<lparr>cr_name := ct_Name c, cr_notes := ct_Notes c, cr_updated_at := ct_UpdatedAt c\<rparr>) rows))"

definition SetFavorite_row :: "err option \<Rightarrow> string \<Rightarrow> bool \<Rightarrow> contacts \<Rightarrow> err option \<times> contacts" where
  "SetFavorite_row fail ident favorite rows =
     (case fail of
        Some e \<Rightarrow> (Some (wrap CodeInternal ''set favorite contact'' e), rows)
      | None \<Rightarrow>
          (if count_where (\<lambda>r. cr_id r = ident) rows = 0 then Some ErrNotFound_contact else None,
           update_where (\<lambda>r. cr_id r = ident) (\<lambda>r. r\<lparr>cr_is_favorite := boolToInt favorite\<rparr>) rows))"

definition Delete_contact_row :: "err option \<Rightarrow> string \<Rightarrow> contacts \<Rightarrow> err option \<times> contacts" where
  "Delete_contact_row fail ident rows =
     (case fail of
        Some e \<Rightarrow> (Some (wrap CodeInternal ''delete contact'' e), rows)
      | None \<Rightarrow>
          (if count_where (\<lambda>r. cr_id r = ident) rows = 0 then Some ErrNotFound_contact else None,
           delete_where (\<lambda>r. cr_id r = ident) rows))"

definition List_contact_rows ::
  "(string \<Rightarrow> string) \<Rightarrow> err option \<Rightarrow> err option \<Rightarrow> contacts \<Rightarrow> err + contact list" where
  "List_contact_rows quote fail iterErr rows =
     (case fail of
        Some e \<Rightarrow> Inl (wrap CodeInternal ''list contacts'' e)
      | None \<Rightarrow> read_rows (scanContact quote) iterErr
          (sort_key (\<lambda>r. - cr_is_favorite r) (sort_key cr_name rows)))"

section \<open>Usecase\<close>

record create_contact_params =
  cp_Address :: address
  cp_Name :: string
  cp_Notes :: string

record update_contact_params =
  up_ID :: string
  up_Name :: string
  up_Notes :: string

text \<open>The new identifier and the two clock readings are arguments.\<close>

definition Create_contact ::
  "checksum \<Rightarrow> string \<Rightarrow> time \<Rightarrow> time \<Rightarrow> err option \<Rightarrow> create_contact_params \<Rightarrow> contacts \<Rightarrow> (err + contact) \<times> contacts" where
  "Create_contact ck ulid now\<^sub>1 now\<^sub>2 fail p rows =
     (let c = \<lparr>ct_ID = ulid, ct_Address = cp_Address p, ct_Name = cp_Name p, ct_Notes = cp_Notes p,
               ct_IsFavorite = False, ct_CreatedAt = now\<^sub>1, ct_UpdatedAt = now\<^sub>2\<rparr>
      in case Create_contact_row ck fail c rows of
           (Some e, rows') \<Rightarrow> (Inl (wrap CodeInternal ''create contact'' e), rows')
         | (None, rows') \<Rightarrow> (Inr c, rows'))"

definition Update_contact ::
  "(string \<Rightarrow> string) \<Rightarrow> time \<Rightarrow> err option \<Rightarrow> err option \<Rightarrow> update_contact_params \<Rightarrow> contacts \<Rightarrow>
   (err + contact) \<times> contacts" where
  "Update_contact quote now fail\<^sub>1 fail\<^sub>2 p rows =
     (case GetByID_contact quote fail\<^sub>1 (up_ID p) rows of
        Inl e \<Rightarrow> (Inl e, rows)
      | Inr c0 \<Rightarrow>
        (let c = c0\<lparr>ct_Name := up_Name p, ct_Notes := up_Notes p, ct_UpdatedAt := now\<rparr>
         in case Update_contact_row fail\<^sub>2 c rows of
              (Some e, rows') \<Rightarrow> (Inl (wrap CodeInternal ''update contact'' e), rows')
            | (None, rows') \<Rightarrow> (Inr c, rows')))"

text \<open>\<open>GetByID\<close>, \<open>SetFavorite\<close>, \<open>Delete\<close> and \<open>List\<close> of the usecase hand over to the storage.\<close>

section \<open>The table as an address book\<close>

lemma scan_contact_row [simp]: "scanContact quote (contact_row ck c) = Inr c"
  by (simp add: scanContact_def contact_row_def boolToInt_def)

lemma contact_row_keys [simp]:
  "cr_id (contact_row ck c) = ct_ID c"
  "cr_address (contact_row ck c) = Hex ck (ct_Address c)"
  "cr_name (contact_row ck c) = ct_Name c"
  "cr_is_favorite (contact_row ck c) = boolToInt (ct_IsFavorite c)"
  by (simp_all add: contact_row_def)

abbreviation contacts_ok :: "checksum \<Rightarrow> contacts \<Rightarrow> bool" where
  "contacts_ok ck \<equiv> table_ok (contact_row ck) (scanContact (\<lambda>s. s)) ct_ID ct_Address"

abbreviation contact_book :: "contacts \<Rightarrow> string \<Rightarrow> contact option" where
  "contact_book \<equiv> table_book (scanContact (\<lambda>s. s)) ct_ID"

abbreviation contact_order :: "contact list \<Rightarrow> contact list" where
  "contact_order cs \<equiv> sort_key (\<lambda>c. - boolToInt (ct_IsFavorite c)) (sort_key ct_Name cs)"

lemma List_contact_rows_enc:
  "List_contact_rows quote None None (map (contact_row ck) cs) = Inr (contact_order cs)"
  by (simp add: List_contact_rows_def read_rows_def sort_key_map scan_rows_map)

interpretation cb: entity_table "contact_row ck" "scanContact (\<lambda>s. s)" cr_id cr_address ct_ID ct_Address
  "Create_contact_row ck None" "GetByID_contact quote None" "Delete_contact_row None"
  "List_contact_rows quote None None" contact_order ErrNotFound_contact ErrAlreadyExists_contact
  for ck quote
  by unfold_locales
    (simp_all add: Create_contact_row_def GetByID_contact_def query_contact_def row_of_map ErrNoRows_def
      Delete_contact_row_def List_contact_rows_enc split: option.splits)

section \<open>Refinement\<close>

text \<open>
  The calls of the usecase and what each does to the table, when no statement fails; and
  the same calls on an address book, a map from identifiers to contacts.
\<close>

datatype contact_call =
    CallCreate string time time create_contact_params
  | CallGet string
  | CallUpdate time update_contact_params
  | CallFavorite string bool
  | CallDelete string

definition reply :: "err option \<Rightarrow> err + contact option" where
  "reply e = (case e of None \<Rightarrow> Inr None | Some x \<Rightarrow> Inl x)"

fun contact_step ::
  "checksum \<Rightarrow> (string \<Rightarrow> string) \<Rightarrow> contact_call \<Rightarrow> contacts \<Rightarrow> (err + contact option) \<times> contacts" where
  "contact_step ck quote (CallCreate i t\<^sub>1 t\<^sub>2 p) rows =
     map_prod (map_sum id Some) id (Create_contact ck i t\<^sub>1 t\<^sub>2 None p rows)"
| "contact_step ck quote (CallGet i) rows = (map_sum id Some (GetByID_contact quote None i rows), rows)"
| "contact_step ck quote (CallUpdate t p) rows =
     map_prod (map_sum id Some) id (Update_contact quote t None None p rows)"
| "contact_step ck quote (CallFavorite i b) rows = map_prod reply id (SetFavorite_row None i b rows)"
| "contact_step ck quote (CallDelete i) rows = map_prod reply id (Delete_contact_row None i rows)"

fun book_step ::
  "contact_call \<Rightarrow> (string \<Rightarrow> contact option) \<Rightarrow> (err + contact option) \<times> (string \<Rightarrow> contact option)" where
  "book_step (CallCreate i t\<^sub>1 t\<^sub>2 p) b =
     (if b i = None \<and> (\<forall>c \<in> ran b. ct_Address c \<noteq> cp_Address p)
      then (let c = \<lparr>ct_ID = i, ct_Address = cp_Address p, ct_Name = cp_Name p, ct_Notes = cp_Notes p,
                     ct_IsFavorite = False, ct_CreatedAt = t\<^sub>1, ct_UpdatedAt = t\<^sub>2\<rparr>
            in (Inr (Some c), b(i \<mapsto> c)))
      else (Inl (wrap CodeInternal ''create contact'' ErrAlreadyExists_contact), b))"
| "book_step (CallGet i) b =
     (case b i of None \<Rightarrow> Inl ErrNotFound_contact | Some c \<Rightarrow> Inr (Some c), b)"
| "book_step (CallUpdate t p) b =
     (case b (up_ID p) of
        None \<Rightarrow> (Inl ErrNotFound_contact, b)
      | Some c0 \<Rightarrow> (let c = c0\<lparr>ct_Name := up_Name p, ct_Notes := up_Notes p, ct_UpdatedAt := t\<rparr>
                   in (Inr (Some c), b(up_ID p \<mapsto> c))))"
| "book_step (CallFavorite i f) b =
     (case b i of None \<Rightarrow> (Inl ErrNotFound_contact, b)
      | Some c \<Rightarrow> (Inr None, b(i \<mapsto> c\<lparr>ct_IsFavorite := f\<rparr>)))"
| "book_step (CallDelete i) b =
     (case b i of None \<Rightarrow> (Inl ErrNotFound_contact, b) | Some c \<Rightarrow> (Inr None, b(i := None)))"

lemma List_contacts_sorted:
  assumes "contacts_ok ck rows" "List_contact_rows quote None None rows = Inr es"
  shows "sorted (map (\<lambda>c. - boolToInt (ct_IsFavorite c)) es)"
    "sorted (map ct_Name (filter (\<lambda>c. ct_IsFavorite c = f) es))"
proof -
  obtain cs where cs: "rows = map (contact_row ck) cs" using assms(1) by (elim cb.table_okE)
  have es: "es = contact_order cs"
    using assms(2) unfolding cs by (simp add: List_contact_rows_enc)
  show "sorted (map (\<lambda>c. - boolToInt (ct_IsFavorite c)) es)" by (simp add: es)
  have "filter (\<lambda>c. ct_IsFavorite c = f) es = filter (\<lambda>c. ct_IsFavorite c = f) (sort_key ct_Name cs)"
    using sort_key_stable [of "\<lambda>c. - boolToInt (ct_IsFavorite c)" "- boolToInt f" "sort_key ct_Name cs"]
    by (simp add: es)
  then show "sorted (map ct_Name (filter (\<lambda>c. ct_IsFavorite c = f) es))"
    by (simp add: sorted_filter)
qed

lemma contact_step_refines:
  assumes "contacts_ok ck rows" "contact_step ck quote call rows = (r, rows')"
  shows "contacts_ok ck rows' \<and> book_step call (contact_book rows) = (r, contact_book rows')"
proof (cases call)
  case (CallCreate i t\<^sub>1 t\<^sub>2 p)
  let ?c = "\<lparr>ct_ID = i, ct_Address = cp_Address p, ct_Name = cp_Name p, ct_Notes = cp_Notes p,
               ct_IsFavorite = False, ct_CreatedAt = t\<^sub>1, ct_UpdatedAt = t\<^sub>2\<rparr>"
  from assms(1) show ?thesis
  proof (cases rule: cb.create_cases [of ck rows ?c])
    case (free s')
    then show ?thesis using assms CallCreate by (auto simp: Create_contact_def)
  next
    case taken
    then show ?thesis using assms CallCreate by (auto simp: Create_contact_def)
  qed
next
  case (CallGet i)
  then show ?thesis using assms cb.by_id_book [OF assms(1), of quote i]
    by (auto split: option.splits)
next
  case (CallUpdate t p)
  show ?thesis
  proof (cases "contact_book rows (up_ID p)")
    case None
    then show ?thesis using CallUpdate assms cb.by_id_book [OF assms(1), of quote "up_ID p"]
      by (auto simp: Update_contact_def)
  next
    case (Some c0)
    let ?f = "\<lambda>c. c\<lparr>ct_Name := up_Name p, ct_Notes := up_Notes p, ct_UpdatedAt := t\<rparr>"
    let ?u = "\<lambda>r. r\<lparr>cr_name := up_Name p, cr_notes := up_Notes p, cr_updated_at := t\<rparr>"
    have i: "ct_ID c0 = up_ID p" using cb.book_ident [OF assms(1) Some] .
    show ?thesis
      using CallUpdate assms(2) Some i cb.by_id_book [OF assms(1), of quote "up_ID p"]
        cb.update_ok [OF assms(1) Some, of ?f ?u]
      by (auto simp: Update_contact_def Update_contact_row_def contact_row_def)
  qed
next
  case (CallFavorite i f)
  show ?thesis
  proof (cases "contact_book rows i")
    case None
    then show ?thesis using CallFavorite assms cb.update_missing [OF assms(1) None]
      by (auto simp: SetFavorite_row_def reply_def)
  next
    case (Some c0)
    show ?thesis using CallFavorite assms Some
        cb.update_ok [OF assms(1) Some, of "\<lambda>c. c\<lparr>ct_IsFavorite := f\<rparr>"
          "\<lambda>r. r\<lparr>cr_is_favorite := boolToInt f\<rparr>"]
      by (auto simp: SetFavorite_row_def reply_def contact_row_def)
  qed
next
  case (CallDelete i)
  from assms(1) show ?thesis
  proof (cases rule: cb.remove_cases [of ck rows i])
    case (present s')
    then show ?thesis using assms CallDelete by (auto simp: reply_def)
  next
    case missing
    then show ?thesis using assms CallDelete by (auto simp: reply_def)
  qed
qed

text \<open>
  C26. The address book behaves as a map from identifiers to contacts in which no two contacts
  share an address. Whatever the calls on a fresh table, they answer as the map does, and
  the list of the contacts is that of the map, the favourites first and each part by name.
\<close>

theorem contacts_refine:
  assumes "calls (contact_step ck quote) cs [] = (rs, rows)"
  shows "calls book_step cs Map.empty = (rs, contact_book rows)
    \<and> (\<exists>es. List_contact_rows quote None None rows = Inr es \<and> set es = ran (contact_book rows)
        \<and> distinct (map ct_Address es) \<and> sorted (map (\<lambda>c. - boolToInt (ct_IsFavorite c)) es)
        \<and> (\<forall>f. sorted (map ct_Name (filter (\<lambda>c. ct_IsFavorite c = f) es))))"
proof -
  have step: "contacts_ok ck rows \<and> calls book_step cs (contact_book s) = (rs, contact_book rows)"
    if "calls (contact_step ck quote) cs s = (rs, rows)" "contacts_ok ck s" for s rs
    using that
  proof (induction cs arbitrary: s rs)
    case (Cons c cs)
    obtain r s' where c: "contact_step ck quote c s = (r, s')" by fastforce
    obtain rs' where cs: "calls (contact_step ck quote) cs s' = (rs', rows)" "rs = r # rs'"
      using Cons.prems(1) c by (auto split: prod.splits)
    show ?case using contact_step_refines [OF Cons.prems(2) c] Cons.IH [OF cs(1)] cs(2) by simp
  qed simp
  have ok: "contacts_ok ck rows" and run: "calls book_step cs Map.empty = (rs, contact_book rows)"
    using step [OF assms] cb.empty_table by auto
  obtain es where es: "List_contact_rows quote None None rows = Inr es" "set es = ran (contact_book rows)"
    using cb.list_book [OF ok, of quote] by blast
  have "distinct (map ct_Address es)" by (rule cb.list_addresses [OF ok es(1)])
  moreover have "sorted (map (\<lambda>c. - boolToInt (ct_IsFavorite c)) es)"
    "\<forall>f. sorted (map ct_Name (filter (\<lambda>c. ct_IsFavorite c = f) es))"
    using List_contacts_sorted [OF ok es(1)] by auto
  ultimately show ?thesis using run es by blast
qed

lemma contacts_refine_witness:
  "\<exists>c rows. calls (contact_step (\<lambda>_ _. False) id)
       [CallCreate ''1'' 5 6 \<lparr>cp_Address = 7, cp_Name = ''Bob'', cp_Notes = []\<rparr>,
        CallCreate ''2'' 8 9 \<lparr>cp_Address = 7, cp_Name = ''Eve'', cp_Notes = []\<rparr>] []
     = ([Inr (Some c), Inl (wrap CodeInternal ''create contact'' ErrAlreadyExists_contact)], rows)
     \<and> contact_book rows = [''1'' \<mapsto> c] \<and> ct_Name c = ''Bob''"
proof -
  let ?cs = "[CallCreate ''1'' 5 6 \<lparr>cp_Address = 7, cp_Name = ''Bob'', cp_Notes = []\<rparr>,
        CallCreate ''2'' 8 9 \<lparr>cp_Address = 7, cp_Name = ''Eve'', cp_Notes = []\<rparr>]"
  obtain rs rows where run: "calls (contact_step (\<lambda>_ _. False) id) ?cs [] = (rs, rows)" by fastforce
  show ?thesis
    using contacts_refine [OF run] run by (auto simp: Let_def)
qed

end
