(* ===== verification/Tokens.thy ===== *)
theory Tokens
  imports Repository Alchemy Prices
begin

text \<open>
  internal/domain/token, internal/usecase/token and the token discovery of
  internal/adapter/eth: the watchlist over its table. Statement failures, new identifiers,
  clock readings and the answers of the chain are arguments.
\<close>

section \<open>The table\<close>

record watched_token =
  wt_ID :: string
  wt_Token :: token
  wt_IsPinned :: bool
  wt_IsHidden :: bool
  wt_AddedAt :: time

record token_row =
  tr_id :: string
  tr_contract_address :: string
  tr_symbol :: string
  tr_name :: string
  tr_decimals :: u8
  tr_is_pinned :: int
  tr_is_hidden :: int
  tr_added_at :: time

type_synonym watchlist = "token_row list"

abbreviation wt_Address :: "watched_token \<Rightarrow> address" where
  "wt_Address w \<equiv> tk_Address (wt_Token w)"

definition ErrNotFound_token :: err where
  "ErrNotFound_token = New CodeNotFound ''token not found''"

definition ErrAlreadyExists_token :: err where
  "ErrAlreadyExists_token = New CodeAlreadyExists ''token already watched''"

definition token_row :: "checksum \<Rightarrow> watched_token \<Rightarrow> token_row" where
  "token_row ck t =
     \<lparr>tr_id = wt_ID t, tr_contract_address = Hex ck (wt_Address t), tr_symbol = tk_Symbol (wt_Token t),
      tr_name = tk_Name (wt_Token t), tr_decimals = tk_Decimals (wt_Token t),
      tr_is_pinned = boolToInt (wt_IsPinned t), tr_is_hidden = boolToInt (wt_IsHidden t),
      tr_added_at = wt_AddedAt t\<rparr>"

definition scanToken :: "(string \<Rightarrow> string) \<Rightarrow> token_row \<Rightarrow> err + watched_token" where
  "scanToken quote r =
     (case NewAddress (tr_contract_address r) of
        Inl e \<Rightarrow> Inl (wrap CodeInternal (''invalid stored token address '' @ quote (tr_contract_address r)) e)
      | Inr addr \<Rightarrow> Inr
          \<lparr>wt_ID = tr_id r,
           wt_Token = \<lparr>tk_Address = addr, tk_Symbol = tr_symbol r, tk_Name = tr_name r, tk_Decimals = tr_decimals r\<rparr>,
           wt_IsPinned = (tr_is_pinned r \<noteq> 0), wt_IsHidden = (tr_is_hidden r \<noteq> 0), wt_AddedAt = tr_added_at r\<rparr>)"

section \<open>Storage\<close>

definition Create_token_row :: "checksum \<Rightarrow> err option \<Rightarrow> watched_token \<Rightarrow> watchlist \<Rightarrow> err option \<times> watchlist" where
  "Create_token_row ck fail t rows =
     (let (err, rows') =
        (case fail of Some e \<Rightarrow> (Some e, rows)
         | None \<Rightarrow> (case insert_unique tr_id tr_contract_address (token_row ck t) rows of
             None \<Rightarrow> (Some (unique_violation ''watched_tokens''), rows) | Some rows' \<Rightarrow> (None, rows')))
      in case err of
           None \<Rightarrow> (None, rows')
         | Some e \<Rightarrow> if isUniqueConstraint err then (Some ErrAlreadyExists_token, rows')
                     else (Some (wrap CodeInternal ''insert watched token'' e), rows'))"

definition set_flag ::
  "string \<Rightarrow> (token_row \<Rightarrow> token_row) \<Rightarrow> err option \<Rightarrow> string \<Rightarrow> watchlist \<Rightarrow> err option \<times> watchlist" where
  "set_flag message assign fail ident rows =
     (case fail of
        Some e \<Rightarrow> (Some (wrap CodeInternal message e), rows)
      | None \<Rightarrow>
          (if count_where (\<lambda>r. tr_id r = ident) rows = 0 then Some ErrNotFound_token else None,
           update_where (\<lambda>r. tr_id r = ident) assign rows))"

definition SetPinned :: "err option \<Rightarrow> string \<Rightarrow> bool \<Rightarrow> watchlist \<Rightarrow> err option \<times> watchlist" where
  "SetPinned fail ident pinned =
     set_flag ''set token pinned'' (\<lambda>r. r\<lparr>tr_is_pinned := boolToInt pinned\<rparr>) fail ident"

definition SetHidden :: "err option \<Rightarrow> string \<Rightarrow> bool \<Rightarrow> watchlist \<Rightarrow> err option \<times> watchlist" where
  "SetHidden fail ident hidden =
     set_flag ''set token hidden'' (\<lambda>r. r\<lparr>tr_is_hidden := boolToInt hidden\<rparr>) fail ident"

definition query_token :: "(string \<Rightarrow> string) \<Rightarrow> err option \<Rightarrow> token_row option \<Rightarrow> err + watched_token" where
  "query_token quote fail row =
     (let res = (case fail of Some e \<Rightarrow> Inl e
           | None \<Rightarrow> (case row of None \<Rightarrow> Inl ErrNoRows | Some r \<Rightarrow> scanToken quote r))
      in case res of Inl e \<Rightarrow> if Is e ErrNoRows then Inl ErrNotFound_token else Inl e | Inr t \<Rightarrow> Inr t)"

definition GetByID_token :: "(string \<Rightarrow> string) \<Rightarrow> err option \<Rightarrow> string \<Rightarrow> watchlist \<Rightarrow> err + watched_token" where
  "GetByID_token quote fail ident rows = query_token quote fail (row_of tr_id rows ident)"

definition GetByAddress_token :: "(string \<Rightarrow> string) \<Rightarrow> err option \<Rightarrow> string \<Rightarrow> watchlist \<Rightarrow> err + watched_token" where
  "GetByAddress_token quote fail address rows = query_token quote fail (row_of tr_contract_address rows address)"

definition Delete_token_row :: "err option \<Rightarrow> string \<Rightarrow> watchlist \<Rightarrow> err option \<times> watchlist" where
  "Delete_token_row fail ident rows =
     (case fail of
        Some e \<Rightarrow> (Some (wrap CodeInternal ''delete watched token'' e), rows)
      | None \<Rightarrow>
          (if count_where (\<lambda>r. tr_id r = ident) rows = 0 then Some ErrNotFound_token else None,
           delete_where (\<lambda>r. tr_id r = ident) rows))"

definition List_token_rows ::
  "(string \<Rightarrow> string) \<Rightarrow> err option \<Rightarrow> err option \<Rightarrow> watchlist \<Rightarrow> err + watched_token list" where
  "List_token_rows quote fail iterErr rows =
     (case fail of
        Some e \<Rightarrow> Inl (wrap CodeInternal ''list watched tokens'' e)
      | None \<Rightarrow> read_rows (scanToken quote) iterErr
          (sort_key (\<lambda>r. - tr_is_pinned r) (sort_key tr_symbol rows)))"

section \<open>Adding\<close>

record add_token_params =
  ap_ContractAddress :: address
  ap_Symbol :: string
  ap_Name :: string
  ap_Decimals :: u8

text \<open>What one call of \<open>Add\<close> meets outside the table.\<close>

record add_env =
  ae_list :: "err option"
  ae_iter :: "err option"
  ae_unhide :: "err option"
  ae_meta :: "address \<Rightarrow> err + token"
  ae_ulid :: string
  ae_now :: time
  ae_create :: "err option"

definition same_contract :: "checksum \<Rightarrow> address \<Rightarrow> watched_token \<Rightarrow> bool" where
  "same_contract ck a w \<longleftrightarrow> ToLower (Hex ck (wt_Address w)) = ToLower (Hex ck a)"

definition new_token :: "(address \<Rightarrow> err + token) \<Rightarrow> add_token_params \<Rightarrow> err + token" where
  "new_token meta p =
     (let tok = \<lparr>tk_Address = ap_ContractAddress p, tk_Symbol = ap_Symbol p, tk_Name = ap_Name p,
                 tk_Decimals = ap_Decimals p\<rparr> in
      if tk_Symbol tok = '''' \<or> tk_Name tok = '''' \<or> tk_Decimals tok = 0
      then bindE (mapE (wrap CodeInternal ''fetch token metadata'') (meta (ap_ContractAddress p))) (\<lambda>m.
        Inr (tok\<lparr>tk_Symbol := (if tk_Symbol tok = '''' then tk_Symbol m else tk_Symbol tok),
                 tk_Name := (if tk_Name tok = '''' then tk_Name m else tk_Name tok),
                 tk_Decimals := (if tk_Decimals tok = 0 then tk_Decimals m else tk_Decimals tok)\<rparr>))
      else Inr tok)"

definition Add_token ::
  "checksum \<Rightarrow> (string \<Rightarrow> string) \<Rightarrow> add_env \<Rightarrow> add_token_params \<Rightarrow> watchlist \<Rightarrow> (err + watched_token) \<times> watchlist" where
  "Add_token ck quote env p rows =
     (case List_token_rows quote (ae_list env) (ae_iter env) rows of
        Inl e \<Rightarrow> (Inl (wrap CodeInternal ''list watched tokens'' e), rows)
      | Inr existing \<Rightarrow> (case find (same_contract ck (ap_ContractAddress p)) existing of
          Some w \<Rightarrow>
            if wt_IsHidden w then
              (case SetHidden (ae_unhide env) (wt_ID w) False rows of
                 (Some e, rows') \<Rightarrow> (Inl (wrap CodeInternal ''unhide watched token'' e), rows')
               | (None, rows') \<Rightarrow> (Inr (w\<lparr>wt_IsHidden := False\<rparr>), rows'))
            else (Inr w, rows)
        | None \<Rightarrow> (case new_token (ae_meta env) p of
            Inl e \<Rightarrow> (Inl e, rows)
          | Inr tok \<Rightarrow>
            (let wt = \<lparr>wt_ID = ae_ulid env, wt_Token = tok, wt_IsPinned = False, wt_IsHidden = False,
                       wt_AddedAt = ae_now env\<rparr>
             in case Create_token_row ck (ae_create env) wt rows of
                  (Some e, rows') \<Rightarrow> (Inl (wrap CodeInternal ''add token'' e), rows')
                | (None, rows') \<Rightarrow> (Inr wt, rows')))))"

definition EnsureWatched ::
  "checksum \<Rightarrow> (string \<Rightarrow> string) \<Rightarrow> err option \<Rightarrow> err option \<Rightarrow> add_env \<Rightarrow> add_token_params \<Rightarrow> watchlist \<Rightarrow>
   (err + watched_token) \<times> watchlist" where
  "EnsureWatched ck quote fail iterErr env p rows =
     (case List_token_rows quote fail iterErr rows of
        Inl e \<Rightarrow> (Inl (wrap CodeInternal ''list watched tokens'' e), rows)
      | Inr existing \<Rightarrow> (case find (same_contract ck (ap_ContractAddress p)) existing of
          Some w \<Rightarrow> (Inr w, rows)
        | None \<Rightarrow> Add_token ck quote env p rows))"

definition ListEthTokens :: "(string \<Rightarrow> string) \<Rightarrow> err option \<Rightarrow> err option \<Rightarrow> watchlist \<Rightarrow> err + token list" where
  "ListEthTokens quote fail iterErr rows =
     bindE (mapE (wrap CodeInternal ''list tokens'') (List_token_rows quote fail iterErr rows)) (\<lambda>wts.
     Inr (map wt_Token wts))"

section \<open>Balances and market data\<close>

record 'f token_with_balance =
  tw_ID :: string
  tw_Token :: token
  tw_Balance :: amount
  tw_IsPinned :: bool
  tw_IsHidden :: bool
  tw_PriceUSD :: 'f
  tw_Change24hPct :: 'f
  tw_ChangePositive :: bool
  tw_Sparkline7d :: "'f list"
  tw_Sparkline30d :: "'f list"
  tw_BalanceUSD :: 'f

text \<open>
  One entry of the result. \<open>toFloat\<close> is the conversion of a decimal to a float; the
  arithmetic is that of the type \<open>'f\<close>.
\<close>

definition market_entry ::
  "checksum \<Rightarrow> (decimal \<Rightarrow> 'f) \<Rightarrow> ('f :: {linorder, inverse, zero, minus, numeral, times}) token_prices \<Rightarrow>
   watched_token \<Rightarrow> amount \<Rightarrow> 'f list \<times> 'f list \<Rightarrow> 'f token_with_balance" where
  "market_entry ck toFloat tokenPrices wt bal spark =
     (let twb = \<lparr>tw_ID = wt_ID wt, tw_Token = wt_Token wt, tw_Balance = bal, tw_IsPinned = wt_IsPinned wt,
                 tw_IsHidden = wt_IsHidden wt, tw_PriceUSD = 0, tw_Change24hPct = 0, tw_ChangePositive = False,
                 tw_Sparkline7d = fst spark, tw_Sparkline30d = snd spark, tw_BalanceUSD = 0\<rparr>;
          twb1 = (case map_of tokenPrices (ToLower (Hex ck (wt_Address wt))) of
              None \<Rightarrow> twb
            | Some md \<Rightarrow> twb\<lparr>tw_PriceUSD := md_PriceUSD md, tw_Change24hPct := md_Change24hPct md,
                tw_ChangePositive := md_ChangePositive md,
                tw_BalanceUSD := toFloat (ToTokenUnits bal (tk_Decimals (wt_Token wt))) * md_PriceUSD md\<rparr>);
          n = length (fst spark)
      in if tw_Change24hPct twb1 = 0 \<and> 25 \<le> n
         then (let latest = fst spark ! (n - 1); prior = fst spark ! (n - 25) in
               if prior > 0
               then (let pct = (latest - prior) / prior * 100
                     in twb1\<lparr>tw_Change24hPct := pct, tw_ChangePositive := (pct \<ge> 0)\<rparr>)
               else twb1)
         else twb1)"

text \<open>
  The sparklines of the tokens, those of token \<open>k\<close> answered by the readings and answers
  \<open>2 k\<close> (seven days) and \<open>2 k + 1\<close> (thirty days); the queries run in parallel, each on its
  own cache key, and are taken in the order of the list here.
\<close>

fun sparklines ::
  "checksum \<Rightarrow> (nat \<Rightarrow> time \<times> time) \<Rightarrow> (nat \<Rightarrow> ('f \<times> 'f) list http_answer) \<Rightarrow> nat \<Rightarrow> watched_token list \<Rightarrow>
   'f feed \<Rightarrow> ('f list \<times> 'f list) list \<times> 'f feed" where
  "sparklines ck clock answer k [] f = ([], f)"
| "sparklines ck clock answer k (wt # wts) f =
     (let (s7, f1) = GetSparkline (fst (clock k)) (snd (clock k)) (answer k) (Hex ck (wt_Address wt)) 7 f;
          (s30, f2) = GetSparkline (fst (clock (k + 1))) (snd (clock (k + 1))) (answer (k + 1)) (Hex ck (wt_Address wt)) 30 f1;
          (rest, f3) = sparklines ck clock answer (k + 2) wts f2
      in ((s7, s30) # rest, f3))"

definition ListWithBalances ::
  "checksum \<Rightarrow> (string \<Rightarrow> string) \<Rightarrow> (decimal \<Rightarrow> 'f) \<Rightarrow> err option \<Rightarrow> err option \<Rightarrow> (token \<Rightarrow> err + amount) \<Rightarrow>
   time \<times> time \<Rightarrow> (string, (string, 'f) gomap) gomap http_answer \<Rightarrow>
   (nat \<Rightarrow> time \<times> time) \<Rightarrow> (nat \<Rightarrow> ('f \<times> 'f) list http_answer) \<Rightarrow> watchlist \<Rightarrow>
   ('f :: {linorder, inverse, zero, minus, numeral, times}) feed \<Rightarrow> (err + 'f token_with_balance list) \<times> 'f feed" where
  "ListWithBalances ck quote toFloat fail iterErr balance clock pricesAnswer sparkClock sparkAnswer rows f =
     (case List_token_rows quote fail iterErr rows of
        Inl e \<Rightarrow> (Inl (wrap CodeInternal ''list tokens'' e), f)
      | Inr tokens \<Rightarrow>
        (let balances = map (\<lambda>wt. case balance (wt_Token wt) of Inl e \<Rightarrow> ZeroAmount | Inr b \<Rightarrow> b) tokens;
             addrs = map (\<lambda>wt. ToLower (Hex ck (wt_Address wt))) tokens;
             (tokenPrices, f1) = GetTokenPrices (fst clock) (snd clock) pricesAnswer addrs f;
             (sparks, f2) = sparklines ck sparkClock sparkAnswer 0 tokens f1
         in (Inr (map (\<lambda>(wt, bal, spark). market_entry ck toFloat tokenPrices wt bal spark)
                   (zip tokens (zip balances sparks))), f2)))"

section \<open>Seeding\<close>

definition autoSeedSymbols :: "string list" where
  "autoSeedSymbols =
     [''USDC'', ''USDT'', ''DAI'', ''FRAX'', ''TUSD'', ''BUSD'', ''LUSD'', ''SUSD'',
      ''WETH'', ''WBTC'', ''STETH'', ''WSTETH'', ''CBETH'', ''RETH'',
      ''UNI'', ''AAVE'', ''MKR'', ''COMP'', ''CRV'', ''CVX'', ''BAL'',
      ''SNX'', ''LDO'', ''FXS'', ''RPL'', ''1INCH'',
      ''MATIC'', ''ARB'', ''OP'',
      ''LINK'', ''SHIB'', ''PEPE'', ''APE'']"

text \<open>Discovery keeps the tokens whose metadata can be read and has a symbol and a name.\<close>

fun discover_loop :: "(address \<Rightarrow> err + token) \<Rightarrow> token_balance list \<Rightarrow> token list" where
  "discover_loop metadata [] = []"
| "discover_loop metadata (tb # rest) =
     (case metadata (tbl_ContractAddress tb) of
        Inl e \<Rightarrow> discover_loop metadata rest
      | Inr meta \<Rightarrow> if tk_Symbol meta = '''' \<or> tk_Name meta = '''' then discover_loop metadata rest
                    else meta # discover_loop metadata rest)"

definition DiscoverTokens :: "err + token_balance list \<Rightarrow> (address \<Rightarrow> err + token) \<Rightarrow> err + token list" where
  "DiscoverTokens balances metadata = bindE balances (\<lambda>bs. Inr (discover_loop metadata bs))"

text \<open>\<open>fresh k\<close> is the identifier, the clock and the failure of the \<open>k\<close>-th insertion.\<close>

fun seed_loop ::
  "checksum \<Rightarrow> (string \<Rightarrow> string) \<Rightarrow> string list \<Rightarrow> (nat \<Rightarrow> string \<times> time \<times> err option) \<Rightarrow> nat \<Rightarrow> token list \<Rightarrow>
   watchlist \<Rightarrow> watchlist" where
  "seed_loop ck uni watched fresh k [] rows = rows"
| "seed_loop ck uni watched fresh k (tok # rest) rows =
     (if ToUpper_with uni (tk_Symbol tok) \<notin> set autoSeedSymbols then seed_loop ck uni watched fresh k rest rows
      else if Hex ck (tk_Address tok) \<in> set watched then seed_loop ck uni watched fresh k rest rows
      else (let (ulid, now, fail) = fresh k;
                wt = \<lparr>wt_ID = ulid, wt_Token = tok, wt_IsPinned = False, wt_IsHidden = False, wt_AddedAt = now\<rparr>
            in seed_loop ck uni watched fresh (k + 1) rest (snd (Create_token_row ck fail wt rows))))"

definition Seed ::
  "checksum \<Rightarrow> (string \<Rightarrow> string) \<Rightarrow> (string \<Rightarrow> string) \<Rightarrow> err + token list \<Rightarrow> err option \<Rightarrow> err option \<Rightarrow>
   (nat \<Rightarrow> string \<times> time \<times> err option) \<Rightarrow> address \<Rightarrow> watchlist \<Rightarrow> err option \<times> watchlist" where
  "Seed ck quote uni discover fail iterErr fresh addr rows =
     (if IsZero_address addr then (None, rows)
      else case discover of
        Inl e \<Rightarrow> (Some (wrap CodeInternal ''discover tokens'' e), rows)
      | Inr discovered \<Rightarrow> (case List_token_rows quote fail iterErr rows of
          Inl e \<Rightarrow> (Some (wrap CodeInternal ''list watched tokens'' e), rows)
        | Inr existing \<Rightarrow>
            (None, seed_loop ck uni (map (\<lambda>wt. Hex ck (wt_Address wt)) existing) fresh 0 discovered rows)))"

section \<open>The watchlist as a map\<close>

lemma scan_token_row [simp]: "scanToken quote (token_row ck w) = Inr w"
  by (simp add: scanToken_def token_row_def)

lemma token_row_keys [simp]:
  "tr_id (token_row ck w) = wt_ID w"
  "tr_contract_address (token_row ck w) = Hex ck (wt_Address w)"
  "tr_symbol (token_row ck w) = tk_Symbol (wt_Token w)"
  "tr_is_pinned (token_row ck w) = boolToInt (wt_IsPinned w)"
  by (simp_all add: token_row_def)

abbreviation tokens_ok :: "checksum \<Rightarrow> watchlist \<Rightarrow> bool" where
  "tokens_ok ck \<equiv> table_ok (token_row ck) (scanToken (\<lambda>s. s)) wt_ID wt_Address"

abbreviation token_book :: "watchlist \<Rightarrow> string \<Rightarrow> watched_token option" where
  "token_book \<equiv> table_book (scanToken (\<lambda>s. s)) wt_ID"

abbreviation token_order :: "watched_token list \<Rightarrow> watched_token list" where
  "token_order ws \<equiv> sort_key (\<lambda>w. - boolToInt (wt_IsPinned w)) (sort_key (\<lambda>w. tk_Symbol (wt_Token w)) ws)"

lemma List_token_rows_enc:
  "List_token_rows quote None None (map (token_row ck) ws) = Inr (token_order ws)"
  by (simp add: List_token_rows_def read_rows_def sort_key_map scan_rows_map)

interpretation wl: entity_table "token_row ck" "scanToken (\<lambda>s. s)" tr_id tr_contract_address wt_ID wt_Address
  "Create_token_row ck None" "GetByID_token quote None" "Delete_token_row None"
  "List_token_rows quote None None" token_order ErrNotFound_token ErrAlreadyExists_token
  for ck quote
  by unfold_locales
    (simp_all add: Create_token_row_def GetByID_token_def query_token_def row_of_map ErrNoRows_def
      Delete_token_row_def List_token_rows_enc split: option.splits)

lemma same_contract_iff [simp]: "same_contract ck a w \<longleftrightarrow> wt_Address w = a"
  by (auto simp: same_contract_def ToLower_Hex)

text \<open>The entry the loops over the list find is the one of the map with the address.\<close>

lemma find_contract:
  assumes "tokens_ok ck rows" "List_token_rows quote None None rows = Inr ws"
  shows "find (same_contract ck a) ws = Some w \<longleftrightarrow> token_book rows (wt_ID w) = Some w \<and> wt_Address w = a"
    "find (same_contract ck a) ws = None \<longleftrightarrow> (\<forall>w \<in> ran (token_book rows). wt_Address w \<noteq> a)"
proof -
  have s: "set ws = ran (token_book rows)" using wl.list_book [OF assms(1), of quote] assms(2) by auto
  have d: "distinct (map wt_Address ws)" by (rule wl.list_addresses [OF assms])
  have f: "same_contract ck a = (\<lambda>w. wt_Address w = a)" by (simp add: fun_eq_iff)
  have "find (same_contract ck a) ws = Some w \<longleftrightarrow> w \<in> set ws \<and> wt_Address w = a"
    unfolding f using row_of_iff [OF d, of a w] by (simp add: row_of_def)
  then show "find (same_contract ck a) ws = Some w \<longleftrightarrow> token_book rows (wt_ID w) = Some w \<and> wt_Address w = a"
    using wl.list_member [OF assms] by blast
  show "find (same_contract ck a) ws = None \<longleftrightarrow> (\<forall>w \<in> ran (token_book rows). wt_Address w \<noteq> a)"
    by (simp add: f find_None_iff_all s)
qed

lemma List_tokens_cases:
  assumes "List_token_rows quote fail iterErr rows = Inr ws"
  shows "List_token_rows quote None None rows = Inr ws"
  using assms by (cases fail; cases iterErr) (auto simp: List_token_rows_def read_rows_def bindE_Inr_iff)

lemma Create_token_row_cases:
  assumes "tokens_ok ck rows"
  obtains (inserted) rows' where "Create_token_row ck fail w rows = (None, rows')" "tokens_ok ck rows'"
      "token_book rows' = (token_book rows)(wt_ID w \<mapsto> w)" "token_book rows (wt_ID w) = None"
      "\<forall>v \<in> ran (token_book rows). wt_Address v \<noteq> wt_Address w"
    | (refused) e where "Create_token_row ck fail w rows = (Some e, rows)"
proof (cases fail)
  case None
  from assms show thesis
    using wl.create_cases [of ck rows w] that None by metis
next
  case (Some e)
  then show thesis
    by (cases "isUniqueConstraint (Some e)") (rule that(2), simp add: Create_token_row_def)+
qed

lemma SetHidden_book:
  assumes "tokens_ok ck rows" "token_book rows i = Some w" "SetHidden fail i b rows = (None, rows')"
  shows "tokens_ok ck rows' \<and> token_book rows' = (token_book rows)(i \<mapsto> w\<lparr>wt_IsHidden := b\<rparr>)"
  using assms(3) wl.update_ok [OF assms(1,2), of "\<lambda>w. w\<lparr>wt_IsHidden := b\<rparr>" "\<lambda>r. r\<lparr>tr_is_hidden := boolToInt b\<rparr>"]
  by (auto simp: SetHidden_def set_flag_def token_row_def split: option.splits if_splits)

lemma new_token_Address: "new_token meta p = Inr tok \<Longrightarrow> tk_Address tok = ap_ContractAddress p"
  by (auto simp: new_token_def Let_def bindE_Inr_iff split: if_splits)

lemma Add_token_watched:
  assumes "tokens_ok ck rows" "Add_token ck quote env p rows = (Inr w, rows')"
  shows "tokens_ok ck rows' \<and> wt_Address w = ap_ContractAddress p \<and> \<not> wt_IsHidden w
    \<and> token_book rows' = (token_book rows)(wt_ID w \<mapsto> w)
    \<and> (case token_book rows (wt_ID w) of None \<Rightarrow> \<not> wt_IsPinned w | Some w0 \<Rightarrow> w = w0\<lparr>wt_IsHidden := False\<rparr>)"
proof -
  obtain ws where ws: "List_token_rows quote (ae_list env) (ae_iter env) rows = Inr ws"
    using assms(2) by (auto simp: Add_token_def split: sum.splits)
  note find = find_contract [OF assms(1) List_tokens_cases [OF ws]]
  show ?thesis
  proof (cases "find (same_contract ck (ap_ContractAddress p)) ws")
    case (Some w0)
    then have w0: "token_book rows (wt_ID w0) = Some w0" "wt_Address w0 = ap_ContractAddress p"
      using find(1) by auto
    show ?thesis
    proof (cases "wt_IsHidden w0")
      case True
      then have "SetHidden (ae_unhide env) (wt_ID w0) False rows = (None, rows')" "w = w0\<lparr>wt_IsHidden := False\<rparr>"
        using assms(2) ws Some by (auto simp: Add_token_def split: prod.splits option.splits)
      then show ?thesis using SetHidden_book [OF assms(1) w0(1)] w0 by simp
    next
      case False
      then have "rows' = rows" "w = w0" using assms(2) ws Some by (auto simp: Add_token_def)
      then show ?thesis using False w0 assms(1) by (simp add: fun_upd_idem)
    qed
  next
    case None
    then obtain tok where tok: "new_token (ae_meta env) p = Inr tok"
      using assms(2) ws by (auto simp: Add_token_def split: sum.splits)
    let ?w = "\<lparr>wt_ID = ae_ulid env, wt_Token = tok, wt_IsPinned = False, wt_IsHidden = False, wt_AddedAt = ae_now env\<rparr>"
    from assms(1) show ?thesis
    proof (cases rule: Create_token_row_cases [of ck rows "ae_create env" ?w])
      case (inserted rows'')
      then have "rows'' = rows'" "w = ?w" using assms(2) ws None tok by (auto simp: Add_token_def)
      then show ?thesis using inserted new_token_Address [OF tok] by simp
    next
      case (refused e)
      then show ?thesis using assms(2) ws None tok by (auto simp: Add_token_def)
    qed
  qed
qed

text \<open>
  C31. Adding a token makes it watched and visible, whatever the table held: a new entry for an
  unknown contract, the known one (its pin and its metadata as they were) made visible
  otherwise. No other entry changes, and adding the contract again changes nothing, with
  whatever metadata it is offered then.
\<close>

theorem Add_token_idempotent:
  assumes "tokens_ok ck rows" "Add_token ck quote env p rows = (Inr w, rows')"
    and "ap_ContractAddress p' = ap_ContractAddress p" "ae_list env' = None" "ae_iter env' = None"
  shows "tokens_ok ck rows' \<and> wt_Address w = ap_ContractAddress p \<and> \<not> wt_IsHidden w
    \<and> token_book rows' = (token_book rows)(wt_ID w \<mapsto> w)
    \<and> (case token_book rows (wt_ID w) of None \<Rightarrow> \<not> wt_IsPinned w | Some w0 \<Rightarrow> w = w0\<lparr>wt_IsHidden := False\<rparr>)
    \<and> Add_token ck quote env' p' rows' = (Inr w, rows')
    \<and> EnsureWatched ck quote None None env' p' rows' = (Inr w, rows')"
proof -
  note added = Add_token_watched [OF assms(1,2)]
  then have ok: "tokens_ok ck rows'" by blast
  obtain ws where ws: "List_token_rows quote None None rows' = Inr ws"
    using wl.list_book [OF ok, of quote] by blast
  have "find (same_contract ck (ap_ContractAddress p')) ws = Some w"
    using find_contract(1) [OF ok ws] added assms(3) by simp
  then show ?thesis using added ws assms(4,5) by (simp add: Add_token_def EnsureWatched_def)
qed

definition sample_add :: add_env where
  "sample_add = \<lparr>ae_list = None, ae_iter = None, ae_unhide = None,
     ae_meta = (\<lambda>a. Inr \<lparr>tk_Address = a, tk_Symbol = ''USDC'', tk_Name = ''USD Coin'', tk_Decimals = 6\<rparr>),
     ae_ulid = ''01'', ae_now = 5, ae_create = None\<rparr>"

lemma Add_token_idempotent_witness:
  "let p = \<lparr>ap_ContractAddress = 7, ap_Symbol = [], ap_Name = [], ap_Decimals = 0\<rparr>;
       w = \<lparr>wt_ID = ''01'', wt_Token = \<lparr>tk_Address = 7, tk_Symbol = ''USDC'', tk_Name = ''USD Coin'', tk_Decimals = 6\<rparr>,
            wt_IsPinned = False, wt_IsHidden = False, wt_AddedAt = 5\<rparr>
   in \<exists>rows'. Add_token (\<lambda>_ _. False) (\<lambda>s. s) sample_add p [] = (Inr w, rows')
     \<and> Add_token (\<lambda>_ _. False) (\<lambda>s. s) sample_add p rows' = (Inr w, rows')"
proof -
  let ?ck = "\<lambda>_ _. False"
  let ?p = "\<lparr>ap_ContractAddress = 7, ap_Symbol = [], ap_Name = [], ap_Decimals = 0\<rparr>"
  let ?w = "\<lparr>wt_ID = ''01'', wt_Token = \<lparr>tk_Address = 7, tk_Symbol = ''USDC'', tk_Name = ''USD Coin'', tk_Decimals = 6\<rparr>,
            wt_IsPinned = False, wt_IsHidden = False, wt_AddedAt = 5\<rparr>"
  have a: "Add_token ?ck (\<lambda>s. s) sample_add ?p [] = (Inr ?w, [token_row ?ck ?w])"
    by (simp add: Add_token_def sample_add_def List_token_rows_def read_rows_def new_token_def
        Create_token_row_def insert_unique_def Let_def)
  have "Add_token ?ck (\<lambda>s. s) sample_add ?p [token_row ?ck ?w] = (Inr ?w, [token_row ?ck ?w])"
    using Add_token_idempotent [OF wl.empty_table(1) a, of ?p sample_add] by (simp add: sample_add_def)
  then show ?thesis using a by (auto simp: Let_def)
qed

section \<open>Seeding the watchlist\<close>

definition seedable :: "(string \<Rightarrow> string) \<Rightarrow> token \<Rightarrow> bool" where
  "seedable uni tok \<longleftrightarrow> ToUpper_with uni (tk_Symbol tok) \<in> set autoSeedSymbols"

lemma seed_loop_grows:
  assumes "tokens_ok ck rows"
  shows "tokens_ok ck (seed_loop ck uni watched fresh k toks rows)
    \<and> (\<forall>i w. token_book rows i = Some w \<longrightarrow> token_book (seed_loop ck uni watched fresh k toks rows) i = Some w)
    \<and> (\<forall>i w. token_book (seed_loop ck uni watched fresh k toks rows) i = Some w \<longrightarrow>
        token_book rows i = Some w \<or> wt_Token w \<in> set toks \<and> seedable uni (wt_Token w) \<and> \<not> wt_IsPinned w \<and> \<not> wt_IsHidden w)"
  using assms
proof (induction toks arbitrary: k rows)
  case (Cons tok toks)
  obtain ulid now fail where fr: "fresh k = (ulid, now, fail)" by (cases "fresh k")
  let ?w = "\<lparr>wt_ID = ulid, wt_Token = tok, wt_IsPinned = False, wt_IsHidden = False, wt_AddedAt = now\<rparr>"
  consider (skip) "seed_loop ck uni watched fresh k (tok # toks) rows = seed_loop ck uni watched fresh k toks rows"
    | (create) "seedable uni tok" "seed_loop ck uni watched fresh k (tok # toks) rows =
        seed_loop ck uni watched fresh (k + 1) toks (snd (Create_token_row ck fail ?w rows))"
    using fr by (cases "seedable uni tok"; cases "Hex ck (tk_Address tok) \<in> set watched")
      (simp_all add: seedable_def)
  then show ?case
  proof cases
    case skip
    show ?thesis using Cons.IH [OF Cons.prems, of k] unfolding skip by auto
  next
    case create
    from Cons.prems show ?thesis
    proof (cases rule: Create_token_row_cases [of ck rows fail ?w])
      case (inserted rows')
      have "token_book rows i = Some v
          \<or> wt_Token v \<in> set (tok # toks) \<and> seedable uni (wt_Token v) \<and> \<not> wt_IsPinned v \<and> \<not> wt_IsHidden v"
        if "token_book (seed_loop ck uni watched fresh (k + 1) toks rows') i = Some v" for i v
      proof -
        have "token_book rows' i = Some v \<or>
            wt_Token v \<in> set toks \<and> seedable uni (wt_Token v) \<and> \<not> wt_IsPinned v \<and> \<not> wt_IsHidden v"
          using Cons.IH [OF inserted(2), of "k + 1"] that by blast
        then show ?thesis using inserted(3) create(1) by (cases "i = ulid") auto
      qed
      moreover have "token_book rows' i = Some v" if "token_book rows i = Some v" for i v
        using inserted(3,4) that by auto
      ultimately show ?thesis
        using Cons.IH [OF inserted(2), of "k + 1"] unfolding create(2) inserted(1) snd_conv by blast
    next
      case (refused e)
      show ?thesis using Cons.IH [OF Cons.prems, of "k + 1"] unfolding create(2) refused snd_conv by auto
    qed
  qed
qed simp

text \<open>
  C30. Seeding keeps every entry of the watchlist as it is, pins and hidden flags included, and
  adds only discovered tokens with a whitelisted symbol, visible and not pinned, and never a
  second entry for a contract; with no wallet loaded or a failed query it does nothing.
\<close>

theorem Seed_whitelist:
  assumes "tokens_ok ck rows" "Seed ck quote uni discover fail iterErr fresh addr rows = (e, rows')"
  shows "tokens_ok ck rows'
    \<and> (\<forall>i w. token_book rows i = Some w \<longrightarrow> token_book rows' i = Some w)
    \<and> (\<forall>i w. token_book rows' i = Some w \<longrightarrow> token_book rows i = Some w
        \<or> addr \<noteq> 0 \<and> (\<exists>toks. discover = Inr toks \<and> wt_Token w \<in> set toks)
          \<and> ToUpper_with uni (tk_Symbol (wt_Token w)) \<in> set autoSeedSymbols
          \<and> \<not> wt_IsPinned w \<and> \<not> wt_IsHidden w)
    \<and> (addr = 0 \<or> e \<noteq> None \<longrightarrow> rows' = rows)"
proof -
  consider (unchanged) "rows' = rows"
    | (seeded) toks watched where "discover = Inr toks" "addr \<noteq> 0" "e = None"
        "rows' = seed_loop ck uni watched fresh 0 toks rows"
    using assms(2) by (auto simp: Seed_def IsZero_address_def split: if_splits sum.splits)
  then show ?thesis
  proof cases
    case unchanged
    then show ?thesis using assms(1) by auto
  next
    case seeded
    then show ?thesis using seed_loop_grows [OF assms(1), of uni watched fresh 0 toks]
      by (auto simp: seedable_def)
  qed
qed

lemma Seed_whitelist_witness:
  "\<exists>rows'. Seed (\<lambda>_ _. False) (\<lambda>s. s) (\<lambda>s. s)
      (Inr [\<lparr>tk_Address = 7, tk_Symbol = ''Usdc'', tk_Name = ''USD Coin'', tk_Decimals = 6\<rparr>,
            \<lparr>tk_Address = 8, tk_Symbol = ''SPAM'', tk_Name = ''Spam'', tk_Decimals = 18\<rparr>])
      None None (\<lambda>k. (''01'', 5, None)) 1 [] = (None, rows')
    \<and> (\<forall>i w. token_book rows' i = Some w \<longrightarrow> wt_Address w = 7) \<and> length rows' = 1"
proof -
  let ?ck = "\<lambda>_ _. False" and ?uni = "\<lambda>s. s"
  let ?toks = "[\<lparr>tk_Address = 7, tk_Symbol = ''Usdc'', tk_Name = ''USD Coin'', tk_Decimals = 6\<rparr>,
            \<lparr>tk_Address = 8, tk_Symbol = ''SPAM'', tk_Name = ''Spam'', tk_Decimals = 18\<rparr>]"
  let ?rows = "seed_loop ?ck ?uni [] (\<lambda>k. (''01'', 5, None)) 0 ?toks []"
  have spam: "ToUpper_with ?uni ''SPAM'' \<notin> set autoSeedSymbols" by code_simp
  have usdc: "ToUpper_with ?uni ''Usdc'' \<in> set autoSeedSymbols" by code_simp
  have run: "Seed ?ck (\<lambda>s. s) ?uni (Inr ?toks) None None (\<lambda>k. (''01'', 5, None)) 1 [] = (None, ?rows)"
    by (simp add: Seed_def IsZero_address_def ZeroAddress_def List_token_rows_def read_rows_def
        del: seed_loop.simps)
  have "length ?rows = 1"
    using spam usdc by (simp add: Create_token_row_def insert_unique_def)
  moreover have "wt_Address w = 7" if "token_book ?rows i = Some w" for i w
    using Seed_whitelist [OF wl.empty_table(1) run] that spam wl.empty_table(2) by fastforce
  ultimately show ?thesis using run by blast
qed

end
