(* ===== verification/Decimal_Text.thy ===== *)
theory Decimal_Text
  imports Decimals Errors
begin

text \<open>
  Reading a decimal from text: the vendored library's \<open>NewFromString\<close>, which parses the
  amounts a client sends and the values the transaction table stores.
\<close>

text \<open>
  \<open>strconv.ParseInt\<close> in base 10: no number, or one out of range. The digits are read from the
  left, so digits that are already too large are reported before a later character that is none.
\<close>

datatype num_error = ErrSyntax | ErrRange

definition leading_digits :: "string \<Rightarrow> nat" where
  "leading_digits s =
     (let body = (case s of [] \<Rightarrow> [] | c # cs \<Rightarrow> if c = CHR ''+'' \<or> c = CHR ''-'' then cs else s)
      in case parse_digits 10 0 (takeWhile (\<lambda>c. 48 \<le> (of_char c :: nat) \<and> (of_char c :: nat) \<le> 57) body) of
           None \<Rightarrow> 0 | Some n \<Rightarrow> n)"

definition ParseInt :: "nat \<Rightarrow> string \<Rightarrow> num_error + int" where
  "ParseInt bits s =
     (case SetString 10 s of
        None \<Rightarrow> Inl (if leading_digits s \<ge> 2 ^ bits then ErrRange else ErrSyntax)
      | Some n \<Rightarrow> if - (2 ^ (bits - 1)) \<le> n \<and> n < 2 ^ (bits - 1) then Inr n else Inl ErrRange)"

definition cannot_convert :: "string \<Rightarrow> string \<Rightarrow> err" where
  "cannot_convert value why = WrapError (''can't convert '' @ value @ '' to decimal'' @ why) []"

text \<open>The exponent after the first \<open>E\<close> or \<open>e\<close>, and what is before it.\<close>

definition split_exponent :: "string \<Rightarrow> err + string \<times> int" where
  "split_exponent value =
     (let mant = takeWhile (\<lambda>c. c \<noteq> CHR ''E'' \<and> c \<noteq> CHR ''e'') value in
      if length mant = length value then Inr (value, 0)
      else case ParseInt 32 (drop (length mant + 1) value) of
          Inl ErrRange \<Rightarrow> Inl (cannot_convert value '': fractional part too long'')
        | Inl ErrSyntax \<Rightarrow> Inl (cannot_convert value '': exponent is not numeric'')
        | Inr n \<Rightarrow> Inr (mant, n))"

text \<open>The digits without the decimal point, and how many of them follow it.\<close>

definition split_point :: "string \<Rightarrow> err + string \<times> nat" where
  "split_point value =
     (if length (filter (\<lambda>c. c = CHR ''.'') value) > 1 then Inl (cannot_convert value '': too many .s'')
      else let before = takeWhile (\<lambda>c. c \<noteq> CHR ''.'') value; after = drop (length before + 1) value in
        if length before = length value then Inr (value, 0) else Inr (before @ after, length after))"

definition NewFromString :: "string \<Rightarrow> err + decimal" where
  "NewFromString original =
     bindE (split_exponent original) (\<lambda>(value, exp).
     bindE (split_point value) (\<lambda>(intString, places).
     bindE (if length intString \<le> 18
            then (case ParseInt 64 intString of Inl e \<Rightarrow> Inl (cannot_convert value '''') | Inr n \<Rightarrow> Inr n)
            else (case SetString 10 intString of None \<Rightarrow> Inl (cannot_convert value '''') | Some n \<Rightarrow> Inr n)) (\<lambda>dValue.
     if \<not> int32_range (exp - int places) then Inl (cannot_convert original '': fractional part too long'')
     else Inr (Dec dValue (exp - int places)))))"

section \<open>Digit strings\<close>

definition all_digits :: "string \<Rightarrow> bool" where
  "all_digits s \<longleftrightarrow> list_all (\<lambda>c. 48 \<le> (of_char c :: nat) \<and> (of_char c :: nat) \<le> 57) s"

lemma all_digits_simps [simp]:
  "all_digits []" "all_digits (c # s) \<longleftrightarrow> 48 \<le> (of_char c :: nat) \<and> (of_char c :: nat) \<le> 57 \<and> all_digits s"
  "all_digits (s @ t) \<longleftrightarrow> all_digits s \<and> all_digits t"
  by (simp_all add: all_digits_def)

lemma all_digits_show_nat: "all_digits (show_nat n)"
  unfolding show_nat_def
proof (induction n rule: less_induct)
  case (less n)
  then show ?case by (subst show_base.simps) (auto simp: digit_char_def)
qed

lemma all_digits_zeros: "all_digits (replicate n (CHR ''0''))"
  by (induction n) simp_all

lemma all_digits_not_in:
  "all_digits s \<Longrightarrow> c \<in> set s \<Longrightarrow> c \<noteq> CHR ''.'' \<and> c \<noteq> CHR ''e'' \<and> c \<noteq> CHR ''E'' \<and> c \<noteq> CHR ''-'' \<and> c \<noteq> CHR ''+''"
  by (induction s) auto

lemma all_digits_take_drop: "all_digits s \<Longrightarrow> all_digits (take n s) \<and> all_digits (drop n s)"
  by (metis all_digits_simps(3) append_take_drop_id)

lemma parse_digits_all_digits:
  "all_digits s \<Longrightarrow> \<exists>v < (acc + 1) * 10 ^ length s. parse_digits 10 acc s = Some v"
proof (induction s arbitrary: acc)
  case (Cons c s)
  let ?d = "(of_char c :: nat) - 48"
  have d: "digit_val c = Some ?d" "?d < 10" using Cons.prems by (auto simp: digit_val_def Let_def)
  obtain v where v: "v < (acc * 10 + ?d + 1) * 10 ^ length s" "parse_digits 10 (acc * 10 + ?d) s = Some v"
    using Cons.IH [of "acc * 10 + ?d"] Cons.prems by auto
  have "(acc * 10 + ?d + 1) * 10 ^ length s \<le> ((acc + 1) * 10) * 10 ^ length s"
    by (rule mult_le_mono1) (use d(2) in simp)
  with v(1) have "v < ((acc + 1) * 10) * 10 ^ length s" by (rule order_less_le_trans)
  then have "v < (acc + 1) * 10 ^ length (c # s)" by (simp add: algebra_simps)
  then show ?case using d v(2) by auto
qed simp

lemma parse_digits_zeros: "parse_digits 10 acc (replicate n (CHR ''0'')) = Some (acc * 10 ^ n)"
  by (induction n arbitrary: acc) (simp_all add: digit_val_def)

lemma parse_digits_leading_zeros: "parse_digits 10 0 (replicate n (CHR ''0'') @ s) = parse_digits 10 0 s"
  by (simp add: parse_digits_append parse_digits_zeros)

lemma trim_zeros_split: "\<exists>j. s = trim_zeros s @ replicate j (CHR ''0'')"
proof -
  have "rev s = takeWhile (\<lambda>c. c = CHR ''0'') (rev s) @ dropWhile (\<lambda>c. c = CHR ''0'') (rev s)" by simp
  then have "s = trim_zeros s @ rev (takeWhile (\<lambda>c. c = CHR ''0'') (rev s))"
    unfolding trim_zeros_def by (metis rev_append rev_rev_ident)
  moreover have "takeWhile (\<lambda>c. c = CHR ''0'') (rev s)
      = replicate (length (takeWhile (\<lambda>c. c = CHR ''0'') (rev s))) (CHR ''0'')"
    by (rule replicate_eqI) (auto dest: set_takeWhileD)
  ultimately show ?thesis by (metis rev_replicate)
qed

section \<open>Round trip\<close>

lemma split_exponent_none:
  assumes "\<forall>c \<in> set s. c \<noteq> CHR ''E'' \<and> c \<noteq> CHR ''e''"
  shows "split_exponent s = Inr (s, 0)"
proof -
  have "takeWhile (\<lambda>c. c \<noteq> CHR ''E'' \<and> c \<noteq> CHR ''e'') s = s" using assms by simp
  then show ?thesis by (simp only: split_exponent_def Let_def simp_thms if_True)
qed

lemma split_point_none:
  assumes "\<forall>c \<in> set s. c \<noteq> CHR ''.''"
  shows "split_point s = Inr (s, 0)"
proof -
  have "takeWhile (\<lambda>c. c \<noteq> CHR ''.'') s = s" "filter (\<lambda>c. c = CHR ''.'') s = []"
    using assms by (auto simp: filter_empty_conv)
  then show ?thesis by (simp only: split_point_def Let_def) simp
qed

lemma NewFromString_parts:
  assumes "split_exponent s = Inr (t, e)" "split_point t = Inr (i, k)" "SetString 10 i = Some n"
    and "length i \<le> 18 \<Longrightarrow> \<bar>n\<bar> < 2 ^ 63" "int32_range (e - int k)"
  shows "NewFromString s = Inr (Dec n (e - int k))"
proof -
  have "ParseInt 64 i = Inr n" if "length i \<le> 18"
    using assms(3) assms(4) [OF that] by (auto simp: ParseInt_def abs_less_iff)
  then show ?thesis using assms by (cases "length i \<le> 18") (simp_all add: NewFromString_def)
qed

lemma NewFromString_number:
  assumes "all_digits ip" "all_digits fr" "ip \<noteq> []" "parse_digits 10 0 (ip @ fr) = Some v" "length fr \<le> 2 ^ 31"
  shows "NewFromString ((if neg then [CHR ''-''] else []) @ (if fr = [] then ip else ip @ ''.'' @ fr))
    = Inr (Dec (if neg then - int v else int v) (- int (length fr)))"
proof -
  let ?sg = "if neg then [CHR ''-''] else []"
  let ?s = "?sg @ (if fr = [] then ip else ip @ ''.'' @ fr)"
  have digits: "c \<noteq> CHR ''.'' \<and> c \<noteq> CHR ''e'' \<and> c \<noteq> CHR ''E''" if "c \<in> set (ip @ fr)" for c
    using that all_digits_not_in [OF assms(1)] all_digits_not_in [OF assms(2)] by auto
  have e: "split_exponent ?s = Inr (?s, 0)"
    using digits by (intro split_exponent_none) (auto split: if_splits)
  have p: "split_point ?s = Inr (?sg @ ip @ fr, length fr)"
  proof (cases "fr = []")
    case True
    then show ?thesis using digits by (simp add: split_point_none)
  next
    case False
    have "takeWhile (\<lambda>c. c \<noteq> CHR ''.'') (?sg @ ip @ ''.'' @ fr) = ?sg @ ip"
      using digits by (simp add: takeWhile_append2)
    moreover have "filter (\<lambda>c. c = CHR ''.'') ip = []" "filter (\<lambda>c. c = CHR ''.'') fr = []"
      using digits by (auto simp: filter_empty_conv)
    then have "filter (\<lambda>c. c = CHR ''.'') (?sg @ ip @ ''.'' @ fr) = [CHR ''.'']" by simp
    ultimately show ?thesis using False by (simp add: split_point_def)
  qed
  obtain c cs where c: "ip @ fr = c # cs" using assms(3) by (cases ip) auto
  have "c \<in> set (ip @ fr)" by (simp add: c)
  then have "c \<noteq> CHR ''-''" "c \<noteq> CHR ''+''"
    using all_digits_not_in [OF assms(1), of c] all_digits_not_in [OF assms(2), of c] by auto
  then have n: "SetString 10 (?sg @ ip @ fr) = Some (if neg then - int v else int v)"
    using assms(3,4) c by (simp add: SetString_def parse_base_def)
  have "v < 10 ^ length (ip @ fr)"
    using parse_digits_all_digits [of "ip @ fr" 0] assms(1,2,4) by auto
  moreover have "(10 :: nat) ^ length (ip @ fr) \<le> 10 ^ 18" if "length (ip @ fr) \<le> 18"
    using that by (rule power_increasing) simp
  ultimately have "\<bar>if neg then - int v else int v\<bar> < 2 ^ 63" if "length (?sg @ ip @ fr) \<le> 18"
    using that by (auto split: if_splits)
  moreover have "int32_range (0 - int (length fr))" using assms(5) by (simp add: int32_range_def)
  ultimately show ?thesis using NewFromString_parts [OF e p n] by simp
qed

text \<open>The digits of a fraction, split at the point and without its trailing zeros.\<close>

lemma dec_string_parts:
  assumes "dexp d < 0"
  obtains ip fr j v where "dec_String d = (if coeff d < 0 then [CHR ''-''] else []) @ (if fr = [] then ip else ip @ ''.'' @ fr)"
    "all_digits ip" "all_digits fr" "ip \<noteq> []" "parse_digits 10 0 (ip @ fr) = Some v"
    "length fr + j = nat (- dexp d)" "v * 10 ^ j = nat \<bar>coeff d\<bar>"
proof -
  define str where "str = show_nat (nat \<bar>coeff d\<bar>)"
  define k where "k = nat (- dexp d)"
  define ip where "ip = (if k < length str then take (length str - k) str else ''0'')"
  define frac where "frac = (if k < length str then drop (length str - k) str else replicate (k - length str) (CHR ''0'') @ str)"
  obtain j where j: "frac = trim_zeros frac @ replicate j (CHR ''0'')" using trim_zeros_split by blast
  have str: "all_digits str" "parse_digits 10 0 str = Some (nat \<bar>coeff d\<bar>)"
    by (simp_all add: str_def all_digits_show_nat) (simp add: show_nat_def parse_digits_show_base)
  have d: "all_digits ip" "all_digits frac" "ip \<noteq> []" "length frac = k"
    using str(1) assms by (auto simp: ip_def frac_def all_digits_take_drop all_digits_zeros k_def)
  have p: "parse_digits 10 0 (ip @ frac) = Some (nat \<bar>coeff d\<bar>)"
  proof (cases "k < length str")
    case True
    then show ?thesis using str(2) by (simp add: ip_def frac_def)
  next
    case False
    then have "ip @ frac = replicate (Suc (k - length str)) (CHR ''0'') @ str" by (simp add: ip_def frac_def)
    then show ?thesis using str(2) by (simp only: parse_digits_leading_zeros)
  qed
  have t: "all_digits (trim_zeros frac)" using d(2) j by (metis all_digits_simps(3))
  obtain v where v: "parse_digits 10 0 (ip @ trim_zeros frac) = Some v"
    using parse_digits_all_digits [of "ip @ trim_zeros frac" 0] d(1) t by auto
  have "parse_digits 10 0 ((ip @ trim_zeros frac) @ replicate j (CHR ''0'')) = Some (v * 10 ^ j)"
    by (subst parse_digits_append) (simp add: v parse_digits_zeros)
  moreover have "(ip @ trim_zeros frac) @ replicate j (CHR ''0'') = ip @ frac"
    unfolding append_assoc using j by (rule arg_cong [OF sym])
  ultimately have m: "v * 10 ^ j = nat \<bar>coeff d\<bar>" using p by simp
  have l: "length (trim_zeros frac) + j = nat (- dexp d)"
    using arg_cong [OF j, of length] d(4) by (simp add: k_def)
  have "dec_String d = (if coeff d < 0 then [CHR ''-''] else []) @
      (if trim_zeros frac = [] then ip else ip @ ''.'' @ trim_zeros frac)"
    using assms unfolding dec_String_def dec_string_def Let_def ip_def frac_def str_def k_def
    by (simp only: linorder_not_le [symmetric] if_False if_True append.simps append_Nil append_Cons split: if_split) simp
  then show thesis using d(1) t d(3) v l m by (rule that)
qed

lemma dec_String_fraction:
  assumes "- (2 ^ 31) \<le> dexp d" and True: "dexp d < 0"
  shows "\<exists>d'. NewFromString (dec_String d) = Inr d' \<and> dexp d' \<le> 0 \<and> dexp d \<le> dexp d'
    \<and> coeff d' * 10 ^ nat (dexp d' - dexp d) = coeff d"
proof -
  obtain ip fr j v where p: "dec_String d = (if coeff d < 0 then [CHR ''-''] else []) @ (if fr = [] then ip else ip @ ''.'' @ fr)"
    "all_digits ip" "all_digits fr" "ip \<noteq> []" "parse_digits 10 0 (ip @ fr) = Some v"
    "length fr + j = nat (- dexp d)" "v * 10 ^ j = nat \<bar>coeff d\<bar>"
    using dec_string_parts [OF True] .
  have "length fr \<le> 2 ^ 31" using p(6) assms by simp
  note r = NewFromString_number [OF p(2-5) this, of "coeff d < 0", folded p(1)]
  have "nat (- int (length fr) - dexp d) = j" using p(6) True by simp
  moreover have "(if coeff d < 0 then - int v else int v) * 10 ^ j = coeff d"
    using arg_cong [OF p(7), of int] by auto
  ultimately show ?thesis using r True p(6) by auto
qed

lemma dec_String_integer:
  assumes False: "\<not> dexp d < 0"
  shows "NewFromString (dec_String d) = Inr (Dec (coeff d * 10 ^ nat (dexp d)) 0)"
proof -
  let ?n = "coeff d * 10 ^ nat (dexp d)"
  have s: "dec_String d = show_int ?n"
    using False by (cases d) (auto simp: dec_String_def dec_string_def rescale_def)
  have "all_digits (show_nat (nat \<bar>?n\<bar>))" "show_nat (nat \<bar>?n\<bar>) \<noteq> []"
    by (rule all_digits_show_nat) (simp add: show_nat_def)
  moreover have "parse_digits 10 0 (show_nat (nat \<bar>?n\<bar>) @ []) = Some (nat \<bar>?n\<bar>)"
    by (simp add: show_nat_def parse_digits_show_base)
  ultimately have "NewFromString ((if ?n < 0 then [CHR ''-''] else []) @ show_nat (nat \<bar>?n\<bar>)) = Inr (Dec ?n 0)"
    using NewFromString_number [of "show_nat (nat \<bar>?n\<bar>)" "[]" "nat \<bar>?n\<bar>" "?n < 0"] by simp
  moreover have "show_int ?n = (if ?n < 0 then [CHR ''-''] else []) @ show_nat (nat \<bar>?n\<bar>)"
    by (simp add: show_int_def)
  ultimately show ?thesis using False s by simp
qed

lemma dec_String_reads: "- (2 ^ 31) \<le> dexp d \<Longrightarrow> \<exists>d'. NewFromString (dec_String d) = Inr d'"
  using dec_String_fraction [of d] dec_String_integer [of d] by (cases "dexp d < 0") auto

text \<open>
  C37. A decimal is read back from its text: same number, without the trailing zeros of the
  fraction, so that what the transaction table stores and what a client is shown loses
  nothing. A positive exponent comes back as the integer it stands for.
\<close>

theorem decimal_text_roundtrip:
  assumes "- (2 ^ 31) \<le> dexp d"
  shows "\<exists>d'. NewFromString (dec_String d) = Inr d' \<and> dexp d' \<le> 0
    \<and> (if dexp d < 0 then dexp d \<le> dexp d' \<and> coeff d' * 10 ^ nat (dexp d' - dexp d) = coeff d
       else d' = Dec (coeff d * 10 ^ nat (dexp d)) 0)"
  using dec_String_fraction [OF assms] dec_String_integer [of d] by (cases "dexp d < 0") auto

lemma decimal_text_roundtrip_witness:
  "dec_String (Dec (- 120) (- 2)) = ''-1.2'' \<and> (\<exists>d'. NewFromString ''-1.2'' = Inr d' \<and> dexp d' \<le> 0)"
proof -
  have "dec_String (Dec (- 120) (- 2)) = ''-1.2''" by code_simp
  then show ?thesis using decimal_text_roundtrip [of "Dec (- 120) (- 2)"] by auto
qed

end
