(* ===== verification/Txstore.thy ===== *)
theory Txstore
  imports Repository Ethtypes Decimal_Text
begin

text \<open>
  internal/domain/transaction: the cached transfers and their table. A transfer is keyed by
  its unique id; the statements keep the order of insertion, and a failure of a statement
  is an argument. Timestamps are compared as instants.
\<close>

record transaction =
  tx_ID :: string
  tx_UniqueID :: string
  tx_Hash :: string
  tx_From :: address
  tx_To :: address
  tx_Value :: decimal
  tx_Asset :: string
  tx_Category :: string
  tx_BlockNumber :: u64
  tx_Timestamp :: time
  tx_CachedAt :: time
  tx_GasFeeEth :: string
  tx_GasFeeUsd :: string
  tx_IsSwap :: bool
  tx_TokenInSym :: string
  tx_TokenInVal :: string
  tx_TokenOutSym :: string
  tx_TokenOutVal :: string

record tx_row =
  xr_id :: string
  xr_unique_id :: string
  xr_hash :: string
  xr_from_address :: string
  xr_to_address :: string
  xr_value :: string
  xr_asset :: string
  xr_category :: string
  xr_block_number :: u64
  xr_timestamp :: time
  xr_cached_at :: time
  xr_gas_fee_eth :: string
  xr_gas_fee_usd :: string

type_synonym tx_table = "tx_row list"

definition tx_row :: "checksum \<Rightarrow> transaction \<Rightarrow> tx_row" where
  "tx_row ck t =
     \<lparr>xr_id = tx_ID t, xr_unique_id = tx_UniqueID t, xr_hash = tx_Hash t,
      xr_from_address = Hex ck (tx_From t), xr_to_address = Hex ck (tx_To t),
      xr_value = dec_String (tx_Value t), xr_asset = tx_Asset t, xr_category = tx_Category t,
      xr_block_number = tx_BlockNumber t, xr_timestamp = tx_Timestamp t, xr_cached_at = tx_CachedAt t,
      xr_gas_fee_eth = tx_GasFeeEth t, xr_gas_fee_usd = tx_GasFeeUsd t\<rparr>"

definition scanTx :: "tx_row \<Rightarrow> err + transaction" where
  "scanTx r =
     bindE (case NewAddress (xr_from_address r) of
         Inl e \<Rightarrow> Inl (wrap CodeInternal ''invalid from address'' e) | Inr a \<Rightarrow> Inr a) (\<lambda>from.
     bindE (case NewAddress (xr_to_address r) of
         Inl e \<Rightarrow> Inl (wrap CodeInternal ''invalid to address'' e) | Inr a \<Rightarrow> Inr a) (\<lambda>to.
     bindE (case NewFromString (xr_value r) of
         Inl e \<Rightarrow> Inl (wrap CodeInternal ''invalid value'' e) | Inr v \<Rightarrow> Inr v) (\<lambda>val.
     Inr \<lparr>tx_ID = xr_id r, tx_UniqueID = xr_unique_id r, tx_Hash = xr_hash r, tx_From = from, tx_To = to,
          tx_Value = val, tx_Asset = xr_asset r, tx_Category = xr_category r,
          tx_BlockNumber = xr_block_number r, tx_Timestamp = xr_timestamp r, tx_CachedAt = xr_cached_at r,
          tx_GasFeeEth = xr_gas_fee_eth r, tx_GasFeeUsd = xr_gas_fee_usd r, tx_IsSwap = False,
          tx_TokenInSym = '''', tx_TokenInVal = '''', tx_TokenOutSym = '''', tx_TokenOutVal = ''''\<rparr>)))"

definition Upsert :: "checksum \<Rightarrow> err option \<Rightarrow> transaction \<Rightarrow> tx_table \<Rightarrow> err option \<times> tx_table" where
  "Upsert ck fail tx rows =
     (let r = tx_row ck tx;
          (err, rows') = (case fail of Some e \<Rightarrow> (Some e, rows)
           | None \<Rightarrow>
             if list_ex (\<lambda>x. xr_unique_id x = xr_unique_id r) rows
             then (None, update_where (\<lambda>x. xr_unique_id x = xr_unique_id r) (\<lambda>x. x\<lparr>xr_cached_at := xr_cached_at r\<rparr>) rows)
             else if list_ex (\<lambda>x. xr_id x = xr_id r) rows then (Some (unique_violation ''transactions.id''), rows)
             else (None, rows @ [r]))
      in (map_option (wrap CodeInternal ''upsert transaction'') err, rows'))"

definition UpdateGasFees :: "err option \<Rightarrow> string \<Rightarrow> string \<Rightarrow> string \<Rightarrow> tx_table \<Rightarrow> err option \<times> tx_table" where
  "UpdateGasFees fail hash gasFeeEth gasFeeUsd rows =
     (case fail of
        Some e \<Rightarrow> (Some (wrap CodeInternal ''update gas fees'' e), rows)
      | None \<Rightarrow> (None, update_where (\<lambda>r. xr_hash r = hash)
          (\<lambda>r. r\<lparr>xr_gas_fee_eth := gasFeeEth, xr_gas_fee_usd := gasFeeUsd\<rparr>) rows))"

definition GetByHash :: "err option \<Rightarrow> string \<Rightarrow> tx_table \<Rightarrow> err + transaction" where
  "GetByHash fail hash rows =
     (let res = (case fail of Some e \<Rightarrow> Inl e
           | None \<Rightarrow> (case row_of xr_hash rows hash of None \<Rightarrow> Inl ErrNoRows | Some r \<Rightarrow> scanTx r))
      in case res of
           Inl e \<Rightarrow> if Is e ErrNoRows then Inl (New CodeNotFound (''transaction not found: '' @ hash)) else Inl e
         | Inr t \<Rightarrow> Inr t)"

text \<open>The rows of an address, newest first and by unique id within an instant.\<close>

definition involves :: "string \<Rightarrow> tx_row \<Rightarrow> bool" where
  "involves address r \<longleftrightarrow> xr_from_address r = address \<or> xr_to_address r = address"

definition address_rows :: "string \<Rightarrow> tx_table \<Rightarrow> tx_table" where
  "address_rows address rows =
     sort_key (\<lambda>r. - xr_timestamp r) (sort_key xr_unique_id (filter (involves address) rows))"

definition ListByAddress ::
  "err option \<Rightarrow> err option \<Rightarrow> string \<Rightarrow> int \<Rightarrow> int \<Rightarrow> tx_table \<Rightarrow> err + transaction list" where
  "ListByAddress fail iterErr address limit offset rows =
     (case fail of
        Some e \<Rightarrow> Inl (wrap CodeInternal ''list transactions'' e)
      | None \<Rightarrow> read_rows scanTx iterErr (sql_limit limit (sql_offset offset (address_rows address rows))))"

definition CountByAddress :: "err option \<Rightarrow> string \<Rightarrow> tx_table \<Rightarrow> err + int" where
  "CountByAddress fail address rows =
     (case fail of
        Some e \<Rightarrow> Inl (wrap CodeInternal ''count transactions'' e)
      | None \<Rightarrow> Inr (int (length (remdups (map xr_hash (filter (involves address) rows))))))"

definition DeleteOlderThan :: "err option \<Rightarrow> time \<Rightarrow> tx_table \<Rightarrow> (err + nat) \<times> tx_table" where
  "DeleteOlderThan fail before rows =
     (case fail of
        Some e \<Rightarrow> (Inl (wrap CodeInternal ''delete old transactions'' e), rows)
      | None \<Rightarrow> (Inr (count_where (\<lambda>r. xr_timestamp r < before) rows),
                 delete_where (\<lambda>r. xr_timestamp r < before) rows))"

section \<open>Laws\<close>

text \<open>
  The invariant of the table: unique ids are unique and every row can be read.
\<close>

definition tx_table_ok :: "tx_table \<Rightarrow> bool" where
  "tx_table_ok rows \<longleftrightarrow> distinct (map xr_unique_id rows) \<and> list_all (\<lambda>r. \<not> isl (scanTx r)) rows"

lemma scanTx_cong:
  assumes "xr_from_address r' = xr_from_address r" "xr_to_address r' = xr_to_address r" "xr_value r' = xr_value r"
  shows "isl (scanTx r') = isl (scanTx r)"
  using assms by (simp add: scanTx_def bindE_def split: sum.splits)

lemma scanTx_updates [simp]:
  "isl (scanTx (r\<lparr>xr_cached_at := c\<rparr>)) = isl (scanTx r)"
  "isl (scanTx (r\<lparr>xr_gas_fee_eth := g, xr_gas_fee_usd := h\<rparr>)) = isl (scanTx r)"
  by (rule scanTx_cong; simp)+

lemma tx_table_ok_update:
  assumes "tx_table_ok rows" "\<And>r. xr_unique_id (f r) = xr_unique_id r"
    "\<And>r. isl (scanTx (f r)) = isl (scanTx r)"
  shows "tx_table_ok (update_where p f rows)"
  using assms by (auto simp: tx_table_ok_def map_update_where list_all_iff set_update_where)

lemma isr_scan_tx_row: "- (2 ^ 31) \<le> dexp (tx_Value t) \<Longrightarrow> \<not> isl (scanTx (tx_row ck t))"
  using dec_String_reads [of "tx_Value t"] by (auto simp: scanTx_def tx_row_def)

text \<open>
  An upsert adds the row of a new unique id, and of a known one changes the time it was
  cached at and nothing else.
\<close>

lemma Upsert_row:
  assumes "Upsert ck fail tx rows = (None, rows')"
  shows "row_of xr_unique_id rows' u =
    (if u = tx_UniqueID tx then
       (case row_of xr_unique_id rows u of
          None \<Rightarrow> Some (tx_row ck tx) | Some r \<Rightarrow> Some (r\<lparr>xr_cached_at := tx_CachedAt tx\<rparr>))
     else row_of xr_unique_id rows u)"
proof -
  let ?u = "tx_UniqueID tx"
  have k: "xr_unique_id (tx_row ck tx) = ?u" "xr_cached_at (tx_row ck tx) = tx_CachedAt tx"
    by (simp_all add: tx_row_def)
  have f: "fail = None" using assms by (cases fail) (auto simp: Upsert_def)
  show ?thesis
  proof (cases "list_ex (\<lambda>x. xr_unique_id x = ?u) rows")
    case True
    then have "rows' = update_where (\<lambda>x. xr_unique_id x = ?u) (\<lambda>x. x\<lparr>xr_cached_at := tx_CachedAt tx\<rparr>) rows"
      using assms f k by (auto simp: Upsert_def)
    moreover obtain r where "row_of xr_unique_id rows ?u = Some r"
      using True by (cases "row_of xr_unique_id rows ?u") (auto simp: list_ex_iff row_of_None_iff image_iff)
    ultimately show ?thesis by (simp add: row_of_update_key)
  next
    case False
    then have "rows' = rows @ [tx_row ck tx]" "row_of xr_unique_id rows ?u = None"
      using assms f k by (auto simp: Upsert_def Let_def list_ex_iff row_of_None_iff split: if_splits)
    then show ?thesis using k by (auto simp: row_of_append row_of_Cons split: option.splits)
  qed
qed

lemma Upsert_fails: "Upsert ck fail tx rows = (Some e, rows') \<Longrightarrow> rows' = rows"
  by (cases fail) (auto simp: Upsert_def Let_def split: if_splits)

lemma Upsert_ok:
  assumes "tx_table_ok rows" "- (2 ^ 31) \<le> dexp (tx_Value tx)"
  shows "tx_table_ok (snd (Upsert ck fail tx rows))"
proof (cases "fst (Upsert ck fail tx rows)")
  case None
  have f: "fail = None" using None by (cases fail) (auto simp: Upsert_def)
  have "tx_table_ok (update_where p (\<lambda>x. x\<lparr>xr_cached_at := c\<rparr>) rows)" for p c
    by (rule tx_table_ok_update [OF assms(1)]) simp_all
  moreover have "tx_table_ok (rows @ [tx_row ck tx])" if "\<not> list_ex (\<lambda>x. xr_unique_id x = tx_UniqueID tx) rows"
    using that assms isr_scan_tx_row [of tx ck] by (auto simp: tx_table_ok_def list_ex_iff tx_row_def)
  moreover have "xr_unique_id (tx_row ck tx) = tx_UniqueID tx" by (simp add: tx_row_def)
  ultimately show ?thesis using f assms(1)
    by (cases "list_ex (\<lambda>x. xr_unique_id x = tx_UniqueID tx) rows") (simp_all add: Upsert_def Let_def)
next
  case (Some e)
  then show ?thesis using Upsert_fails [of ck fail tx rows e] assms(1) by (cases "Upsert ck fail tx rows") auto
qed

lemma UpdateGasFees_ok: "tx_table_ok rows \<Longrightarrow> tx_table_ok (snd (UpdateGasFees fail hash eth usd rows))"
  by (cases fail) (auto simp: UpdateGasFees_def intro!: tx_table_ok_update)

end
