(* ===== verification/History.thy ===== *)
theory History
  imports Txstore Alchemy Tx
begin

text \<open>
  internal/usecase/history: the merging of swap legs, the paged query over the cached
  transfers, and the synchronisation with the transfer service.
\<close>

definition syncCooldown :: duration where "syncCooldown = 30 * Second"

text \<open>
  Only ASCII letters and digits pass; every other rune, and with it every byte from 128 on, is
  dropped.
\<close>

fun normalizeAsset :: "string \<Rightarrow> string" where
  "normalizeAsset [] = []"
| "normalizeAsset (c # s) =
     (let r = (of_char c :: nat) in
      if 65 \<le> r \<and> r \<le> 90 then c # normalizeAsset s
      else if 97 \<le> r \<and> r \<le> 122 then char_of (r - 32) # normalizeAsset s
      else if 48 \<le> r \<and> r \<le> 57 then c # normalizeAsset s
      else normalizeAsset s)"

section \<open>Merging swap legs\<close>

text \<open>The groups by hash in the order they are first seen; the index map finds the group.\<close>

fun add_leg :: "(string \<times> transaction list) list \<Rightarrow> transaction \<Rightarrow> (string \<times> transaction list) list" where
  "add_leg [] t = [(tx_Hash t, [t])]"
| "add_leg ((h, es) # gs) t = (if h = tx_Hash t then (h, es @ [t]) # gs else (h, es) # add_leg gs t)"

definition group_legs :: "transaction list \<Rightarrow> (string \<times> transaction list) list" where
  "group_legs legs = foldl add_leg [] legs"

text \<open>The outbound and the inbound leg found so far.\<close>

definition find_legs ::
  "checksum \<Rightarrow> string \<Rightarrow> transaction list \<Rightarrow> transaction option \<times> transaction option" where
  "find_legs ck walletLower entries =
     foldl (\<lambda>(sent, recv) e.
       if ToLower (Hex ck (tx_From e)) = walletLower \<and> sent = None then (Some e, recv)
       else if ToLower (Hex ck (tx_To e)) = walletLower \<and> recv = None then (sent, Some e)
       else (sent, recv)) (None, None) entries"

definition swap_row :: "transaction \<Rightarrow> transaction \<Rightarrow> transaction" where
  "swap_row sent recv =
     (let swap = recv\<lparr>tx_IsSwap := True, tx_TokenInSym := tx_Asset sent, tx_TokenInVal := dec_String (tx_Value sent),
                     tx_TokenOutSym := tx_Asset recv, tx_TokenOutVal := dec_String (tx_Value recv)\<rparr>
      in if tx_Timestamp sent < tx_Timestamp recv then swap\<lparr>tx_Timestamp := tx_Timestamp sent\<rparr> else swap)"

text \<open>
  \<open>fold_eq\<close> is \<open>EqualFold\<close>, over Unicode. The code compares the symbols of the two legs as
  they are; its comment counts a wrap of ETH to WETH among the equal ones, which it is not.
\<close>

definition tryMergeSwap ::
  "checksum \<Rightarrow> (string \<Rightarrow> string \<Rightarrow> bool) \<Rightarrow> string \<Rightarrow> transaction list \<Rightarrow> transaction option" where
  "tryMergeSwap ck fold_eq walletLower entries =
     (if length entries \<noteq> 2 then None
      else case find_legs ck walletLower entries of
        (Some sent, Some recv) \<Rightarrow>
          if fold_eq (tx_Asset sent) (tx_Asset recv) then None else Some (swap_row sent recv)
      | _ \<Rightarrow> None)"

definition mergeSwapLegs ::
  "checksum \<Rightarrow> (string \<Rightarrow> string \<Rightarrow> bool) \<Rightarrow> transaction list \<Rightarrow> string \<Rightarrow> transaction list" where
  "mergeSwapLegs ck fold_eq legs walletAddress =
     (if length legs = 0 then legs
      else concat (map (\<lambda>(h, entries).
        case tryMergeSwap ck fold_eq (ToLower walletAddress) entries of
          Some merged \<Rightarrow> [merged] | None \<Rightarrow> entries) (group_legs legs)))"

section \<open>The query\<close>

record history_state =
  hs_lastSync :: time
  hs_syncing :: bool

record history_params =
  hp_Address :: address
  hp_Limit :: int
  hp_Cursor :: string

record history_result =
  hr_Transactions :: "transaction list"
  hr_Total :: int
  hr_NextCursor :: string
  hr_HasMore :: bool

record history_env =
  he_since :: time
  he_now :: time
  he_list :: "err option"
  he_iter :: "err option"
  he_count :: "err option"

definition cursor_offset :: "string \<Rightarrow> int" where
  "cursor_offset cursor =
     (if cursor = '''' then 0
      else case ParseInt 64 cursor of Inl e \<Rightarrow> 0 | Inr n \<Rightarrow> if n > 0 then n else 0)"

text \<open>
  The cooldown: whether a background synchronisation is started, and the new floor. The
  synchronisation itself runs beside the query.
\<close>

definition cooldown_over :: "time \<Rightarrow> history_state \<Rightarrow> bool" where
  "cooldown_over since h \<longleftrightarrow> Sub_time since (hs_lastSync h) > syncCooldown"

definition GetHistory ::
  "checksum \<Rightarrow> (string \<Rightarrow> string \<Rightarrow> bool) \<Rightarrow> history_env \<Rightarrow> history_params \<Rightarrow> tx_table \<Rightarrow> history_state \<Rightarrow>
   (err + history_result) \<times> bool \<times> history_state" where
  "GetHistory ck fold_eq env p rows h =
     (let limit = (if hp_Limit p = 0 then 20 else hp_Limit p);
          offset = cursor_offset (hp_Cursor p);
          shouldSync = cooldown_over (he_since env) h;
          h' = (if shouldSync then h\<lparr>hs_lastSync := he_now env\<rparr> else h);
          address = Hex ck (hp_Address p)
      in (case ListByAddress (he_list env) (he_iter env) address limit offset rows of
            Inl e \<Rightarrow> Inl (wrap CodeInternal ''list transactions'' e)
          | Inr legs \<Rightarrow>
            (let rawCount = int (length legs);
                 merged = mergeSwapLegs ck fold_eq legs address;
                 total = (case CountByAddress (he_count env) address rows of
                     Inl e \<Rightarrow> int (length merged) | Inr n \<Rightarrow> n);
                 hasMore = (rawCount = limit)
             in Inr \<lparr>hr_Transactions = merged, hr_Total = total,
                     hr_NextCursor = (if hasMore then show_int (offset + limit) else ''''),
                     hr_HasMore = hasMore\<rparr>),
          shouldSync, h'))"

section \<open>Storing transfers\<close>

text \<open>\<open>verified\<close> is the predicate of the token list, when one is wired.\<close>

definition isSpamTransfer :: "checksum \<Rightarrow> (string \<Rightarrow> bool) option \<Rightarrow> asset_transfer \<Rightarrow> bool" where
  "isSpamTransfer ck verified t =
     (case (verified, at_Token t) of
        (Some v, Some tok) \<Rightarrow> \<not> v (ToLower (Hex ck (tk_Address tok)))
      | _ \<Rightarrow> False)"

definition alchemyToEntity :: "string \<Rightarrow> asset_transfer \<Rightarrow> time \<Rightarrow> transaction" where
  "alchemyToEntity ident t now =
     \<lparr>tx_ID = ident, tx_UniqueID = at_UniqueID t, tx_Hash = at_Hash t, tx_From = at_From t, tx_To = at_To t,
      tx_Value = at_Value t, tx_Asset = normalizeAsset (at_Asset t), tx_Category = at_Category t,
      tx_BlockNumber = at_BlockNumber t, tx_Timestamp = at_Timestamp t, tx_CachedAt = now,
      tx_GasFeeEth = '''', tx_GasFeeUsd = '''', tx_IsSwap = False, tx_TokenInSym = '''',
      tx_TokenInVal = '''', tx_TokenOutSym = '''', tx_TokenOutVal = ''''\<rparr>"

text \<open>
  What is stored while a direction is fetched: the table, the hashes whose gas is to be
  fetched, and the number of identifiers drawn. \<open>fresh k\<close> is the \<open>k\<close>-th identifier with the
  failure of its upsert.
\<close>

record fetched =
  fe_rows :: tx_table
  fe_hashes :: "string list"
  fe_ids :: nat

fun store_page ::
  "checksum \<Rightarrow> (string \<Rightarrow> bool) option \<Rightarrow> (nat \<Rightarrow> string \<times> err option) \<Rightarrow> time \<Rightarrow> asset_transfer list \<Rightarrow>
   fetched \<Rightarrow> fetched" where
  "store_page ck verified fresh now [] f = f"
| "store_page ck verified fresh now (t # ts) f =
     (if isSpamTransfer ck verified t then store_page ck verified fresh now ts f
      else (let (ulid, fail) = fresh (fe_ids f) in
        case Upsert ck fail (alchemyToEntity ulid t now) (fe_rows f) of
          (Some e, rows') \<Rightarrow> store_page ck verified fresh now ts \<lparr>fe_rows = rows', fe_hashes = fe_hashes f, fe_ids = fe_ids f + 1\<rparr>
        | (None, rows') \<Rightarrow> store_page ck verified fresh now ts
            \<lparr>fe_rows = rows', fe_hashes = fe_hashes f @ [at_Hash t], fe_ids = fe_ids f + 1\<rparr>))"

text \<open>
  The pages of one direction. \<open>acquire k\<close> is the failure of the semaphore and \<open>alchemy k\<close> the
  answer at page \<open>k\<close>; \<open>None\<close> when \<open>fuel\<close> pages were not enough.
\<close>

fun fetchAllPages ::
  "nat \<Rightarrow> checksum \<Rightarrow> (string \<Rightarrow> bool) option \<Rightarrow> (nat \<Rightarrow> string \<times> err option) \<Rightarrow> (nat \<Rightarrow> err option) \<Rightarrow>
   (nat \<Rightarrow> transfers_params \<Rightarrow> err + transfers_page) \<Rightarrow> time \<Rightarrow> nat \<Rightarrow> transfers_params \<Rightarrow> fetched \<Rightarrow>
   (err option \<times> fetched) option" where
  "fetchAllPages 0 ck verified fresh acquire alchemy now k params f = None"
| "fetchAllPages (Suc fuel) ck verified fresh acquire alchemy now k params f =
     (case acquire k of
        Some e \<Rightarrow> Some (Some e, f)
      | None \<Rightarrow> (case alchemy k params of
          Inl e \<Rightarrow> Some (Some e, f)
        | Inr page \<Rightarrow>
          (let f' = store_page ck verified fresh now (pg_Transfers page) f in
           if pg_PageKey page = '''' then Some (None, f')
           else fetchAllPages fuel ck verified fresh acquire alchemy now (k + 1)
             (params\<lparr>gp_PageKey := pg_PageKey page\<rparr>) f')))"

section \<open>Synchronising\<close>

definition base_params :: "string list \<Rightarrow> address list \<Rightarrow> transfers_params" where
  "base_params categories contracts =
     \<lparr>gp_FromAddress = None, gp_ToAddress = None, gp_FromBlock = ''0x0'', gp_ToBlock = '''',
      gp_Categories = categories, gp_ContractAddresses = contracts, gp_MaxCount = 0, gp_PageKey = '''',
      gp_WithMetadata = True\<rparr>"

definition directions :: "address \<Rightarrow> address list \<Rightarrow> transfers_params list" where
  "directions addr watchedContracts =
     (let eth = base_params [CategoryExternal, CategoryInternal] [];
          erc20 = base_params [CategoryERC20] watchedContracts
      in [eth\<lparr>gp_ToAddress := Some addr\<rparr>, eth\<lparr>gp_FromAddress := Some addr\<rparr>]
         @ (if length watchedContracts > 0
            then [erc20\<lparr>gp_ToAddress := Some addr\<rparr>, erc20\<lparr>gp_FromAddress := Some addr\<rparr>] else []))"

text \<open>
  The directions run in parallel and share only the table, one statement at a time; they are
  taken in the order in which they end, and the group reports the first error. \<open>None\<close> when
  one of them does not end within the fuel.
\<close>

fun run_directions ::
  "nat \<Rightarrow> checksum \<Rightarrow> (string \<Rightarrow> bool) option \<Rightarrow> (nat \<Rightarrow> string \<times> err option) \<Rightarrow>
   (transfers_params \<Rightarrow> nat \<Rightarrow> err option) \<Rightarrow> (nat \<Rightarrow> transfers_params \<Rightarrow> err + transfers_page) \<Rightarrow> time \<Rightarrow>
   transfers_params list \<Rightarrow> err option \<times> fetched \<Rightarrow> (err option \<times> fetched) option" where
  "run_directions fuel ck verified fresh acquire alchemy now [] acc = Some acc"
| "run_directions fuel ck verified fresh acquire alchemy now (base # rest) (first, f) =
     (case fetchAllPages fuel ck verified fresh (acquire base) alchemy now 0 base f of
        None \<Rightarrow> None
      | Some (e, f') \<Rightarrow> run_directions fuel ck verified fresh acquire alchemy now rest
          (case first of Some e0 \<Rightarrow> Some e0 | None \<Rightarrow> e, f'))"

definition enrichGasFee ::
  "(string \<Rightarrow> (err + tx_receipt) option) \<Rightarrow> (string \<Rightarrow> err option) \<Rightarrow> string \<Rightarrow> tx_table \<Rightarrow> tx_table" where
  "enrichGasFee getReceipt fail hash rows =
     (case getReceipt hash of
        Some (Inl e) \<Rightarrow> rows
      | None \<Rightarrow> rows
      | Some (Inr receipt) \<Rightarrow>
          snd (UpdateGasFees (fail hash) hash (StringFixed (ToETH (rc_GasCost receipt)) 8) '''' rows))"

text \<open>
  A synchronisation: the directions, then the gas of the stored transfers; \<open>order\<close> is the order
  in which the directions end and \<open>enrich\<close> the one of the gas updates.
\<close>

definition syncFromAlchemy ::
  "nat \<Rightarrow> checksum \<Rightarrow> (string \<Rightarrow> bool) option \<Rightarrow> (nat \<Rightarrow> string \<times> err option) \<Rightarrow>
   (transfers_params \<Rightarrow> nat \<Rightarrow> err option) \<Rightarrow> (nat \<Rightarrow> transfers_params \<Rightarrow> err + transfers_page) \<Rightarrow>
   (string \<Rightarrow> (err + tx_receipt) option) \<Rightarrow> (string \<Rightarrow> err option) \<Rightarrow>
   (transfers_params list \<Rightarrow> transfers_params list) \<Rightarrow> (string list \<Rightarrow> string list) \<Rightarrow>
   time \<Rightarrow> address \<Rightarrow> address list \<Rightarrow> tx_table \<Rightarrow> (err option \<times> tx_table) option" where
  "syncFromAlchemy fuel ck verified fresh acquire alchemy getReceipt gasFail order enrich now addr watched rows =
     (case run_directions fuel ck verified fresh acquire alchemy now (order (directions addr watched))
             (None, \<lparr>fe_rows = rows, fe_hashes = [], fe_ids = 0\<rparr>) of
        None \<Rightarrow> None
      | Some (e, f) \<Rightarrow> Some (e, fold (enrichGasFee getReceipt gasFail) (enrich (fe_hashes f)) (fe_rows f)))"

text \<open>The entry points: a regular one behind the cooldown, a forced one behind the flag.\<close>

definition Sync_gate :: "time \<Rightarrow> time \<Rightarrow> history_state \<Rightarrow> bool \<times> history_state" where
  "Sync_gate since now h =
     (if \<not> cooldown_over since h then (False, h) else (True, h\<lparr>hs_lastSync := now\<rparr>))"

definition SyncForce_enter :: "time \<Rightarrow> history_state \<Rightarrow> bool \<times> history_state" where
  "SyncForce_enter now h =
     (if hs_syncing h then (False, h) else (True, h\<lparr>hs_syncing := True, hs_lastSync := now\<rparr>))"

definition SyncForce_leave :: "history_state \<Rightarrow> history_state" where
  "SyncForce_leave h = h\<lparr>hs_syncing := False\<rparr>"

section \<open>Merging keeps the legs\<close>

lemma add_leg_spec:
  "distinct (map fst gs) \<Longrightarrow> distinct (map fst (add_leg gs t)) \<and>
     map fst (add_leg gs t) = (if tx_Hash t \<in> fst ` set gs then map fst gs else map fst gs @ [tx_Hash t]) \<and>
     map_of (add_leg gs t) = (map_of gs)(tx_Hash t \<mapsto> (case map_of gs (tx_Hash t) of None \<Rightarrow> [] | Some es \<Rightarrow> es) @ [t])"
proof (induction gs t rule: add_leg.induct)
  case (2 h es gs t)
  then show ?case by (auto simp: fun_eq_iff image_iff)
qed simp

definition first_seen :: "'a list \<Rightarrow> 'a list" where
  "first_seen xs = rev (remdups (rev xs))"

lemma first_seen_snoc: "first_seen (xs @ [x]) = (if x \<in> set xs then first_seen xs else first_seen xs @ [x])"
  by (auto simp: first_seen_def)

lemma group_legs_spec:
  "group_legs legs = map (\<lambda>h. (h, filter (\<lambda>t. tx_Hash t = h) legs)) (first_seen (map tx_Hash legs))"
proof -
  have inv: "distinct (map fst (group_legs legs)) \<and> map fst (group_legs legs) = first_seen (map tx_Hash legs)
      \<and> (\<forall>h. map_of (group_legs legs) h =
          (if h \<in> tx_Hash ` set legs then Some (filter (\<lambda>t. tx_Hash t = h) legs) else None))"
  proof (induction legs rule: rev_induct)
    case Nil
    show ?case by (simp add: group_legs_def first_seen_def)
  next
    case (snoc t legs)
    have g: "group_legs (legs @ [t]) = add_leg (group_legs legs) t" by (simp add: group_legs_def)
    have s: "fst ` set (group_legs legs) = tx_Hash ` set legs"
      using snoc.IH arg_cong [of _ _ set] by (metis first_seen_def list.set_map set_remdups set_rev)
    have m: "filter (\<lambda>u. tx_Hash u = tx_Hash t) legs = []" if "tx_Hash t \<notin> tx_Hash ` set legs"
      using that by (simp add: filter_empty_conv image_iff) metis
    show ?case
      using snoc.IH add_leg_spec [of "group_legs legs" t] m unfolding g
      by (auto simp: s first_seen_snoc simp del: map_of_eq_Some_iff split: if_splits)
  qed
  have "group_legs legs = map (\<lambda>h. (h, the (map_of (group_legs legs) h))) (map fst (group_legs legs))"
    by (rule map_of_entries [OF inv [THEN conjunct1], symmetric])
  also have "\<dots> = map (\<lambda>h. (h, filter (\<lambda>t. tx_Hash t = h) legs)) (first_seen (map tx_Hash legs))"
    using inv by (auto simp: first_seen_def simp del: map_of_eq_Some_iff)
  finally show ?thesis .
qed

text \<open>The view of one group: a pair of legs out of and into the wallet, of different assets.\<close>

definition merge_group ::
  "(string \<Rightarrow> string \<Rightarrow> bool) \<Rightarrow> address \<Rightarrow> transaction list \<Rightarrow> transaction list" where
  "merge_group fold_eq w g =
     (case g of
        [a, b] \<Rightarrow>
          if tx_From a = w \<and> tx_To b = w \<and> \<not> fold_eq (tx_Asset a) (tx_Asset b) then [swap_row a b]
          else if tx_From a \<noteq> w \<and> tx_To a = w \<and> tx_From b = w \<and> \<not> fold_eq (tx_Asset b) (tx_Asset a) then [swap_row b a]
          else g
      | _ \<Rightarrow> g)"

lemma tryMergeSwap_group:
  "(case tryMergeSwap ck fold_eq (ToLower (Hex ck w)) g of Some m \<Rightarrow> [m] | None \<Rightarrow> g) = merge_group fold_eq w g"
proof (cases "\<exists>a b. g = [a, b]")
  case True
  then obtain a b where "g = [a, b]" by blast
  then show ?thesis by (auto simp: tryMergeSwap_def merge_group_def find_legs_def ToLower_Hex)
next
  case False
  then have "length g \<noteq> 2" by (auto simp: numeral_2_eq_2 length_Suc_conv)
  moreover have "merge_group fold_eq w g = g" using False by (auto simp: merge_group_def split: list.splits)
  ultimately show ?thesis by (simp add: tryMergeSwap_def)
qed

lemma set_first_seen [simp]: "set (first_seen xs) = set xs"
  by (simp add: first_seen_def)

lemma mergeSwapLegs_groups:
  "mergeSwapLegs ck fold_eq legs (Hex ck w) =
     concat (map (\<lambda>h. merge_group fold_eq w (filter (\<lambda>t. tx_Hash t = h) legs)) (first_seen (map tx_Hash legs)))"
proof (cases "legs = []")
  case True
  then show ?thesis by (simp add: mergeSwapLegs_def first_seen_def)
next
  case False
  then show ?thesis
    by (simp add: mergeSwapLegs_def group_legs_spec tryMergeSwap_group o_def)
qed

lemma merge_group_cases:
  obtains (raw) "merge_group fold_eq w g = g"
    | (swap) a b where "merge_group fold_eq w g = [swap_row a b]" "set g = {a, b}" "tx_From a = w" "tx_To b = w"
        "\<not> fold_eq (tx_Asset a) (tx_Asset b)"
proof (cases "\<exists>a b. g = [a, b]")
  case True
  then obtain a b where g: "g = [a, b]" by blast
  show thesis
  proof (cases "tx_From a = w \<and> tx_To b = w \<and> \<not> fold_eq (tx_Asset a) (tx_Asset b)")
    case True
    then show thesis by (intro swap [of a b]) (simp_all add: merge_group_def g)
  next
    case first: False
    show thesis
    proof (cases "tx_From a \<noteq> w \<and> tx_To a = w \<and> tx_From b = w \<and> \<not> fold_eq (tx_Asset b) (tx_Asset a)")
      case True
      then show thesis using first by (intro swap [of b a]) (auto simp: merge_group_def g)
    next
      case False
      then show thesis using first by (intro raw) (simp only: merge_group_def g list.case if_False)
    qed
  qed
next
  case False
  then show thesis using that(1) by (auto simp: merge_group_def split: list.splits)
qed

lemma merge_group_keeps:
  assumes "t \<in> set g"
  shows "t \<in> set (merge_group fold_eq w g) \<or>
     (\<exists>a b. swap_row a b \<in> set (merge_group fold_eq w g) \<and> t \<in> {a, b} \<and> a \<in> set g \<and> b \<in> set g
        \<and> tx_From a = w \<and> tx_To b = w \<and> \<not> fold_eq (tx_Asset a) (tx_Asset b))"
proof (cases rule: merge_group_cases [of fold_eq w g])
  case raw
  then show ?thesis using assms by simp
next
  case (swap a b)
  then have "swap_row a b \<in> set (merge_group fold_eq w g)" "t \<in> {a, b}" "a \<in> set g" "b \<in> set g"
    using assms by simp_all
  then show ?thesis using swap by blast
qed

text \<open>
  A wrap or unwrap: one leg in ETH and one in WETH. The comment at \<open>tryMergeSwap\<close> wants both
  shown raw; the symbols are not equal, so the code shows them as one swap.
\<close>

lemma wrap_shown_as_swap:
  assumes "filter (\<lambda>t. tx_Hash t = h) legs = [sent, recv]" "tx_From sent = w" "tx_To recv = w"
    and "(tx_Asset sent, tx_Asset recv) \<in> {(''ETH'', ''WETH''), (''WETH'', ''ETH'')}"
  shows "merge_group EqualFold w (filter (\<lambda>t. tx_Hash t = h) legs) = [swap_row sent recv]"
    and "swap_row sent recv \<in> set (mergeSwapLegs ck EqualFold legs (Hex ck w))"
proof -
  have "\<not> EqualFold ''ETH'' ''WETH''" "\<not> EqualFold ''WETH'' ''ETH''" by code_simp+
  with assms(4) have "\<not> EqualFold (tx_Asset sent) (tx_Asset recv)" by auto
  then show own: "merge_group EqualFold w (filter (\<lambda>t. tx_Hash t = h) legs) = [swap_row sent recv]"
    using assms(1-3) by (simp add: merge_group_def)
  have "sent \<in> set (filter (\<lambda>t. tx_Hash t = h) legs)" using assms(1) by simp
  then have "h \<in> tx_Hash ` set legs" by auto
  then show "swap_row sent recv \<in> set (mergeSwapLegs ck EqualFold legs (Hex ck w))"
    unfolding mergeSwapLegs_groups set_concat set_map set_first_seen using own by force
qed

text \<open>
  C23. The history shows every cached transfer, in the order in which the transactions were
  first seen. Each transaction is shown as its transfers, except one of exactly two
  transfers, out of the wallet and into it, of different assets: it is shown as one swap
  from the sent to the received asset. Assets differ when their symbols do, so a wrap between ETH and WETH is
  shown as a swap too, against the comment of \<open>tryMergeSwap\<close>. No transfer is lost: it is shown itself or it is a
  side of a swap of its transaction.
\<close>

theorem mergeSwapLegs_exact:
  "mergeSwapLegs ck fold_eq legs (Hex ck w) =
     concat (map (\<lambda>h. merge_group fold_eq w (filter (\<lambda>t. tx_Hash t = h) legs)) (first_seen (map tx_Hash legs)))
   \<and> (\<forall>t \<in> set legs. t \<in> set (mergeSwapLegs ck fold_eq legs (Hex ck w)) \<or>
       (\<exists>a b. swap_row a b \<in> set (mergeSwapLegs ck fold_eq legs (Hex ck w)) \<and> t \<in> {a, b} \<and> a \<in> set legs \<and> b \<in> set legs
          \<and> tx_Hash a = tx_Hash t \<and> tx_Hash b = tx_Hash t \<and> tx_From a = w \<and> tx_To b = w
          \<and> \<not> fold_eq (tx_Asset a) (tx_Asset b)))"
proof (intro conjI ballI)
  fix t assume t: "t \<in> set legs"
  let ?g = "filter (\<lambda>u. tx_Hash u = tx_Hash t) legs"
  have sub: "set (merge_group fold_eq w ?g) \<subseteq> set (mergeSwapLegs ck fold_eq legs (Hex ck w))"
    using t by (auto simp: mergeSwapLegs_groups)
  have "t \<in> set ?g" using t by simp
  from merge_group_keeps [OF this, of fold_eq w] sub
  show "t \<in> set (mergeSwapLegs ck fold_eq legs (Hex ck w)) \<or>
       (\<exists>a b. swap_row a b \<in> set (mergeSwapLegs ck fold_eq legs (Hex ck w)) \<and> t \<in> {a, b} \<and> a \<in> set legs \<and> b \<in> set legs
          \<and> tx_Hash a = tx_Hash t \<and> tx_Hash b = tx_Hash t \<and> tx_From a = w \<and> tx_To b = w
          \<and> \<not> fold_eq (tx_Asset a) (tx_Asset b))"
    by (auto simp del: insert_iff)
qed (rule mergeSwapLegs_groups)

definition zero_transaction :: transaction where
  "zero_transaction =
     \<lparr>tx_ID = [], tx_UniqueID = [], tx_Hash = [], tx_From = 0, tx_To = 0, tx_Value = Dec 0 0, tx_Asset = [],
      tx_Category = [], tx_BlockNumber = 0, tx_Timestamp = 0, tx_CachedAt = 0, tx_GasFeeEth = [],
      tx_GasFeeUsd = [], tx_IsSwap = False, tx_TokenInSym = [], tx_TokenInVal = [], tx_TokenOutSym = [],
      tx_TokenOutVal = []\<rparr>"

lemma mergeSwapLegs_exact_witness:
  "let out = zero_transaction\<lparr>tx_Hash := ''0xab'', tx_From := 1, tx_To := 2, tx_Asset := ''USDC''\<rparr>;
       inn = zero_transaction\<lparr>tx_Hash := ''0xab'', tx_From := 3, tx_To := 1, tx_Asset := ''WBTC''\<rparr>
   in mergeSwapLegs (\<lambda>_ _. False) EqualFold [out, inn] (Hex (\<lambda>_ _. False) 1) = [swap_row out inn]"
proof -
  let ?out = "zero_transaction\<lparr>tx_Hash := ''0xab'', tx_From := 1, tx_To := 2, tx_Asset := ''USDC''\<rparr>"
  let ?in = "zero_transaction\<lparr>tx_Hash := ''0xab'', tx_From := 3, tx_To := 1, tx_Asset := ''WBTC''\<rparr>"
  have "\<not> EqualFold ''USDC'' ''WBTC''" by code_simp
  then show ?thesis
    using mergeSwapLegs_exact [of "\<lambda>_ _. False" EqualFold "[?out, ?in]" 1]
    by (simp add: first_seen_def merge_group_def zero_transaction_def Let_def)
qed

section \<open>Assets\<close>

definition alnum :: "char \<Rightarrow> bool" where
  "alnum c \<longleftrightarrow> (let r = (of_char c :: nat) in 65 \<le> r \<and> r \<le> 90 \<or> 97 \<le> r \<and> r \<le> 122 \<or> 48 \<le> r \<and> r \<le> 57)"

lemma normalizeAsset_filter: "normalizeAsset s = map upper_char (filter alnum s)"
  by (induction s) (auto simp: alnum_def upper_char_def Let_def)

lemma of_char_upper_char:
  "(of_char (upper_char c) :: nat) =
     (if 97 \<le> (of_char c :: nat) \<and> (of_char c :: nat) \<le> 122 then of_char c - 32 else of_char c)"
proof (cases "97 \<le> (of_char c :: nat) \<and> (of_char c :: nat) \<le> 122")
  case True
  then have "(of_char c :: nat) - 32 < 256" by linarith
  then show ?thesis using True by (simp add: upper_char_def)
next
  case False
  then show ?thesis unfolding upper_char_def by (simp only: if_False)
qed

lemma upper_char_alnum:
  "alnum c \<Longrightarrow> alnum (upper_char c) \<and> upper_char (upper_char c) = upper_char c
     \<and> \<not> (97 \<le> (of_char (upper_char c) :: nat) \<and> (of_char (upper_char c) :: nat) \<le> 122)"
proof -
  assume a: "alnum c"
  then have n: "\<not> (97 \<le> (of_char (upper_char c) :: nat) \<and> (of_char (upper_char c) :: nat) \<le> 122)"
    by (auto simp: of_char_upper_char alnum_def Let_def)
  then have "upper_char (upper_char c) = upper_char c"
    unfolding upper_char_def [of "upper_char c"] by (rule if_not_P)
  moreover have "alnum (upper_char c)" using a by (auto simp: of_char_upper_char alnum_def Let_def)
  ultimately show ?thesis using n by simp
qed

text \<open>
  A stored asset symbol is made of upper-case ASCII letters and digits only, whatever the
  transfer claimed: it is the letters and digits of the claimed symbol in upper case, so that
  normalising twice changes nothing.
\<close>

theorem normalizeAsset_canonical:
  "normalizeAsset s = map upper_char (filter alnum s)
   \<and> normalizeAsset (normalizeAsset s) = normalizeAsset s
   \<and> list_all (\<lambda>c. alnum c \<and> upper_char c = c) (normalizeAsset s)"
proof -
  have "filter alnum (map upper_char (filter alnum s)) = map upper_char (filter alnum s)"
    using upper_char_alnum by (auto simp: filter_id_conv)
  moreover have "map upper_char (map upper_char (filter alnum s)) = map upper_char (filter alnum s)"
    using upper_char_alnum by auto
  ultimately show ?thesis using upper_char_alnum by (auto simp: normalizeAsset_filter list_all_iff)
qed

section \<open>Paging\<close>

text \<open>A client that follows the cursors from \<open>c\<close>: the pages it gets.\<close>

fun follow :: "nat \<Rightarrow> (string \<Rightarrow> err + history_result) \<Rightarrow> string \<Rightarrow> transaction list list option" where
  "follow 0 q c = None"
| "follow (Suc fuel) q c =
     (case q c of
        Inl e \<Rightarrow> None
      | Inr r \<Rightarrow> if hr_HasMore r then map_option ((#) (hr_Transactions r)) (follow fuel q (hr_NextCursor r))
                 else Some [hr_Transactions r])"

definition address_history :: "checksum \<Rightarrow> address \<Rightarrow> tx_table \<Rightarrow> transaction list" where
  "address_history ck w rows = entities scanTx (address_rows (Hex ck w) rows)"

lemma set_address_rows: "set (address_rows a rows) = {r \<in> set rows. involves a r}"
  by (auto simp: address_rows_def)

lemma ListByAddress_page:
  assumes "tx_table_ok rows" "0 < n"
  shows "ListByAddress None None (Hex ck w) (int n) (int k) rows = Inr (take n (drop k (address_history ck w rows)))"
proof -
  have "list_all (\<lambda>r. \<not> isl (scanTx r)) (take n (drop k (address_rows (Hex ck w) rows)))"
    using assms(1) set_address_rows [of "Hex ck w" rows]
    by (auto simp: tx_table_ok_def list_all_iff dest!: in_set_takeD in_set_dropD)
  then show ?thesis
    using assms(2) by (simp add: ListByAddress_def sql_limit_def sql_offset_def read_rows_ok address_history_def
        entities_def take_map drop_map)
qed

lemma cursor_offset_show: "k < 2 ^ 63 \<Longrightarrow> cursor_offset (if k = 0 then [] else show_int (int k)) = int k"
proof (cases "k = 0")
  case False
  assume "k < 2 ^ 63"
  then have "int k < 2 ^ 63" by (metis of_nat_less_iff of_nat_numeral of_nat_power)
  moreover have "show_int (int k) \<noteq> []" by (simp add: show_int_def show_nat_def)
  ultimately show ?thesis using False by (simp add: cursor_offset_def ParseInt_def SetString_show_int)
qed (simp add: cursor_offset_def)

definition page_query ::
  "checksum \<Rightarrow> (string \<Rightarrow> string \<Rightarrow> bool) \<Rightarrow> history_env \<Rightarrow> address \<Rightarrow> int \<Rightarrow> tx_table \<Rightarrow> history_state \<Rightarrow> string \<Rightarrow>
   err + history_result" where
  "page_query ck fold_eq env w limit rows h cursor =
     fst (GetHistory ck fold_eq env \<lparr>hp_Address = w, hp_Limit = limit, hp_Cursor = cursor\<rparr> rows h)"

lemma page_query_page:
  assumes "tx_table_ok rows" "0 < n" "k < 2 ^ 63" "he_list env = None" "he_iter env = None"
  shows "\<exists>total. page_query ck fold_eq env w (int n) rows h (if k = 0 then [] else show_int (int k)) =
    (let page = take n (drop k (address_history ck w rows)) in
     Inr \<lparr>hr_Transactions = mergeSwapLegs ck fold_eq page (Hex ck w), hr_Total = total,
          hr_NextCursor = (if length page = n then show_int (int (k + n)) else ''''), hr_HasMore = (length page = n)\<rparr>)"
proof -
  have c: "cursor_offset (if k = 0 then [] else show_int (int k)) = int k" using assms(3) by (rule cursor_offset_show)
  have n: "int n \<noteq> 0" using assms(2) by simp
  show ?thesis
    using ListByAddress_page [OF assms(1,2), of ck w k] assms(4,5)
    unfolding page_query_def GetHistory_def history_params.simps c if_not_P [OF n] Let_def
    by (simp add: of_nat_eq_iff [symmetric] del: of_nat_eq_iff)
qed

lemma follow_pages:
  assumes "tx_table_ok rows" "0 < n" "he_list env = None" "he_iter env = None"
    and "length (address_history ck w rows) + n < 2 ^ 63"
    and "length (drop k (address_history ck w rows)) < fuel" "k \<le> length (address_history ck w rows)"
  shows "\<exists>chunks. concat chunks = drop k (address_history ck w rows)
    \<and> (\<forall>c \<in> set (butlast chunks). length c = n) \<and> length (List.last chunks) < n \<and> chunks \<noteq> []
    \<and> follow fuel (page_query ck fold_eq env w (int n) rows h) (if k = 0 then [] else show_int (int k))
      = Some (map (\<lambda>c. mergeSwapLegs ck fold_eq c (Hex ck w)) chunks)"
  using assms(6,7)
proof (induction fuel arbitrary: k)
  case (Suc fuel)
  let ?L = "address_history ck w rows" and ?q = "page_query ck fold_eq env w (int n) rows h"
  have "k < 2 ^ 63" using Suc.prems(2) assms(5) by linarith
  note page = page_query_page [OF assms(1,2) this assms(3,4), of ck fold_eq w h]
  show ?case
  proof (cases "length (take n (drop k ?L)) = n")
    case False
    then have "length (drop k ?L) < n" by (simp split: if_splits)
    then have "take n (drop k ?L) = drop k ?L" by simp
    then show ?thesis using page False assms(2) by (intro exI [of _ "[drop k ?L]"]) (auto simp: Let_def)
  next
    case True
    then have kn: "k + n \<le> length ?L" using Suc.prems(2) by (simp split: if_splits)
    moreover have "length (drop (k + n) ?L) < fuel" using Suc.prems(1) assms(2) kn by simp
    ultimately obtain chunks where IH: "concat chunks = drop (k + n) ?L" "\<forall>c \<in> set (butlast chunks). length c = n"
        "length (List.last chunks) < n" "chunks \<noteq> []"
        "follow fuel ?q (if k + n = 0 then [] else show_int (int (k + n)))
          = Some (map (\<lambda>c. mergeSwapLegs ck fold_eq c (Hex ck w)) chunks)"
      using Suc.IH [of "k + n"] by blast
    have "concat (take n (drop k ?L) # chunks) = drop k ?L"
      using IH(1) append_take_drop_id [of n "drop k ?L"] by (simp add: add.commute)
    moreover have "follow (Suc fuel) ?q (if k = 0 then [] else show_int (int k))
        = Some (map (\<lambda>c. mergeSwapLegs ck fold_eq c (Hex ck w)) (take n (drop k ?L) # chunks))"
      using page True IH(5) assms(2) by (auto simp: Let_def)
    ultimately show ?thesis using IH(2,3,4) True
      by (intro exI [of _ "take n (drop k ?L) # chunks"]) auto
  qed
qed simp

text \<open>
  C24. Following the cursors from the first page to the last, with a page size of \<open>n\<close>, shows
  the whole cached history of the address exactly once: the pages are the merged views of
  consecutive pieces of it, newest first, all of \<open>n\<close> transfers but the last, which is
  shorter. The legs of a swap are not merged across a page boundary.
\<close>

theorem history_pages:
  assumes "tx_table_ok rows" "0 < n" "he_list env = None" "he_iter env = None"
    and "length (address_history ck w rows) + n < 2 ^ 63"
    and "length (address_history ck w rows) < fuel"
  shows "\<exists>chunks. concat chunks = address_history ck w rows
    \<and> (\<forall>c \<in> set (butlast chunks). length c = n) \<and> length (List.last chunks) < n
    \<and> follow fuel (page_query ck fold_eq env w (int n) rows h) ''''
      = Some (map (\<lambda>c. mergeSwapLegs ck fold_eq c (Hex ck w)) chunks)"
  using follow_pages [OF assms(1-5), of 0 fuel fold_eq h] assms(6) by auto

definition sample_rows :: tx_table where
  "sample_rows = [tx_row (\<lambda>_ _. False) (zero_transaction\<lparr>tx_UniqueID := ''a'', tx_From := 1\<rparr>),
     tx_row (\<lambda>_ _. False) (zero_transaction\<lparr>tx_UniqueID := ''b'', tx_To := 1\<rparr>)]"

lemma history_pages_witness:
  "\<exists>chunks. concat chunks = address_history (\<lambda>_ _. False) 1 sample_rows
    \<and> (\<forall>c \<in> set (butlast chunks). length c = 1) \<and> length (concat chunks) = 2
    \<and> follow 3 (page_query (\<lambda>_ _. False) EqualFold
        \<lparr>he_since = 0, he_now = 0, he_list = None, he_iter = None, he_count = None\<rparr> 1 1 sample_rows
        \<lparr>hs_lastSync = 0, hs_syncing = False\<rparr>) ''''
      = Some (map (\<lambda>c. mergeSwapLegs (\<lambda>_ _. False) EqualFold c (Hex (\<lambda>_ _. False) 1)) chunks)"
proof -
  let ?ck = "\<lambda>_ _. False"
  have ok: "tx_table_ok sample_rows"
    using isr_scan_tx_row [of "zero_transaction\<lparr>tx_UniqueID := ''a'', tx_From := 1\<rparr>" ?ck]
      isr_scan_tx_row [of "zero_transaction\<lparr>tx_UniqueID := ''b'', tx_To := 1\<rparr>" ?ck]
    by (simp add: tx_table_ok_def sample_rows_def zero_transaction_def) (simp add: tx_row_def)
  have "length (address_history ?ck 1 sample_rows) = 2"
    by (simp add: address_history_def entities_def address_rows_def sample_rows_def involves_def tx_row_def zero_transaction_def)
  then show ?thesis
    using history_pages [OF ok, of 1 "\<lparr>he_since = 0, he_now = 0, he_list = None, he_iter = None, he_count = None\<rparr>"
        ?ck 1 3 EqualFold "\<lparr>hs_lastSync = 0, hs_syncing = False\<rparr>"] by auto
qed

section \<open>What a synchronisation changes\<close>

text \<open>The part of a row that no later statement changes.\<close>

definition row_core :: "tx_row \<Rightarrow> tx_row" where
  "row_core r = r\<lparr>xr_cached_at := 0, xr_gas_fee_eth := '''', xr_gas_fee_usd := ''''\<rparr>"

lemma row_core_updates [simp]:
  "row_core (r\<lparr>xr_cached_at := c\<rparr>) = row_core r"
  "row_core (r\<lparr>xr_gas_fee_eth := g, xr_gas_fee_usd := h\<rparr>) = row_core r"
  by (simp_all add: row_core_def)

lemma core_update_where:
  "(\<And>r. row_core (f r) = row_core r) \<Longrightarrow> row_core ` set (update_where p f rows) = row_core ` set rows"
proof -
  assume "\<And>r. row_core (f r) = row_core r"
  then have "(\<lambda>r. row_core (if p r then f r else r)) = row_core" by auto
  then show ?thesis by (simp only: update_where_def set_map image_image)
qed

lemma core_Upsert:
  "row_core ` set rows \<subseteq> row_core ` set (snd (Upsert ck fail tx rows))
   \<and> row_core ` set (snd (Upsert ck fail tx rows)) \<subseteq> insert (row_core (tx_row ck tx)) (row_core ` set rows)"
  by (auto simp: Upsert_def Let_def core_update_where split: option.splits if_splits)

lemma core_UpdateGasFees: "row_core ` set (snd (UpdateGasFees fail hash eth usd rows)) = row_core ` set rows"
  by (auto simp: UpdateGasFees_def core_update_where split: option.splits)

lemma row_core_asset: "row_core r = row_core r' \<Longrightarrow> xr_asset r = xr_asset r'"
  by (auto simp: row_core_def dest: arg_cong [of _ _ xr_asset])

lemma alchemyToEntity_asset: "xr_asset (tx_row ck (alchemyToEntity i t now)) = normalizeAsset (at_Asset t)"
  by (simp add: tx_row_def alchemyToEntity_def)

text \<open>\<open>grown\<close>: the table still holds what it held, and besides it only rows of the transfers \<open>P\<close>.\<close>

definition grown :: "checksum \<Rightarrow> time \<Rightarrow> (asset_transfer \<Rightarrow> bool) \<Rightarrow> tx_table \<Rightarrow> tx_table \<Rightarrow> bool" where
  "grown ck now P rows rows' \<longleftrightarrow> tx_table_ok rows' \<and> row_core ` set rows \<subseteq> row_core ` set rows'
     \<and> row_core ` set rows' \<subseteq> row_core ` set rows \<union> {row_core (tx_row ck (alchemyToEntity i t now)) |i t. P t}"

lemma grown_refl: "tx_table_ok rows \<Longrightarrow> grown ck now P rows rows"
  by (auto simp: grown_def)

lemma grown_Upsert:
  assumes "grown ck now P rows rows'" "P t" "- (2 ^ 31) \<le> dexp (at_Value t)"
  shows "grown ck now P rows (snd (Upsert ck fail (alchemyToEntity i t now) rows'))"
proof -
  define S where "S = {row_core (tx_row ck (alchemyToEntity i t now)) |i t. P t}"
  have ok: "tx_table_ok (snd (Upsert ck fail (alchemyToEntity i t now) rows'))"
    using assms(1,3) by (intro Upsert_ok) (simp_all add: grown_def alchemyToEntity_def)
  have x: "row_core (tx_row ck (alchemyToEntity i t now)) \<in> S" using assms(2) by (auto simp: S_def)
  have a: "row_core ` set rows \<subseteq> row_core ` set rows'" "row_core ` set rows' \<subseteq> row_core ` set rows \<union> S"
    using assms(1) by (simp_all only: grown_def S_def)
  note c = core_Upsert [of rows' ck fail "alchemyToEntity i t now"]
  have "A \<subseteq> C \<and> C \<subseteq> A \<union> S" if "A \<subseteq> B" "B \<subseteq> A \<union> S" "B \<subseteq> C" "C \<subseteq> insert x B" "x \<in> S" for A B C x
    using that by blast
  note this [OF a c [THEN conjunct1] c [THEN conjunct2] x]
  then show ?thesis unfolding grown_def S_def [symmetric] using ok by (simp only: simp_thms)
qed

lemma grown_store_page:
  assumes "grown ck now P rows (fe_rows f)"
    "\<And>t. t \<in> set ts \<Longrightarrow> \<not> isSpamTransfer ck verified t \<Longrightarrow> P t \<and> - (2 ^ 31) \<le> dexp (at_Value t)"
  shows "grown ck now P rows (fe_rows (store_page ck verified fresh now ts f))"
  using assms
proof (induction ts arbitrary: f)
  case (Cons t ts)
  show ?case
  proof (cases "isSpamTransfer ck verified t")
    case True
    then show ?thesis using Cons by simp
  next
    case False
    obtain ulid fail where fr: "fresh (fe_ids f) = (ulid, fail)" by fastforce
    have "grown ck now P rows (snd (Upsert ck fail (alchemyToEntity ulid t now) (fe_rows f)))"
      using Cons.prems False by (intro grown_Upsert) auto
    then show ?thesis using False fr Cons.IH Cons.prems(2)
      by (cases "Upsert ck fail (alchemyToEntity ulid t now) (fe_rows f)") (auto split: option.splits)
  qed
qed simp

lemma grown_fetchAllPages:
  assumes "fetchAllPages fuel ck verified fresh acquire alchemy now k params f = Some (e, f')"
    "grown ck now P rows (fe_rows f)"
    "\<And>k params page t. alchemy k params = Inr page \<Longrightarrow> t \<in> set (pg_Transfers page) \<Longrightarrow>
       \<not> isSpamTransfer ck verified t \<Longrightarrow> P t \<and> - (2 ^ 31) \<le> dexp (at_Value t)"
  shows "grown ck now P rows (fe_rows f')"
  using assms(1,2)
proof (induction fuel arbitrary: k params f)
  case (Suc fuel)
  then show ?case
    using grown_store_page [OF Suc.prems(2) assms(3)]
    by (auto simp: Let_def split: option.splits sum.splits if_splits)
qed simp

lemma grown_run_directions:
  assumes "run_directions fuel ck verified fresh acquire alchemy now ds (e, f) = Some (e', f')"
    "grown ck now P rows (fe_rows f)"
    "\<And>k params page t. alchemy k params = Inr page \<Longrightarrow> t \<in> set (pg_Transfers page) \<Longrightarrow>
       \<not> isSpamTransfer ck verified t \<Longrightarrow> P t \<and> - (2 ^ 31) \<le> dexp (at_Value t)"
  shows "grown ck now P rows (fe_rows f')"
  using assms(1,2)
proof (induction ds arbitrary: e f)
  case (Cons d ds)
  then obtain e1 f1 where d: "fetchAllPages fuel ck verified fresh (acquire d) alchemy now 0 d f = Some (e1, f1)"
    and rest: "run_directions fuel ck verified fresh acquire alchemy now ds
      (case e of Some e0 \<Rightarrow> Some e0 | None \<Rightarrow> e1, f1) = Some (e', f')"
    by (auto split: option.splits)
  have "grown ck now P rows (fe_rows f1)" using d Cons.prems(2) assms(3) by (rule grown_fetchAllPages)
  with rest show ?case by (rule Cons.IH)
qed simp

lemma grown_enrich:
  "grown ck now P rows rows' \<Longrightarrow> grown ck now P rows (fold (enrichGasFee getReceipt gasFail) hs rows')"
proof (induction hs arbitrary: rows')
  case (Cons h hs)
  have "grown ck now P rows (enrichGasFee getReceipt gasFail h rows')"
    using Cons.prems by (auto simp: enrichGasFee_def grown_def core_UpdateGasFees UpdateGasFees_ok
        split: option.splits sum.splits)
  then show ?case by (simp add: Cons.IH)
qed simp

text \<open>
  C25. A synchronisation, whatever the order in which its directions end, its failing
  statements and its failing queries, never loses or rewrites a cached transfer: of a known
  row only the time it was cached at and its gas change. What it adds are transfers the
  service served, with their symbol normalised, and none from a token outside the verified
  list. This holds for every number of page rounds; that the rounds end is C39.
\<close>

theorem sync_keeps:
  assumes "tx_table_ok rows"
    and "syncFromAlchemy fuel ck verified fresh acquire alchemy getReceipt gasFail order enrich now addr watched rows
      = Some (e, rows')"
    and "\<And>k params page t. alchemy k params = Inr page \<Longrightarrow> t \<in> set (pg_Transfers page) \<Longrightarrow> - (2 ^ 31) \<le> dexp (at_Value t)"
  shows "tx_table_ok rows'
    \<and> (\<forall>r \<in> set rows. \<exists>r' \<in> set rows'. row_core r' = row_core r)
    \<and> (\<forall>r' \<in> set rows'. (\<exists>r \<in> set rows. row_core r' = row_core r) \<or>
        (\<exists>k params page t i. alchemy k params = Inr page \<and> t \<in> set (pg_Transfers page) \<and> \<not> isSpamTransfer ck verified t
           \<and> row_core r' = row_core (tx_row ck (alchemyToEntity i t now))))"
proof -
  let ?P = "\<lambda>t. \<not> isSpamTransfer ck verified t \<and> (\<exists>k params page. alchemy k params = Inr page \<and> t \<in> set (pg_Transfers page))"
  obtain f where run: "run_directions fuel ck verified fresh acquire alchemy now (order (directions addr watched))
        (None, \<lparr>fe_rows = rows, fe_hashes = [], fe_ids = 0\<rparr>) = Some (e, f)"
    and rows': "rows' = fold (enrichGasFee getReceipt gasFail) (enrich (fe_hashes f)) (fe_rows f)"
    using assms(2) by (auto simp: syncFromAlchemy_def split: option.splits)
  have "grown ck now ?P rows (fe_rows f)"
    by (rule grown_run_directions [OF run]) (use grown_refl [OF assms(1)] assms(3) in auto)
  then have "grown ck now ?P rows rows'" unfolding rows' by (rule grown_enrich)
  then have g: "tx_table_ok rows'" "row_core ` set rows \<subseteq> row_core ` set rows'"
    "row_core ` set rows' \<subseteq> row_core ` set rows \<union> {row_core (tx_row ck (alchemyToEntity i t now)) |i t. ?P t}"
    by (auto simp: grown_def)
  have "\<exists>r' \<in> set rows'. row_core r' = row_core r" if "r \<in> set rows" for r
    using g(2) that by (metis image_iff subsetD)
  moreover have "(\<exists>r \<in> set rows. row_core r' = row_core r) \<or>
        (\<exists>k params page t i. alchemy k params = Inr page \<and> t \<in> set (pg_Transfers page) \<and> \<not> isSpamTransfer ck verified t
           \<and> row_core r' = row_core (tx_row ck (alchemyToEntity i t now)))" if "r' \<in> set rows'" for r'
    using subsetD [OF g(3), of "row_core r'"] that by blast
  ultimately show ?thesis using g(1) by blast
qed

definition sample_asset_transfer :: asset_transfer where
  "sample_asset_transfer =
     \<lparr>at_BlockNumber = 1, at_Timestamp = 5, at_Hash = ''0xab'', at_UniqueID = ''0xab:erc20:1'', at_From = 1, at_To = 2,
      at_Value = Dec 15 (- 1), at_Asset = ''USDC'', at_Category = CategoryERC20, at_Token = None\<rparr>"

lemma sync_keeps_witness:
  "\<exists>rows'. syncFromAlchemy 1 (\<lambda>_ _. False) None (\<lambda>k. (''i'', None)) (\<lambda>_ _. None)
       (\<lambda>k params. Inr \<lparr>pg_Transfers = [sample_asset_transfer], pg_PageKey = []\<rparr>) (\<lambda>h. None) (\<lambda>h. None) rev id 9 1 [] []
      = Some (None, rows') \<and> rows' \<noteq> [] \<and> (\<forall>r \<in> set rows'. xr_asset r = ''USDC'')"
proof -
  let ?alchemy = "\<lambda>(k :: nat) (params :: transfers_params). Inr \<lparr>pg_Transfers = [sample_asset_transfer], pg_PageKey = []\<rparr> :: err + transfers_page"
  have "\<exists>rows'. syncFromAlchemy 1 (\<lambda>_ _. False) None (\<lambda>k. (''i'', None)) (\<lambda>_ _. None)
       ?alchemy (\<lambda>h. None) (\<lambda>h. None) rev id 9 1 [] [] = Some (None, rows') \<and> rows' \<noteq> []"
    by (simp add: syncFromAlchemy_def directions_def isSpamTransfer_def Upsert_def sample_asset_transfer_def
        alchemyToEntity_def tx_row_def enrichGasFee_def update_where_def Let_def)
  then obtain rows' where run: "syncFromAlchemy 1 (\<lambda>_ _. False) None (\<lambda>k. (''i'', None)) (\<lambda>_ _. None)
       ?alchemy (\<lambda>h. None) (\<lambda>h. None) rev id 9 1 [] [] = Some (None, rows')" and ne: "rows' \<noteq> []" by blast
  have n: "normalizeAsset ''USDC'' = ''USDC''" by code_simp
  have "tx_table_ok []" by (simp add: tx_table_ok_def)
  note keeps = sync_keeps [OF this run]
  have dexp: "- (2 ^ 31) \<le> dexp (at_Value t)"
    if "Inr \<lparr>pg_Transfers = [sample_asset_transfer], pg_PageKey = []\<rparr> = (Inr page :: err + transfers_page)"
      "t \<in> set (pg_Transfers page)" for page t
    using that by (auto simp: sample_asset_transfer_def)
  have "xr_asset r = ''USDC''" if mem: "r \<in> set rows'" for r
  proof -
    let ?Q = "\<lambda>page t i. t \<in> set (pg_Transfers page)
        \<and> \<not> isSpamTransfer (\<lambda>_ _. False) None t \<and> row_core r = row_core (tx_row (\<lambda>_ _. False) (alchemyToEntity i t 9))"
    have "\<exists>k params page t i. ?alchemy k params = Inr page \<and> ?Q page t i"
      using keeps [THEN conjunct2, THEN conjunct2, rule_format, OF dexp mem]
      by (simp only: list.set(1) bex_empty simp_thms)
    then have "\<exists>page. (Inr \<lparr>pg_Transfers = [sample_asset_transfer], pg_PageKey = []\<rparr> :: err + transfers_page) = Inr page \<and> (\<exists>t i. ?Q page t i)"
      by (simp only: ex_simps simp_thms)
    then have "\<exists>t i. ?Q \<lparr>pg_Transfers = [sample_asset_transfer], pg_PageKey = []\<rparr> t i"
      by (simp only: sum.inject simp_thms)
    then obtain i where "row_core r = row_core (tx_row (\<lambda>_ _. False) (alchemyToEntity i sample_asset_transfer 9))"
      by (auto simp only: transfers_page.simps list.set insert_iff empty_iff)
    from row_core_asset [OF this] have "xr_asset r = normalizeAsset ''USDC''"
      by (simp add: alchemyToEntity_asset sample_asset_transfer_def)
    then show ?thesis using n by simp
  qed
  then show ?thesis using run ne by blast
qed

section \<open>A complete fetch\<close>

text \<open>The service serves the pages \<open>ps\<close>, chained by their keys.\<close>

fun serves :: "(nat \<Rightarrow> transfers_params \<Rightarrow> err + transfers_page) \<Rightarrow> nat \<Rightarrow> transfers_params \<Rightarrow> transfers_page list \<Rightarrow> bool" where
  "serves alchemy k params [] \<longleftrightarrow> False"
| "serves alchemy k params (p # ps) \<longleftrightarrow> alchemy k params = Inr p \<and>
     (if ps = [] then pg_PageKey p = ''''
      else pg_PageKey p \<noteq> '''' \<and> serves alchemy (k + 1) (params\<lparr>gp_PageKey := pg_PageKey p\<rparr>) ps)"

text \<open>The identifiers still to be drawn are new to the table.\<close>

definition fresh_ids :: "(nat \<Rightarrow> string \<times> err option) \<Rightarrow> fetched \<Rightarrow> bool" where
  "fresh_ids fresh f \<longleftrightarrow> (\<forall>k \<ge> fe_ids f. fst (fresh k) \<notin> xr_id ` set (fe_rows f))"

definition holds_transfer :: "asset_transfer \<Rightarrow> fetched \<Rightarrow> bool" where
  "holds_transfer t f \<longleftrightarrow> at_UniqueID t \<in> xr_unique_id ` set (fe_rows f) \<and> at_Hash t \<in> set (fe_hashes f)"

lemma Upsert_succeeds:
  assumes "xr_id (tx_row ck tx) \<notin> xr_id ` set rows"
  shows "\<exists>rows'. Upsert ck None tx rows = (None, rows') \<and> tx_UniqueID tx \<in> xr_unique_id ` set rows'
    \<and> xr_unique_id ` set rows \<subseteq> xr_unique_id ` set rows' \<and> xr_id ` set rows' \<subseteq> insert (tx_ID tx) (xr_id ` set rows)"
proof (cases "list_ex (\<lambda>x. xr_unique_id x = tx_UniqueID tx) rows")
  case True
  then have "tx_UniqueID tx \<in> xr_unique_id ` set rows" by (force simp: list_ex_iff)
  then show ?thesis using True by (auto simp: Upsert_def Let_def tx_row_def image_update_where)
next
  case False
  then show ?thesis using assms
    by (auto simp: Upsert_def Let_def list_ex_iff image_iff tx_row_def)
qed

lemma store_page_holds:
  assumes "\<And>k. snd (fresh k) = None" "inj (\<lambda>k. fst (fresh k))" "fresh_ids fresh f"
  shows "fresh_ids fresh (store_page ck verified fresh now ts f)
    \<and> (\<forall>t. holds_transfer t f \<longrightarrow> holds_transfer t (store_page ck verified fresh now ts f))
    \<and> (\<forall>t \<in> set ts. \<not> isSpamTransfer ck verified t \<longrightarrow> holds_transfer t (store_page ck verified fresh now ts f))"
  using assms(3)
proof (induction ts arbitrary: f)
  case (Cons t ts)
  show ?case
  proof (cases "isSpamTransfer ck verified t")
    case True
    then show ?thesis using Cons.IH [OF Cons.prems] by simp
  next
    case False
    obtain ulid fail where fr: "fresh (fe_ids f) = (ulid, fail)" by fastforce
    have fail: "fail = None" using assms(1) [of "fe_ids f"] fr by simp
    let ?tx = "alchemyToEntity ulid t now"
    have "ulid \<notin> xr_id ` set (fe_rows f)" using Cons.prems fr by (auto simp: fresh_ids_def dest: spec [of _ "fe_ids f"])
    then have "xr_id (tx_row ck ?tx) \<notin> xr_id ` set (fe_rows f)" by (simp add: tx_row_def alchemyToEntity_def)
    from Upsert_succeeds [OF this] obtain rows' where up: "Upsert ck None ?tx (fe_rows f) = (None, rows')"
      "tx_UniqueID ?tx \<in> xr_unique_id ` set rows'" "xr_unique_id ` set (fe_rows f) \<subseteq> xr_unique_id ` set rows'"
      "xr_id ` set rows' \<subseteq> insert (tx_ID ?tx) (xr_id ` set (fe_rows f))" by blast
    let ?f = "\<lparr>fe_rows = rows', fe_hashes = fe_hashes f @ [at_Hash t], fe_ids = fe_ids f + 1\<rparr>"
    have s: "store_page ck verified fresh now (t # ts) f = store_page ck verified fresh now ts ?f"
      using False fr fail up(1) by simp
    have "fst (fresh k) \<noteq> ulid" if "k \<ge> fe_ids f + 1" for k
      using injD [OF assms(2), of k "fe_ids f"] that fr by auto
    moreover have "xr_id ` set rows' \<subseteq> insert ulid (xr_id ` set (fe_rows f))"
      using up(4) by (simp add: alchemyToEntity_def)
    moreover have "fst (fresh k) \<notin> xr_id ` set (fe_rows f)" if "k \<ge> fe_ids f + 1" for k
      using Cons.prems that by (simp add: fresh_ids_def)
    ultimately have "fresh_ids fresh ?f" unfolding fresh_ids_def fetched.simps by blast
    note IH = Cons.IH [OF this]
    have "holds_transfer u ?f" if "holds_transfer u f" for u
      using that up(3) by (auto simp: holds_transfer_def)
    moreover have "holds_transfer t ?f" using up(2) by (simp add: holds_transfer_def alchemyToEntity_def)
    ultimately show ?thesis unfolding s using IH by auto
  qed
qed simp

text \<open>
  C39. A fetch ends with the last page the service has and stores everything: with pages
  chained by their keys and statements that succeed, as many rounds as there are pages are
  enough, and every transfer of every page that is not spam is in the table and has its gas
  scheduled.
\<close>

theorem fetchAllPages_complete:
  assumes "serves alchemy k params ps" "length ps \<le> fuel" "\<And>k. acquire k = None"
    and "\<And>k. snd (fresh k) = None" "inj (\<lambda>k. fst (fresh k))" "fresh_ids fresh f"
  shows "\<exists>f'. fetchAllPages fuel ck verified fresh acquire alchemy now k params f = Some (None, f')
    \<and> (\<forall>t. holds_transfer t f \<longrightarrow> holds_transfer t f')
    \<and> (\<forall>p \<in> set ps. \<forall>t \<in> set (pg_Transfers p). \<not> isSpamTransfer ck verified t \<longrightarrow> holds_transfer t f')"
  using assms(1,2,6)
proof (induction fuel arbitrary: k params ps f)
  case 0
  then show ?case by simp
next
  case (Suc fuel)
  obtain p qs where ps: "ps = p # qs" using Suc.prems(1) by (cases ps) auto
  let ?f = "store_page ck verified fresh now (pg_Transfers p) f"
  note page = store_page_holds [OF assms(4,5) Suc.prems(3), of ck verified now "pg_Transfers p"]
  show ?case
  proof (cases "qs = []")
    case True
    then show ?thesis using Suc.prems(1) ps page assms(3) by auto
  next
    case False
    then have s: "serves alchemy (k + 1) (params\<lparr>gp_PageKey := pg_PageKey p\<rparr>) qs" "length qs \<le> fuel"
      using Suc.prems ps by auto
    obtain f' where f': "fetchAllPages fuel ck verified fresh acquire alchemy now (k + 1) (params\<lparr>gp_PageKey := pg_PageKey p\<rparr>) ?f = Some (None, f')"
      "\<forall>t. holds_transfer t ?f \<longrightarrow> holds_transfer t f'"
      "\<forall>p \<in> set qs. \<forall>t \<in> set (pg_Transfers p). \<not> isSpamTransfer ck verified t \<longrightarrow> holds_transfer t f'"
      using Suc.IH [OF s page [THEN conjunct1]] by blast
    have "fetchAllPages (Suc fuel) ck verified fresh acquire alchemy now k params f = Some (None, f')"
      using Suc.prems(1) ps False assms(3) f'(1) by (simp add: Let_def)
    then show ?thesis using page f'(2,3) ps by auto
  qed
qed

lemma fetchAllPages_complete_witness:
  "\<exists>f'. fetchAllPages 2 (\<lambda>_ _. False) None (\<lambda>k. (replicate k CHR ''x'', None)) (\<lambda>_. None)
      (\<lambda>k params. Inr (if k = 0 then \<lparr>pg_Transfers = [], pg_PageKey = ''next''\<rparr>
         else \<lparr>pg_Transfers = [sample_asset_transfer], pg_PageKey = []\<rparr>)) 9 0 (base_params [] [])
      \<lparr>fe_rows = [], fe_hashes = [], fe_ids = 0\<rparr> = Some (None, f') \<and> holds_transfer sample_asset_transfer f'"
proof -
  let ?alchemy = "\<lambda>k (params :: transfers_params). Inr (if k = (0 :: nat) then \<lparr>pg_Transfers = [], pg_PageKey = ''next''\<rparr>
         else \<lparr>pg_Transfers = [sample_asset_transfer], pg_PageKey = []\<rparr>) :: err + transfers_page"
  let ?fresh = "\<lambda>k. (replicate k CHR ''x'', None :: err option)"
  have "serves ?alchemy 0 (base_params [] [])
      [\<lparr>pg_Transfers = [], pg_PageKey = ''next''\<rparr>, \<lparr>pg_Transfers = [sample_asset_transfer], pg_PageKey = []\<rparr>]" by simp
  moreover have "inj (\<lambda>k. fst (?fresh k))" by (auto simp: inj_on_def dest: arg_cong [of _ _ length])
  ultimately show ?thesis
    using fetchAllPages_complete [of ?alchemy 0 "base_params [] []"
        "[\<lparr>pg_Transfers = [], pg_PageKey = ''next''\<rparr>, \<lparr>pg_Transfers = [sample_asset_transfer], pg_PageKey = []\<rparr>]"
        2 "\<lambda>_. None" ?fresh "\<lparr>fe_rows = [], fe_hashes = [], fe_ids = 0\<rparr>" "\<lambda>_ _. False" None 9]
    by (auto simp: fresh_ids_def isSpamTransfer_def)
qed

section \<open>Overlapping synchronisations\<close>

text \<open>
  The synchronisations that run at one time. A routine one is started by a query or by
  \<open>Sync\<close> when the cooldown is over, a forced one by \<open>SyncForce\<close> when no forced one runs.
\<close>

datatype sync_kind = Routine | Forced

record sync_state =
  ss_history :: history_state
  ss_running :: "sync_kind list"

definition initial_sync :: sync_state where
  "initial_sync = \<lparr>ss_history = \<lparr>hs_lastSync = zero_time, hs_syncing = False\<rparr>, ss_running = []\<rparr>"

inductive sync_step :: "sync_state \<Rightarrow> sync_state \<Rightarrow> bool" where
  routine_start: "Sync_gate since now (ss_history s) = (True, h) \<Longrightarrow>
     sync_step s \<lparr>ss_history = h, ss_running = Routine # ss_running s\<rparr>"
| routine_skip: "Sync_gate since now (ss_history s) = (False, h) \<Longrightarrow> sync_step s (s\<lparr>ss_history := h\<rparr>)"
| routine_end: "Routine \<in> set (ss_running s) \<Longrightarrow> sync_step s (s\<lparr>ss_running := remove1 Routine (ss_running s)\<rparr>)"
| forced_start: "SyncForce_enter now (ss_history s) = (True, h) \<Longrightarrow>
     sync_step s \<lparr>ss_history = h, ss_running = Forced # ss_running s\<rparr>"
| forced_skip: "SyncForce_enter now (ss_history s) = (False, h) \<Longrightarrow> sync_step s (s\<lparr>ss_history := h\<rparr>)"
| forced_end: "Forced \<in> set (ss_running s) \<Longrightarrow>
     sync_step s \<lparr>ss_history = SyncForce_leave (ss_history s), ss_running = remove1 Forced (ss_running s)\<rparr>"

inductive_cases sync_stepE: "sync_step s s'"

inductive sync_reach :: "sync_state \<Rightarrow> bool" where
  start: "sync_reach initial_sync"
| step: "sync_reach s \<Longrightarrow> sync_step s s' \<Longrightarrow> sync_reach s'"

definition single_flight :: "sync_state \<Rightarrow> bool" where
  "single_flight s \<longleftrightarrow> count_list (ss_running s) Forced = (if hs_syncing (ss_history s) then 1 else 0)"

lemma count_list_remove1: "count_list (remove1 x xs) y = count_list xs y - (if x = y then 1 else 0)"
  by (induction xs) (auto simp: count_list_0_iff)

lemma sync_step_single_flight: "sync_step s s' \<Longrightarrow> single_flight s \<Longrightarrow> single_flight s'"
  by (erule sync_stepE)
    (auto simp: single_flight_def Sync_gate_def SyncForce_enter_def SyncForce_leave_def count_list_remove1
      split: if_splits)

lemma sync_reach_single_flight: "sync_reach s \<Longrightarrow> single_flight s"
proof (induction rule: sync_reach.induct)
  case start
  show ?case by (simp add: initial_sync_def single_flight_def)
next
  case (step s s')
  then show ?case by (blast intro: sync_step_single_flight)
qed

text \<open>
  At most one forced synchronisation runs at any time, and the flag says whether one does.
  The flag does not cover the routine ones: a state in which a forced and a routine
  synchronisation run together is reachable.
\<close>

theorem forced_single_flight:
  "(sync_reach s \<longrightarrow> count_list (ss_running s) Forced \<le> 1
      \<and> (hs_syncing (ss_history s) \<longleftrightarrow> Forced \<in> set (ss_running s)))
   \<and> (\<exists>t. sync_reach t \<and> set (ss_running t) = {Routine, Forced})"
proof (intro conjI impI)
  assume "sync_reach s"
  then have "single_flight s" by (rule sync_reach_single_flight)
  then show "count_list (ss_running s) Forced \<le> 1" "hs_syncing (ss_history s) \<longleftrightarrow> Forced \<in> set (ss_running s)"
    using count_list_0_iff [of "ss_running s" Forced] by (auto simp: single_flight_def split: if_splits)
next
  let ?s = "\<lparr>ss_history = \<lparr>hs_lastSync = 0, hs_syncing = False\<rparr>, ss_running = [Routine]\<rparr>"
  have "sync_step initial_sync ?s"
    using sync_step.routine_start [of 0 0 initial_sync "\<lparr>hs_lastSync = 0, hs_syncing = False\<rparr>"]
    by (simp add: initial_sync_def Sync_gate_def cooldown_over_def Sub_time_def zero_time_def syncCooldown_def Second_def)
  moreover have "sync_step ?s \<lparr>ss_history = \<lparr>hs_lastSync = 0, hs_syncing = True\<rparr>, ss_running = [Forced, Routine]\<rparr>"
    using sync_step.forced_start [of 0 ?s "\<lparr>hs_lastSync = 0, hs_syncing = True\<rparr>"] by (simp add: SyncForce_enter_def)
  ultimately have "sync_reach \<lparr>ss_history = \<lparr>hs_lastSync = 0, hs_syncing = True\<rparr>, ss_running = [Forced, Routine]\<rparr>"
    by (blast intro: sync_reach.intros)
  then show "\<exists>t. sync_reach t \<and> set (ss_running t) = {Routine, Forced}"
    by (intro exI conjI) (assumption, auto)
qed

lemma forced_single_flight_witness: "count_list (ss_running initial_sync) Forced \<le> 1 \<and> \<not> hs_syncing (ss_history initial_sync)"
  using forced_single_flight [of initial_sync] sync_reach.start by (simp add: initial_sync_def)

end
