(* ===== verification/Networks.thy ===== *)
theory Networks
  imports Prelude Strconv Errors
begin

text \<open>
  config/networks: the catalog of chains and the list of verified tokens. The decoding of the
  YAML and JSON files is a parameter: the loaders start from the decoded entries. \<open>uni\<close> is
  the upper-casing of non-ASCII symbols and \<open>lower\<close> the lower-casing of the addresses.
\<close>

section \<open>Verified tokens\<close>

record listed_token =
  lt_ChainID :: int
  lt_Address :: string
  lt_Symbol :: string
  lt_Name :: string
  lt_Decimals :: u8
  lt_LogoURI :: string

type_synonym chain_tokens = "(string, listed_token) gomap"

record token_list =
  tl_Name :: string
  tl_Version :: string
  tl_Timestamp :: string
  tl_byChain :: "(int, chain_tokens) gomap"

text \<open>A nil list is \<open>None\<close>.\<close>

definition TokenByAddress :: "(string \<Rightarrow> string) \<Rightarrow> token_list option \<Rightarrow> int \<Rightarrow> string \<Rightarrow> listed_token option" where
  "TokenByAddress lower tlist chainID address =
     (case tlist of
        None \<Rightarrow> None
      | Some l \<Rightarrow>
        if address = '''' then None
        else (case map_of (tl_byChain l) chainID of
            None \<Rightarrow> None
          | Some chain \<Rightarrow> map_of chain (lower address)))"

text \<open>The loop runs over a map, so in an unspecified order: that of the list here.\<close>

definition AddressBySymbol :: "(string \<Rightarrow> string) \<Rightarrow> token_list option \<Rightarrow> int \<Rightarrow> string \<Rightarrow> string option" where
  "AddressBySymbol uni tlist chainID symbol =
     (case tlist of
        None \<Rightarrow> None
      | Some l \<Rightarrow>
        if symbol = '''' then None
        else (case map_of (tl_byChain l) chainID of
            None \<Rightarrow> None
          | Some chain \<Rightarrow>
            map_option fst (find (\<lambda>(addr, t). ToUpper_with uni (lt_Symbol t) = ToUpper_with uni symbol) chain)))"

definition SizeByChain :: "token_list \<Rightarrow> (int, int) gomap" where
  "SizeByChain tlist = map (\<lambda>(chain, tokens). (chain, int (length tokens))) (tl_byChain tlist)"

record token_list_file =
  tf_Name :: string
  tf_Timestamp :: string
  tf_Version :: "int \<times> int \<times> int"
  tf_Tokens :: "listed_token list"

definition add_listed ::
  "(string \<Rightarrow> string) \<Rightarrow> listed_token \<Rightarrow> (int, chain_tokens) gomap \<Rightarrow> (int, chain_tokens) gomap" where
  "add_listed lower t byChain =
     (if lt_Address t = '''' \<or> lt_ChainID t = 0 then byChain
      else (let t' = t\<lparr>lt_Address := lower (lt_Address t)\<rparr>;
                chain = the_default [] (map_of byChain (lt_ChainID t))
            in AList.update (lt_ChainID t) (AList.update (lt_Address t') t' chain) byChain))"

definition parseTokenList ::
  "(string \<Rightarrow> string) \<Rightarrow> err + token_list_file \<Rightarrow> string \<Rightarrow> err + token_list" where
  "parseTokenList lower unmarshalled source =
     (case unmarshalled of
        Inl e \<Rightarrow> Inl (WrapError (''tokenlist: parse '' @ source @ '': '' @ Error_text e) [e])
      | Inr raw \<Rightarrow>
        if length (tf_Tokens raw) = 0 then Inl (WrapError (''tokenlist: '' @ source @ '' contains no tokens'') [])
        else (let (major, minor, patch) = tf_Version raw in
          Inr \<lparr>tl_Name = tf_Name raw, tl_Version = show_int major @ ''.'' @ show_int minor @ ''.'' @ show_int patch,
               tl_Timestamp = tf_Timestamp raw, tl_byChain = fold (add_listed lower) (tf_Tokens raw) []\<rparr>))"

text \<open>An empty path loads the embedded list; \<open>readFile\<close> is the reading of a file.\<close>

definition LoadTokenList ::
  "(string \<Rightarrow> string) \<Rightarrow> ('b \<Rightarrow> err + token_list_file) \<Rightarrow> 'b \<Rightarrow> (string \<Rightarrow> err + 'b) \<Rightarrow> string \<Rightarrow> err + token_list" where
  "LoadTokenList lower decode embedded readFile path =
     (if path = '''' then parseTokenList lower (decode embedded) ''embedded''
      else case readFile path of
        Inl e \<Rightarrow> Inl (WrapError (''tokenlist: read '' @ path @ '': '' @ Error_text e) [e])
      | Inr data \<Rightarrow> parseTokenList lower (decode data) path)"

section \<open>Chains\<close>

record native_token =
  nt_Symbol :: string
  nt_Name :: string
  nt_Decimals :: u8
  nt_CoinGeckoID :: string
  nt_LogoURI :: string

record uniswap_v3 =
  uv_SwapRouter02 :: string
  uv_QuoterV2 :: string
  uv_WrappedNative :: string

record chain_config =
  cc_ID :: string
  cc_ChainID :: int
  cc_Name :: string
  cc_Explorer :: string
  cc_Native :: native_token
  cc_UniswapV3 :: uniswap_v3

type_synonym catalog = "(string, chain_config) gomap"

text \<open>\<open>trim\<close> is \<open>TrimSpace\<close>; \<open>quote\<close> is the \<open>%q\<close> verb.\<close>

definition validate_chain :: "(string \<Rightarrow> string) \<Rightarrow> chain_config \<Rightarrow> err option" where
  "validate_chain trim n =
     (if cc_ChainID n \<le> 0 then Some (WrapError (''chain_id must be positive, got '' @ show_int (cc_ChainID n)) [])
      else if trim (nt_Symbol (cc_Native n)) = '''' then Some (Sentinel ''native.symbol must not be empty'')
      else if uv_SwapRouter02 (cc_UniswapV3 n) = '''' \<or> uv_QuoterV2 (cc_UniswapV3 n) = ''''
          \<or> uv_WrappedNative (cc_UniswapV3 n) = ''''
      then Some (Sentinel ''protocols.uniswap_v3: swap_router_02, quoter_v2, wrapped_native all required'')
      else None)"

fun parse_chains ::
  "(string \<Rightarrow> string) \<Rightarrow> (string \<Rightarrow> string) \<Rightarrow> string \<Rightarrow> catalog \<Rightarrow> err + catalog" where
  "parse_chains trim quote source [] = Inr []"
| "parse_chains trim quote source ((ident, n0) # rest) =
     (let n = n0\<lparr>cc_ID := ident\<rparr> in
      case validate_chain trim n of
        Some e \<Rightarrow> Inl (WrapError (''networks: '' @ source @ '': network '' @ quote ident @ '': '' @ Error_text e) [e])
      | None \<Rightarrow> bindE (parse_chains trim quote source rest) (\<lambda>cs. Inr ((ident, n) # cs)))"

definition parse_catalog ::
  "(string \<Rightarrow> string) \<Rightarrow> (string \<Rightarrow> string) \<Rightarrow> err + catalog \<Rightarrow> string \<Rightarrow> err + catalog" where
  "parse_catalog trim quote unmarshalled source =
     (case unmarshalled of
        Inl e \<Rightarrow> Inl (WrapError (''networks: parse '' @ source @ '': '' @ Error_text e) [e])
      | Inr raw \<Rightarrow>
        if length raw = 0 then Inl (WrapError (''networks: '' @ source @ '' contains no networks'') [])
        else parse_chains trim quote source raw)"

definition Load_catalog ::
  "(string \<Rightarrow> string) \<Rightarrow> (string \<Rightarrow> string) \<Rightarrow> ('b \<Rightarrow> err + catalog) \<Rightarrow> 'b \<Rightarrow> (string \<Rightarrow> err + 'b) \<Rightarrow> string \<Rightarrow> err + catalog" where
  "Load_catalog trim quote decode embedded readFile path =
     (if path = '''' then parse_catalog trim quote (decode embedded) ''embedded''
      else case readFile path of
        Inl e \<Rightarrow> Inl (WrapError (''networks: read '' @ path @ '': '' @ Error_text e) [e])
      | Inr data \<Rightarrow> parse_catalog trim quote (decode data) path)"

definition Network_of :: "(string \<Rightarrow> string) \<Rightarrow> catalog \<Rightarrow> string \<Rightarrow> err + chain_config" where
  "Network_of quote c ident =
     (case map_of c ident of
        None \<Rightarrow> Inl (WrapError (''networks: unknown network '' @ quote ident) [])
      | Some n \<Rightarrow> Inr n)"

section \<open>Laws\<close>

definition chain_lookup :: "(int, chain_tokens) gomap \<Rightarrow> int \<Rightarrow> string \<Rightarrow> listed_token option" where
  "chain_lookup byChain c a = Option.bind (map_of byChain c) (\<lambda>chain. map_of chain a)"

lemma chain_lookup_add:
  "chain_lookup (add_listed lower t byChain) c a =
     (if lt_Address t \<noteq> '''' \<and> lt_ChainID t \<noteq> 0 \<and> lt_ChainID t = c \<and> lower (lt_Address t) = a
      then Some (t\<lparr>lt_Address := a\<rparr>) else chain_lookup byChain c a)"
  by (cases "map_of byChain (lt_ChainID t)")
    (auto simp: chain_lookup_def add_listed_def Let_def gomap_simps split: option.splits)

lemma chain_lookup_fold:
  "chain_lookup (fold (add_listed lower) ts byChain) c a =
     (case find (\<lambda>t. lt_Address t \<noteq> '''' \<and> lt_ChainID t \<noteq> 0 \<and> lt_ChainID t = c \<and> lower (lt_Address t) = a) (rev ts) of
        Some t \<Rightarrow> Some (t\<lparr>lt_Address := a\<rparr>) | None \<Rightarrow> chain_lookup byChain c a)"
proof (induction ts rule: rev_induct)
  case (snoc t ts)
  then show ?case by (simp add: chain_lookup_add)
qed simp

text \<open>
  The verified list answers a lookup, in any letter case, with the last entry of the file
  for the chain and the address, and with nothing for other chains; entries without an
  address or a chain are skipped, and only an unreadable or empty file fails to load.
\<close>

theorem token_list_lookup:
  assumes "parseTokenList lower (Inr raw) source = Inr tlist" "address \<noteq> ''''"
  shows "TokenByAddress lower (Some tlist) chain address =
      map_option (\<lambda>t. t\<lparr>lt_Address := lower address\<rparr>)
        (find (\<lambda>t. lt_Address t \<noteq> '''' \<and> lt_ChainID t \<noteq> 0 \<and> lt_ChainID t = chain \<and> lower (lt_Address t) = lower address)
          (rev (tf_Tokens raw)))
    \<and> (lower other = lower address \<and> other \<noteq> '''' \<longrightarrow>
        TokenByAddress lower (Some tlist) chain other = TokenByAddress lower (Some tlist) chain address)"
proof -
  have tlist: "tl_byChain tlist = fold (add_listed lower) (tf_Tokens raw) []"
    using assms(1) by (auto simp: parseTokenList_def Let_def split: if_splits prod.splits)
  have l: "TokenByAddress lower (Some tlist) chain x = chain_lookup (tl_byChain tlist) chain (lower x)" if "x \<noteq> ''''" for x
    using that by (auto simp: TokenByAddress_def chain_lookup_def split: option.splits)
  have "chain_lookup [] chain a = None" for a by (simp add: chain_lookup_def)
  then show ?thesis using l assms(2) tlist by (auto simp: chain_lookup_fold split: option.splits)
qed

lemma token_list_lookup_witness:
  "let t = \<lparr>lt_ChainID = 1, lt_Address = ''0xAB'', lt_Symbol = ''USDC'', lt_Name = ''USD Coin'', lt_Decimals = 6, lt_LogoURI = []\<rparr>
   in \<exists>tlist. parseTokenList ToLower (Inr \<lparr>tf_Name = ''x'', tf_Timestamp = [], tf_Version = (1, 2, 3), tf_Tokens = [t]\<rparr>) ''f'' = Inr tlist
     \<and> TokenByAddress ToLower (Some tlist) 1 ''0xaB'' = Some (t\<lparr>lt_Address := ''0xab''\<rparr>)"
proof -
  let ?t = "\<lparr>lt_ChainID = 1, lt_Address = ''0xAB'', lt_Symbol = ''USDC'', lt_Name = ''USD Coin'', lt_Decimals = 6, lt_LogoURI = []\<rparr>"
  let ?raw = "\<lparr>tf_Name = ''x'', tf_Timestamp = [], tf_Version = (1, 2, 3), tf_Tokens = [?t]\<rparr>"
  have lower: "ToLower ''0xAB'' = ''0xab''" "ToLower ''0xaB'' = ''0xab''" by code_simp+
  have "\<exists>tlist. parseTokenList ToLower (Inr ?raw) ''f'' = Inr tlist" by (simp add: parseTokenList_def)
  then obtain tlist where tlist: "parseTokenList ToLower (Inr ?raw) ''f'' = Inr tlist" ..
  from token_list_lookup [OF tlist, of "''0xaB''" 1] have "TokenByAddress ToLower (Some tlist) 1 ''0xaB'' = Some (?t\<lparr>lt_Address := ''0xab''\<rparr>)"
    by (simp add: lower)
  then show ?thesis using tlist by (auto simp: Let_def)
qed

end
