(* ===== verification/Watch_Events.thy ===== *)
theory Watch_Events
  imports Alchemy Pending Decimal_Text
begin

text \<open>
  The events of internal/usecase/watcher (dto.go, classify.go, spam.go, build_event.go,
  proto_mapper.go and the grouping of fetch_transfers.go): how the transfers of one
  transaction become one event, and what is sent over the wire for it. Floats are of a
  type \<open>'f\<close>.
\<close>

section \<open>Events\<close>

type_synonym event_kind = u8

definition KindGasAlert :: event_kind where "KindGasAlert = 2"
definition KindLowBalance :: event_kind where "KindLowBalance = 3"
definition KindTransaction :: event_kind where "KindTransaction = 4"

lemmas event_kinds = KindGasAlert_def KindLowBalance_def KindTransaction_def

datatype tx_role = RoleUnknown | RoleSendETH | RoleReceiveETH | RoleSendToken | RoleReceiveToken
  | RoleSwap | RoleSelfTransfer | RoleApprove

record asset_movement =
  mv_Symbol :: string
  mv_Name :: string
  mv_ContractAddress :: string
  mv_Amount :: string
  mv_IsOutgoing :: bool
  mv_Counterparty :: string

record transaction_data =
  td_TxHash :: string
  td_Role :: tx_role
  td_Movements :: "asset_movement list"
  td_IsOurs :: bool
  td_BlockNumber :: u64
  td_Timestamp :: time

record 'f gas_alert =
  ga_IsSpike :: bool
  ga_CurrentGwei :: 'f
  ga_PreviousGwei :: 'f

record low_balance =
  lb_Address :: address
  lb_ETH :: amount

record 'f wallet_event =
  we_ID :: string
  we_Kind :: event_kind
  we_GasAlert :: "'f gas_alert option"
  we_LowBalance :: "low_balance option"
  we_Transaction :: "transaction_data option"

definition txHashOf :: "'f wallet_event \<Rightarrow> string" where
  "txHashOf e = (case we_Transaction e of None \<Rightarrow> '''' | Some t \<Rightarrow> td_TxHash t)"

definition isOursOf :: "'f wallet_event \<Rightarrow> bool" where
  "isOursOf e = (case we_Transaction e of None \<Rightarrow> False | Some t \<Rightarrow> td_IsOurs t)"

definition transaction_event :: "transaction_data \<Rightarrow> 'f wallet_event" where
  "transaction_event td = \<lparr>we_ID = '''', we_Kind = KindTransaction, we_GasAlert = None, we_LowBalance = None,
     we_Transaction = Some td\<rparr>"

section \<open>Grouping by transaction\<close>

text \<open>The loop of \<open>groupByHash\<close>; \<open>seen\<close> is the set of identifiers met.\<close>

fun group_transfers ::
  "asset_transfer list \<Rightarrow> string set \<Rightarrow> (string, asset_transfer list) gomap \<Rightarrow> (string, asset_transfer list) gomap" where
  "group_transfers [] seen out = out"
| "group_transfers (t # ts) seen out =
     (if at_UniqueID t \<in> seen then group_transfers ts seen out
      else group_transfers ts (insert (at_UniqueID t) seen)
        (AList.update (at_Hash t) (the_default [] (map_of out (at_Hash t)) @ [t]) out))"

definition groupByHash :: "asset_transfer list \<Rightarrow> (string, asset_transfer list) gomap" where
  "groupByHash transfers = group_transfers transfers {} []"

definition indexPendingByHash :: "pending_tx list \<Rightarrow> (string, pending_tx) gomap" where
  "indexPendingByHash pending = fold (\<lambda>p. AList.update (ToLower (ptx_Hash p)) p) pending []"

section \<open>Movements\<close>

definition isNative_movement :: "asset_movement \<Rightarrow> bool" where
  "isNative_movement m \<longleftrightarrow> mv_ContractAddress m = '''' \<or> EqualFold (mv_Symbol m) ''ETH''"

definition classifyRole :: "asset_movement list \<Rightarrow> string \<Rightarrow> tx_role" where
  "classifyRole movements walletHex =
     (if length movements = 0 then RoleApprove
      else
        (let outgoing = filter mv_IsOutgoing movements;
             incoming = filter (\<lambda>m. \<not> mv_IsOutgoing m) movements;
             hasOut = length outgoing > 0;
             hasIn = length incoming > 0
         in if hasOut \<and> hasIn then
              (if list_all (\<lambda>m. EqualFold (mv_Counterparty m) walletHex) outgoing then RoleSelfTransfer else RoleSwap)
            else if hasOut then (if isNative_movement (hd outgoing) then RoleSendETH else RoleSendToken)
            else if isNative_movement (hd incoming) then RoleReceiveETH
            else RoleReceiveToken))"

text \<open>
  \<open>lookup\<close> is the verified token list (\<open>None\<close> when not wired), \<open>metadata\<close> the contract's
  own answer, \<open>cache\<close> the answers kept so far.
\<close>

type_synonym token_lookup = "string \<Rightarrow> token option"
type_synonym meta_cache = "(string, token) gomap"

definition lookupTokenMeta ::
  "checksum \<Rightarrow> token_lookup option \<Rightarrow> (address \<Rightarrow> err + token) \<Rightarrow> meta_cache \<Rightarrow> address \<Rightarrow> token option \<times> meta_cache" where
  "lookupTokenMeta ck lookup metadata cache addr =
     (let key = ToLower (Hex ck addr) in
      case Option.bind lookup (\<lambda>f. f key) of
        Some meta \<Rightarrow> (Some meta, cache)
      | None \<Rightarrow> (case map_of cache key of
          Some cached \<Rightarrow> (Some cached, cache)
        | None \<Rightarrow> (case metadata addr of
            Inl e \<Rightarrow> (None, cache)
          | Inr meta \<Rightarrow> (Some meta, AList.update key meta cache))))"

definition resolveAsset ::
  "checksum \<Rightarrow> token_lookup option \<Rightarrow> (address \<Rightarrow> err + token) \<Rightarrow> meta_cache \<Rightarrow> asset_transfer \<Rightarrow>
   (string \<times> string \<times> string) \<times> meta_cache" where
  "resolveAsset ck lookup metadata cache leg =
     (case at_Token leg of
        None \<Rightarrow> ((at_Asset leg, '''', ''''), cache)
      | Some t \<Rightarrow>
        (let symbol = tk_Symbol t; name = tk_Name t; contract = ToLower (Hex ck (tk_Address t)) in
         if symbol \<noteq> '''' \<and> name \<noteq> '''' then ((symbol, name, contract), cache)
         else (case lookupTokenMeta ck lookup metadata cache (tk_Address t) of
             (None, cache') \<Rightarrow> ((symbol, name, contract), cache')
           | (Some meta, cache') \<Rightarrow>
             ((if symbol = '''' then tk_Symbol meta else symbol,
               if name = '''' then tk_Name meta else name, contract), cache'))))"

definition buildMovement ::
  "checksum \<Rightarrow> token_lookup option \<Rightarrow> (address \<Rightarrow> err + token) \<Rightarrow> meta_cache \<Rightarrow> string \<Rightarrow> asset_transfer \<Rightarrow>
   asset_movement \<times> meta_cache" where
  "buildMovement ck lookup metadata cache walletHex leg =
     (let fromHex = ToLower (Hex ck (at_From leg));
          toHex = ToLower (Hex ck (at_To leg));
          isOutgoing = (fromHex = walletHex);
          counterparty = (if isOutgoing then toHex else fromHex);
          ((symbol, name, contract), cache') = resolveAsset ck lookup metadata cache leg
      in (\<lparr>mv_Symbol = symbol, mv_Name = name, mv_ContractAddress = contract,
           mv_Amount = dec_String (at_Value leg), mv_IsOutgoing = isOutgoing, mv_Counterparty = counterparty\<rparr>, cache'))"

text \<open>The loop over the legs: movements, highest block, latest timestamp.\<close>

fun build_legs ::
  "checksum \<Rightarrow> token_lookup option \<Rightarrow> (address \<Rightarrow> err + token) \<Rightarrow> string \<Rightarrow> asset_transfer list \<Rightarrow>
   asset_movement list \<Rightarrow> u64 \<Rightarrow> time \<Rightarrow> meta_cache \<Rightarrow> (asset_movement list \<times> u64 \<times> time) \<times> meta_cache" where
  "build_legs ck lookup metadata walletHex [] movements block ts cache = ((movements, block, ts), cache)"
| "build_legs ck lookup metadata walletHex (leg # legs) movements block ts cache =
     (let (m, cache') = buildMovement ck lookup metadata cache walletHex leg in
      build_legs ck lookup metadata walletHex legs (movements @ [m])
        (if at_BlockNumber leg > block then at_BlockNumber leg else block)
        (if at_Timestamp leg > ts then at_Timestamp leg else ts) cache')"

definition buildTransactionEvent ::
  "checksum \<Rightarrow> token_lookup option \<Rightarrow> (address \<Rightarrow> err + token) \<Rightarrow> time \<Rightarrow> meta_cache \<Rightarrow> address \<Rightarrow> string \<Rightarrow>
   asset_transfer list \<Rightarrow> string set \<Rightarrow> transaction_data \<times> meta_cache" where
  "buildTransactionEvent ck lookup metadata now cache wallet hash legs ourPending =
     (let walletHex = ToLower (Hex ck wallet);
          ((movements, blockNumber, ts), cache') = build_legs ck lookup metadata walletHex legs [] 0 zero_time cache;
          role = classifyRole movements walletHex;
          isOurs = (ToLower hash \<in> ourPending);
          ts' = (if IsZero_time ts then now else ts)
      in (\<lparr>td_TxHash = hash, td_Role = role, td_Movements = movements, td_IsOurs = isOurs,
           td_BlockNumber = blockNumber, td_Timestamp = ts'\<rparr>, cache'))"

section \<open>Spam\<close>

fun moves_unverified :: "token_lookup \<Rightarrow> asset_movement list \<Rightarrow> bool" where
  "moves_unverified lookup [] \<longleftrightarrow> False"
| "moves_unverified lookup (m # ms) \<longleftrightarrow>
     (if mv_ContractAddress m = '''' then moves_unverified lookup ms
      else if lookup (ToLower (mv_ContractAddress m)) = None then True
      else moves_unverified lookup ms)"

definition isSpamTransaction :: "token_lookup option \<Rightarrow> transaction_data option \<Rightarrow> bool" where
  "isSpamTransaction lookup tx =
     (case tx of None \<Rightarrow> False
      | Some t \<Rightarrow> (case lookup of None \<Rightarrow> False
          | Some f \<Rightarrow> if td_IsOurs t then False else moves_unverified f (td_Movements t)))"

section \<open>Wire form\<close>

datatype alert_type = ALERT_TYPE_SPIKE | ALERT_TYPE_DROP

datatype pb_role = ROLE_UNSPECIFIED | ROLE_SEND_ETH | ROLE_RECEIVE_ETH | ROLE_SEND_TOKEN | ROLE_RECEIVE_TOKEN
  | ROLE_SWAP | ROLE_SELF_TRANSFER | ROLE_APPROVE

record pb_transaction =
  pb_TxHash :: string
  pb_Role :: pb_role
  pb_Movements :: "asset_movement list"
  pb_IsOurs :: bool
  pb_BlockNumber :: u64
  pb_Timestamp :: time

datatype pb_event = PbGasAlert alert_type string string | PbLowBalance string string
  | PbTransaction pb_transaction

fun roleToProto :: "tx_role \<Rightarrow> pb_role" where
  "roleToProto RoleSendETH = ROLE_SEND_ETH"
| "roleToProto RoleReceiveETH = ROLE_RECEIVE_ETH"
| "roleToProto RoleSendToken = ROLE_SEND_TOKEN"
| "roleToProto RoleReceiveToken = ROLE_RECEIVE_TOKEN"
| "roleToProto RoleSwap = ROLE_SWAP"
| "roleToProto RoleSelfTransfer = ROLE_SELF_TRANSFER"
| "roleToProto RoleApprove = ROLE_APPROVE"
| "roleToProto RoleUnknown = ROLE_UNSPECIFIED"

text \<open>The loop of \<open>trimDecimalZeros\<close>, from the last character (the head of the argument).\<close>

fun trim_loop :: "string \<Rightarrow> string option" where
  "trim_loop [] = None"
| "trim_loop (c # rest) =
     (if c = CHR ''.'' then Some (rev rest)
      else if c \<noteq> CHR ''0'' then Some (rev (c # rest))
      else trim_loop rest)"

definition trimDecimalZeros :: "string \<Rightarrow> string" where
  "trimDecimalZeros s =
     (if \<not> Contains s ''.'' then s else the_default s (trim_loop (rev s)))"

definition transactionEventToProto :: "transaction_data option \<Rightarrow> pb_event option" where
  "transactionEventToProto td =
     (case td of None \<Rightarrow> None
      | Some d \<Rightarrow> Some (PbTransaction
          \<lparr>pb_TxHash = td_TxHash d, pb_Role = roleToProto (td_Role d),
           pb_Movements = map (\<lambda>m. m\<lparr>mv_Amount := trimDecimalZeros (mv_Amount m)\<rparr>) (td_Movements d),
           pb_IsOurs = td_IsOurs d, pb_BlockNumber = td_BlockNumber d, pb_Timestamp = td_Timestamp d\<rparr>))"

text \<open>\<open>fmt2\<close> is the \<open>%.2f\<close> verb.\<close>

definition WalletEventToProto :: "('f \<Rightarrow> string) \<Rightarrow> 'f wallet_event \<Rightarrow> pb_event option" where
  "WalletEventToProto fmt2 e =
     (if we_Kind e = KindGasAlert then
        (case we_GasAlert e of None \<Rightarrow> None
         | Some ga \<Rightarrow> Some (PbGasAlert (if \<not> ga_IsSpike ga then ALERT_TYPE_DROP else ALERT_TYPE_SPIKE)
             (fmt2 (ga_CurrentGwei ga)) (fmt2 (ga_PreviousGwei ga))))
      else if we_Kind e = KindLowBalance then
        (case we_LowBalance e of None \<Rightarrow> None
         | Some lb \<Rightarrow> Some (PbLowBalance (StringFixed (ToETH (lb_ETH lb)) 8) (show_int (Wei (lb_ETH lb)))))
      else if we_Kind e = KindTransaction then transactionEventToProto (we_Transaction e)
      else None)"

section \<open>Laws\<close>

subsection \<open>Grouping\<close>

text \<open>The first transfer of every identifier.\<close>

fun first_by_id :: "asset_transfer list \<Rightarrow> string set \<Rightarrow> asset_transfer list" where
  "first_by_id [] seen = []"
| "first_by_id (t # ts) seen =
     (if at_UniqueID t \<in> seen then first_by_id ts seen else t # first_by_id ts (insert (at_UniqueID t) seen))"

definition legs_of :: "asset_transfer list \<Rightarrow> string \<Rightarrow> asset_transfer list" where
  "legs_of transfers hash = filter (\<lambda>t. at_Hash t = hash) (first_by_id transfers {})"

lemma first_by_id_subset: "set (first_by_id ts seen) \<subseteq> set ts"
  by (induction ts seen rule: first_by_id.induct) auto

lemma first_by_id_covers: "t \<in> set ts \<Longrightarrow> at_UniqueID t \<notin> seen \<Longrightarrow>
    \<exists>t' \<in> set (first_by_id ts seen). at_UniqueID t' = at_UniqueID t"
proof (induction ts seen rule: first_by_id.induct)
  case (2 t' ts seen)
  then show ?case by (cases "at_UniqueID t = at_UniqueID t'") auto
qed simp

lemma first_by_id_distinct:
  "distinct (map at_UniqueID (first_by_id ts seen)) \<and> at_UniqueID ` set (first_by_id ts seen) \<inter> seen = {}"
  by (induction ts seen rule: first_by_id.induct) auto

lemma group_transfers_lookup:
  "the_default [] (map_of (group_transfers ts seen out) h)
     = the_default [] (map_of out h) @ filter (\<lambda>t. at_Hash t = h) (first_by_id ts seen)"
  by (induction ts seen out rule: group_transfers.induct) (auto simp: gomap_simps)

lemma group_transfers_keys:
  "distinct (map fst out) \<Longrightarrow> distinct (map fst (group_transfers ts seen out))"
  by (induction ts seen out rule: group_transfers.induct) (auto simp: AList.distinct_update)

lemma group_transfers_nonempty:
  "(\<forall>h legs. map_of out h = Some legs \<longrightarrow> legs \<noteq> []) \<Longrightarrow> map_of (group_transfers ts seen out) h = Some legs \<Longrightarrow> legs \<noteq> []"
  by (induction ts seen out rule: group_transfers.induct) (auto simp: gomap_simps split: if_splits)

lemma distinct_groupByHash: "distinct (map fst (groupByHash ts))"
  by (simp add: groupByHash_def group_transfers_keys)

lemma map_of_groupByHash:
  "map_of (groupByHash ts) h = (if legs_of ts h = [] then None else Some (legs_of ts h))"
proof -
  have l: "the_default [] (map_of (groupByHash ts) h) = legs_of ts h"
    by (simp add: groupByHash_def legs_of_def group_transfers_lookup)
  have "map_of (groupByHash ts) h = Some [] \<Longrightarrow> False"
    unfolding groupByHash_def by (drule group_transfers_nonempty [rotated]) auto
  with l show ?thesis by (cases "map_of (groupByHash ts) h") auto
qed

lemma set_groupByHash: "(h, legs) \<in> set (groupByHash ts) \<longleftrightarrow> legs = legs_of ts h \<and> legs \<noteq> []"
  unfolding map_of_eq_Some_iff [OF distinct_groupByHash, symmetric] by (auto simp: map_of_groupByHash)

lemma map_of_indexPendingByHash:
  "map_of (indexPendingByHash ps) h = find (\<lambda>p. ToLower (ptx_Hash p) = h) (rev ps)"
  unfolding indexPendingByHash_def by (induction ps rule: rev_induct) (auto simp: gomap_simps)

subsection \<open>Movements\<close>

text \<open>What a movement says of its transfer.\<close>

definition contract_of :: "asset_transfer \<Rightarrow> string" where
  "contract_of leg = (case at_Token leg of None \<Rightarrow> '''' | Some t \<Rightarrow> address_hex (tk_Address t))"

definition shows_leg :: "address \<Rightarrow> asset_transfer \<Rightarrow> asset_movement \<Rightarrow> bool" where
  "shows_leg wallet leg m \<longleftrightarrow>
     (mv_IsOutgoing m \<longleftrightarrow> at_From leg = wallet) \<and> mv_Amount m = dec_String (at_Value leg)
     \<and> mv_Counterparty m = address_hex (if at_From leg = wallet then at_To leg else at_From leg)
     \<and> mv_ContractAddress m = contract_of leg"

lemma address_hex_not_empty [simp]: "address_hex a \<noteq> ''''" "'''' \<noteq> address_hex a"
  by (simp_all add: address_hex_def)

lemma ToLower_address_hex [simp]: "ToLower (address_hex a) = address_hex a"
  by (simp flip: ToLower_Hex [where ck = "\<lambda>_ _. False"])

lemma resolveAsset_contract: "resolveAsset ck lookup metadata cache leg = ((symbol, name, contract), cache') \<Longrightarrow>
    contract = contract_of leg"
  by (auto simp: resolveAsset_def contract_of_def ToLower_Hex Let_def split: option.splits prod.splits if_splits)

lemma buildMovement_shows:
  assumes "buildMovement ck lookup metadata cache (address_hex wallet) leg = (m, cache')"
  shows "shows_leg wallet leg m"
proof -
  obtain symbol name contract c where r: "resolveAsset ck lookup metadata cache leg = ((symbol, name, contract), c)"
    by (metis prod.exhaust)
  from resolveAsset_contract [OF this] r assms show ?thesis
    by (auto simp: buildMovement_def shows_leg_def ToLower_Hex Let_def)
qed

lemma build_legs_shows:
  "build_legs ck lookup metadata (address_hex wallet) legs ms b ts cache = ((ms', b', ts'), cache') \<Longrightarrow>
   \<exists>new. ms' = ms @ new \<and> list_all2 (shows_leg wallet) legs new"
proof (induction legs arbitrary: ms b ts cache)
  case (Cons leg legs)
  obtain m c where m: "buildMovement ck lookup metadata cache (address_hex wallet) leg = (m, c)" by force
  with Cons.prems have "\<exists>new. ms' = (ms @ [m]) @ new \<and> list_all2 (shows_leg wallet) legs new"
    by (intro Cons.IH) (simp add: Let_def)
  then obtain new where "ms' = (ms @ [m]) @ new" "list_all2 (shows_leg wallet) legs new" by blast
  then show ?case using buildMovement_shows [OF m] by (intro exI [of _ "m # new"]) simp
qed auto

lemma buildTransactionEvent_movements:
  assumes "buildTransactionEvent ck lookup metadata now cache wallet hash legs ours = (td, cache')"
  shows "list_all2 (shows_leg wallet) legs (td_Movements td)"
    and "td_TxHash td = hash" and "td_IsOurs td \<longleftrightarrow> ToLower hash \<in> ours"
    and "td_Role td = classifyRole (td_Movements td) (address_hex wallet)"
proof -
  obtain ms b ts c where l: "build_legs ck lookup metadata (address_hex wallet) legs [] 0 zero_time cache = ((ms, b, ts), c)"
    by (metis prod.exhaust)
  from build_legs_shows [OF this] have "list_all2 (shows_leg wallet) legs ms" by auto
  with assms l show "list_all2 (shows_leg wallet) legs (td_Movements td)" "td_TxHash td = hash"
      "td_IsOurs td \<longleftrightarrow> ToLower hash \<in> ours" "td_Role td = classifyRole (td_Movements td) (address_hex wallet)"
    by (auto simp: buildTransactionEvent_def ToLower_Hex Let_def)
qed

lemma list_all2_ex_filter:
  assumes "list_all2 R xs ys" "\<And>x y. R x y \<Longrightarrow> P x \<longleftrightarrow> Q y"
  shows "list_all2 (\<lambda>x y. R x y) (filter P xs) (filter Q ys)"
  using assms(1) by (induction rule: list_all2_induct) (auto simp: assms(2))

lemma moves_unverified_iff:
  "moves_unverified lookup ms \<longleftrightarrow> (\<exists>m \<in> set ms. mv_ContractAddress m \<noteq> '''' \<and> lookup (ToLower (mv_ContractAddress m)) = None)"
  by (induction ms) auto

lemma list_all2_set1: "list_all2 R xs ys \<Longrightarrow> x \<in> set xs \<Longrightarrow> \<exists>y \<in> set ys. R x y"
  by (induction rule: list_all2_induct) auto

lemma list_all2_set2: "list_all2 R xs ys \<Longrightarrow> y \<in> set ys \<Longrightarrow> \<exists>x \<in> set xs. R x y"
  by (induction rule: list_all2_induct) auto

text \<open>A token leg of a contract that is not on the verified list.\<close>

definition unverified_leg :: "token_lookup \<Rightarrow> asset_transfer \<Rightarrow> bool" where
  "unverified_leg lookup leg \<longleftrightarrow> at_Token leg \<noteq> None \<and> lookup (contract_of leg) = None"

lemma shows_unverified:
  "shows_leg wallet leg m \<Longrightarrow>
    (mv_ContractAddress m \<noteq> '''' \<and> lookup (ToLower (mv_ContractAddress m)) = None) \<longleftrightarrow> unverified_leg lookup leg"
  by (auto simp: shows_leg_def contract_of_def unverified_leg_def split: option.splits)

lemma isSpam_event:
  assumes "buildTransactionEvent ck lookup metadata now cache wallet hash legs ours = (td, cache')"
  shows "isSpamTransaction (Some f) (Some td) \<longleftrightarrow>
    ToLower hash \<notin> ours \<and> (\<exists>leg \<in> set legs. unverified_leg f leg)"
proof -
  note ev = buildTransactionEvent_movements [OF assms]
  have "moves_unverified f (td_Movements td) \<longleftrightarrow> (\<exists>leg \<in> set legs. unverified_leg f leg)"
    unfolding moves_unverified_iff
    using list_all2_set1 [OF ev(1)] list_all2_set2 [OF ev(1)] shows_unverified by metis
  then show ?thesis by (simp add: isSpamTransaction_def ev(3))
qed

subsection \<open>Roles\<close>

lemma classifyRole_cases:
  assumes "ms \<noteq> []"
  shows "classifyRole ms w = RoleSwap \<longleftrightarrow>
      (\<exists>m \<in> set ms. mv_IsOutgoing m \<and> \<not> EqualFold (mv_Counterparty m) w) \<and> (\<exists>m \<in> set ms. \<not> mv_IsOutgoing m)"
    and "classifyRole ms w = RoleSelfTransfer \<longleftrightarrow>
      (\<exists>m \<in> set ms. mv_IsOutgoing m) \<and> (\<forall>m \<in> set ms. mv_IsOutgoing m \<longrightarrow> EqualFold (mv_Counterparty m) w)
      \<and> (\<exists>m \<in> set ms. \<not> mv_IsOutgoing m)"
    and "classifyRole ms w \<in> {RoleSendETH, RoleSendToken} \<longleftrightarrow> (\<forall>m \<in> set ms. mv_IsOutgoing m)"
    and "classifyRole ms w \<in> {RoleReceiveETH, RoleReceiveToken} \<longleftrightarrow> (\<forall>m \<in> set ms. \<not> mv_IsOutgoing m)"
    and "classifyRole ms w \<notin> {RoleApprove, RoleUnknown}"
proof -
  obtain x where x: "x \<in> set ms" using assms by (cases ms) auto
  have c: "classifyRole ms w =
      (if (\<exists>m \<in> set ms. mv_IsOutgoing m) \<and> (\<exists>m \<in> set ms. \<not> mv_IsOutgoing m) then
         (if \<forall>m \<in> set ms. mv_IsOutgoing m \<longrightarrow> EqualFold (mv_Counterparty m) w then RoleSelfTransfer else RoleSwap)
       else if \<exists>m \<in> set ms. mv_IsOutgoing m then
         (if isNative_movement (hd (filter mv_IsOutgoing ms)) then RoleSendETH else RoleSendToken)
       else if isNative_movement (hd (filter (\<lambda>m. \<not> mv_IsOutgoing m) ms)) then RoleReceiveETH else RoleReceiveToken)"
    using assms by (auto simp: classifyRole_def Let_def list_all_iff filter_empty_conv)
  show "classifyRole ms w = RoleSwap \<longleftrightarrow>
      (\<exists>m \<in> set ms. mv_IsOutgoing m \<and> \<not> EqualFold (mv_Counterparty m) w) \<and> (\<exists>m \<in> set ms. \<not> mv_IsOutgoing m)"
    "classifyRole ms w = RoleSelfTransfer \<longleftrightarrow>
      (\<exists>m \<in> set ms. mv_IsOutgoing m) \<and> (\<forall>m \<in> set ms. mv_IsOutgoing m \<longrightarrow> EqualFold (mv_Counterparty m) w)
      \<and> (\<exists>m \<in> set ms. \<not> mv_IsOutgoing m)"
    "classifyRole ms w \<in> {RoleSendETH, RoleSendToken} \<longleftrightarrow> (\<forall>m \<in> set ms. mv_IsOutgoing m)"
    "classifyRole ms w \<in> {RoleReceiveETH, RoleReceiveToken} \<longleftrightarrow> (\<forall>m \<in> set ms. \<not> mv_IsOutgoing m)"
    "classifyRole ms w \<notin> {RoleApprove, RoleUnknown}"
    unfolding c using x by (auto split: if_splits)
qed

lemma EqualFold_address_hex: "EqualFold (address_hex a) (address_hex b) \<longleftrightarrow> a = b"
  by (simp add: EqualFold_def)

lemma event_ex:
  assumes "buildTransactionEvent ck lookup metadata now cache wallet hash legs ours = (td, cache')"
    and "\<And>l m. shows_leg wallet l m \<Longrightarrow> P l \<longleftrightarrow> Q m"
  shows "(\<exists>m \<in> set (td_Movements td). Q m) \<longleftrightarrow> (\<exists>l \<in> set legs. P l)"
  using list_all2_set1 [OF buildTransactionEvent_movements(1) [OF assms(1)]]
    list_all2_set2 [OF buildTransactionEvent_movements(1) [OF assms(1)]] assms(2) by metis

lemma event_directions:
  assumes ev: "buildTransactionEvent ck lookup metadata now cache wallet hash legs ours = (td, cache')"
  shows "td_Role td = RoleSwap \<or> td_Role td = RoleSelfTransfer \<longleftrightarrow>
    (\<exists>l \<in> set legs. at_From l = wallet) \<and> (\<exists>l \<in> set legs. at_From l \<noteq> wallet)"
proof -
  have "(\<exists>m \<in> set (td_Movements td). mv_IsOutgoing m) \<longleftrightarrow> (\<exists>l \<in> set legs. at_From l = wallet)"
    "(\<exists>m \<in> set (td_Movements td). \<not> mv_IsOutgoing m) \<longleftrightarrow> (\<exists>l \<in> set legs. at_From l \<noteq> wallet)"
    by (rule event_ex [OF ev]; simp add: shows_leg_def)+
  then show ?thesis
    unfolding buildTransactionEvent_movements(4) [OF ev]
    by (cases "td_Movements td = []")
      (auto simp: classifyRole_cases(1,2) simp del: set_empty, simp_all add: classifyRole_def)
qed

text \<open>
  C29. The role of an event states what its transfers do for the wallet: a swap pays someone
  else and is paid back, a self transfer has both directions with no leg to anyone else, a
  send has outgoing legs only and a receipt incoming ones only. A transaction that reaches the
  watcher has transfers, so the role of an approval is never given, and a plain transfer from
  the wallet to itself is a send.
\<close>

theorem event_role:
  assumes "buildTransactionEvent ck lookup metadata now cache wallet hash legs ours = (td, cache')" "legs \<noteq> []"
  shows "(td_Role td = RoleSwap \<longleftrightarrow>
      (\<exists>l \<in> set legs. at_From l = wallet \<and> at_To l \<noteq> wallet) \<and> (\<exists>l \<in> set legs. at_From l \<noteq> wallet))
    \<and> (td_Role td = RoleSelfTransfer \<longleftrightarrow>
      (\<exists>l \<in> set legs. at_From l = wallet) \<and> (\<forall>l \<in> set legs. at_From l = wallet \<longrightarrow> at_To l = wallet)
      \<and> (\<exists>l \<in> set legs. at_From l \<noteq> wallet))
    \<and> (td_Role td \<in> {RoleSendETH, RoleSendToken} \<longleftrightarrow> (\<forall>l \<in> set legs. at_From l = wallet))
    \<and> (td_Role td \<in> {RoleReceiveETH, RoleReceiveToken} \<longleftrightarrow> (\<forall>l \<in> set legs. at_From l \<noteq> wallet))
    \<and> td_Role td \<notin> {RoleApprove, RoleUnknown}"
proof -
  note ev = buildTransactionEvent_movements [OF assms(1)]
  let ?ms = "td_Movements td" and ?w = "address_hex wallet"
  have ne: "?ms \<noteq> []" using ev(1) assms(2) by auto
  have all: "(\<forall>m \<in> set ?ms. Q m) \<longleftrightarrow> (\<forall>l \<in> set legs. P l)"
    if "\<And>l m. shows_leg wallet l m \<Longrightarrow> P l \<longleftrightarrow> Q m" for P Q
    using event_ex [OF assms(1), of "\<lambda>l. \<not> P l" "\<lambda>m. \<not> Q m"] that by blast
  have "(\<exists>m \<in> set ?ms. mv_IsOutgoing m) \<longleftrightarrow> (\<exists>l \<in> set legs. at_From l = wallet)"
    "(\<exists>m \<in> set ?ms. \<not> mv_IsOutgoing m) \<longleftrightarrow> (\<exists>l \<in> set legs. at_From l \<noteq> wallet)"
    "(\<exists>m \<in> set ?ms. mv_IsOutgoing m \<and> \<not> EqualFold (mv_Counterparty m) ?w) \<longleftrightarrow> (\<exists>l \<in> set legs. at_From l = wallet \<and> at_To l \<noteq> wallet)"
    by (rule event_ex [OF assms(1)]; auto simp: shows_leg_def EqualFold_address_hex)+
  moreover have "(\<forall>m \<in> set ?ms. mv_IsOutgoing m) \<longleftrightarrow> (\<forall>l \<in> set legs. at_From l = wallet)"
    "(\<forall>m \<in> set ?ms. \<not> mv_IsOutgoing m) \<longleftrightarrow> (\<forall>l \<in> set legs. at_From l \<noteq> wallet)"
    "(\<forall>m \<in> set ?ms. mv_IsOutgoing m \<longrightarrow> EqualFold (mv_Counterparty m) ?w) \<longleftrightarrow> (\<forall>l \<in> set legs. at_From l = wallet \<longrightarrow> at_To l = wallet)"
    by (rule all; auto simp: shows_leg_def EqualFold_address_hex)+
  ultimately show ?thesis unfolding ev(4) classifyRole_cases(1-4) [OF ne]
    using classifyRole_cases(5) [OF ne, of ?w] by (simp only: simp_thms)
qed

definition sample_leg :: "string \<Rightarrow> address \<Rightarrow> address \<Rightarrow> token option \<Rightarrow> asset_transfer" where
  "sample_leg ident from to tok = \<lparr>at_BlockNumber = 7, at_Timestamp = 1, at_Hash = ''0xaa'', at_UniqueID = ident,
     at_From = from, at_To = to, at_Value = Dec 5 0, at_Asset = ''ETH'', at_Category = ''external'', at_Token = tok\<rparr>"

lemma event_role_witness:
  "\<exists>td c. buildTransactionEvent (\<lambda>_ _. False) None (\<lambda>_. Inl (Sentinel ''x'')) 9 [] 1 ''0xaa'' [sample_leg ''a'' 1 1 None] {} = (td, c)
     \<and> td_Role td \<in> {RoleSendETH, RoleSendToken} \<and> td_Role td \<noteq> RoleSelfTransfer"
proof -
  obtain td c where e: "buildTransactionEvent (\<lambda>_ _. False) None (\<lambda>_. Inl (Sentinel ''x'')) 9 [] 1 ''0xaa'' [sample_leg ''a'' 1 1 None] {} = (td, c)"
    by force
  from event_role [OF e] show ?thesis using e by (auto simp: sample_leg_def)
qed

subsection \<open>Wire form\<close>

lemma trim_loop_zeros: "trim_loop (replicate j (CHR ''0'') @ s) = trim_loop s"
  by (induction j) auto

lemma trim_zeros_last: "trim_zeros s \<noteq> [] \<Longrightarrow> last (trim_zeros s) \<noteq> CHR ''0''"
  using hd_dropWhile [of "\<lambda>c. c = CHR ''0''" "rev s"] by (auto simp: trim_zeros_def last_rev)

lemma Contains_char: "Contains s [c] \<longleftrightarrow> c \<in> set s"
  by (induction s) (auto simp: HasPrefix_def)

lemma trimDecimalZeros_number:
  assumes "CHR ''.'' \<notin> set fr"
  shows "trimDecimalZeros (ip @ ''.'' @ fr) = (if trim_zeros fr = [] then ip else ip @ ''.'' @ trim_zeros fr)"
proof -
  obtain j where j: "fr = trim_zeros fr @ replicate j (CHR ''0'')" using trim_zeros_split by blast
  then have "rev (ip @ ''.'' @ fr) = replicate j (CHR ''0'') @ rev (trim_zeros fr) @ ''.'' @ rev ip"
    by (metis append.assoc rev.simps(1) rev_append rev_replicate rev_singleton_conv)
  then have l: "trim_loop (rev (ip @ ''.'' @ fr)) = trim_loop (rev (trim_zeros fr) @ ''.'' @ rev ip)"
    by (simp only: trim_loop_zeros)
  have "trim_loop (rev (trim_zeros fr) @ ''.'' @ rev ip) =
      Some (if trim_zeros fr = [] then ip else ip @ ''.'' @ trim_zeros fr)"
  proof (cases "trim_zeros fr" rule: rev_cases)
    case (snoc s c)
    then have "c \<noteq> CHR ''0''" using trim_zeros_last [of fr] by simp
    moreover have "c \<in> set fr" using j snoc by (metis UnCI in_set_conv_decomp set_append)
    then have "c \<noteq> CHR ''.''" using assms by auto
    ultimately show ?thesis using snoc by simp
  qed simp
  then show ?thesis by (simp only: trimDecimalZeros_def Contains_char l) simp
qed

text \<open>A trimmed amount is the same number; an integer is left as it is.\<close>

lemma trimDecimalZeros_value:
  fixes neg :: bool
  assumes "all_digits ip" "all_digits fr" "ip \<noteq> []" "length fr \<le> 2 ^ 31"
  defines "sg \<equiv> (if neg then [CHR ''-''] else [])"
  shows "trimDecimalZeros (sg @ ip) = sg @ ip"
    and "\<exists>v j. NewFromString (sg @ (if fr = [] then ip else ip @ ''.'' @ fr))
           = Inr (Dec (if neg then - int (v * 10 ^ j) else int (v * 10 ^ j)) (- int (length fr)))
      \<and> NewFromString (trimDecimalZeros (sg @ (if fr = [] then ip else ip @ ''.'' @ fr)))
           = Inr (Dec (if neg then - int v else int v) (int j - int (length fr)))"
proof -
  have dot: "CHR ''.'' \<notin> set ip" "CHR ''.'' \<notin> set fr"
    using all_digits_not_in assms(1,2) by blast+
  show int: "trimDecimalZeros (sg @ ip) = sg @ ip"
    using dot by (auto simp: trimDecimalZeros_def Contains_char sg_def)
  obtain j where j: "fr = trim_zeros fr @ replicate j (CHR ''0'')" using trim_zeros_split by blast
  have t: "all_digits (trim_zeros fr)" using assms(2) j by (metis all_digits_simps(3))
  obtain v where v: "parse_digits 10 0 (ip @ trim_zeros fr) = Some v"
    using parse_digits_all_digits [of "ip @ trim_zeros fr" 0] assms(1) t by auto
  have "parse_digits 10 0 ((ip @ trim_zeros fr) @ replicate j (CHR ''0'')) = Some (v * 10 ^ j)"
    by (subst parse_digits_append) (simp add: v parse_digits_zeros)
  moreover have "(ip @ trim_zeros fr) @ replicate j (CHR ''0'') = ip @ fr"
    unfolding append_assoc using j by (rule arg_cong [OF sym])
  ultimately have p: "parse_digits 10 0 (ip @ fr) = Some (v * 10 ^ j)" by simp
  have len: "length fr = length (trim_zeros fr) + j" using arg_cong [OF j, of length] by simp
  have a: "NewFromString (sg @ (if fr = [] then ip else ip @ ''.'' @ fr))
           = Inr (Dec (if neg then - int (v * 10 ^ j) else int (v * 10 ^ j)) (- int (length fr)))"
    unfolding sg_def using NewFromString_number [OF assms(1-3) p assms(4)] .
  have b: "NewFromString (sg @ (if trim_zeros fr = [] then ip else ip @ ''.'' @ trim_zeros fr))
           = Inr (Dec (if neg then - int v else int v) (- int (length (trim_zeros fr))))"
    unfolding sg_def using NewFromString_number [OF assms(1) t assms(3) v] assms(4) len by simp
  have e: "trimDecimalZeros (sg @ (if fr = [] then ip else ip @ ''.'' @ fr))
      = sg @ (if trim_zeros fr = [] then ip else ip @ ''.'' @ trim_zeros fr)"
  proof (cases "fr = []")
    case True
    then show ?thesis using int by (simp add: trim_zeros_def)
  next
    case False
    then show ?thesis using trimDecimalZeros_number [OF dot(2), of "sg @ ip"] by simp
  qed
  have "- int (length (trim_zeros fr)) = int j - int (length fr)" using len by simp
  then show "\<exists>v j. NewFromString (sg @ (if fr = [] then ip else ip @ ''.'' @ fr))
           = Inr (Dec (if neg then - int (v * 10 ^ j) else int (v * 10 ^ j)) (- int (length fr)))
      \<and> NewFromString (trimDecimalZeros (sg @ (if fr = [] then ip else ip @ ''.'' @ fr)))
           = Inr (Dec (if neg then - int v else int v) (int j - int (length fr)))"
    using a b e by (intro exI [of _ v] exI [of _ j]) (simp only: simp_thms)
qed

end
