(* ===== verification/Watcher.thy ===== *)
theory Watcher
  imports Complex_Main Watch_Events "HOL-Library.Sublist" "HOL-Library.Multiset"
begin

text \<open>
  internal/usecase/watcher: delivery of events (emit.go), the transaction watcher
  (watch_transactions.go, fetch_transfers.go), the low-balance and gas alerts
  (watch_balance.go, watch_gas.go) and the following of the loaded wallet (usecase.go). The
  notification sink is a parameter with a state of its own; a subscriber's channel is the
  list of its buffered events. Readings of the clock are arguments.
\<close>

section \<open>Delivery\<close>

record ('f, 's) hub =
  hb_sink :: 's
  hb_subscribers :: "(nat \<times> 'f wallet_event list) list"
  hb_channels :: nat

type_synonym 's sink = "event_kind \<Rightarrow> string \<Rightarrow> u8 list \<Rightarrow> bool \<Rightarrow> 's \<Rightarrow> (err + string) \<times> 's"

definition subscriber_buffer :: nat where "subscriber_buffer = 64"

definition Subscribe :: "('f, 's) hub \<Rightarrow> nat \<times> ('f, 's) hub" where
  "Subscribe h = (hb_channels h,
     h\<lparr>hb_subscribers := hb_subscribers h @ [(hb_channels h, [])], hb_channels := hb_channels h + 1\<rparr>)"

text \<open>The loop of the unsubscribe function; a removed channel is closed.\<close>

fun drop_channel :: "nat \<Rightarrow> (nat \<times> 'f wallet_event list) list \<Rightarrow> (nat \<times> 'f wallet_event list) list" where
  "drop_channel ch [] = []"
| "drop_channel ch (s # ss) = (if fst s = ch then ss else s # drop_channel ch ss)"

definition unsub :: "nat \<Rightarrow> ('f, 's) hub \<Rightarrow> ('f, 's) hub" where
  "unsub ch h = h\<lparr>hb_subscribers := drop_channel ch (hb_subscribers h)\<rparr>"

definition emit :: "'f wallet_event \<Rightarrow> ('f, 's) hub \<Rightarrow> ('f, 's) hub" where
  "emit e h = h\<lparr>hb_subscribers :=
     map (\<lambda>(ch, buffer). (ch, if length buffer < subscriber_buffer then buffer @ [e] else buffer)) (hb_subscribers h)\<rparr>"

definition persist ::
  "('f \<Rightarrow> string) \<Rightarrow> (pb_event \<Rightarrow> err + u8 list) \<Rightarrow> 's sink option \<Rightarrow> 'f wallet_event \<Rightarrow> 's \<Rightarrow> string \<times> 's" where
  "persist fmt2 marshal sink e s =
     (case sink of None \<Rightarrow> ('''', s)
      | Some save \<Rightarrow> (case WalletEventToProto fmt2 e of None \<Rightarrow> ('''', s)
          | Some pb \<Rightarrow> (case marshal pb of Inl x \<Rightarrow> ('''', s)
              | Inr payload \<Rightarrow> (case save (we_Kind e) (txHashOf e) payload (isOursOf e) s of
                  (Inl x, s') \<Rightarrow> ('''', s')
                | (Inr ident, s') \<Rightarrow> (ident, s')))))"

definition emitAndPersist ::
  "('f \<Rightarrow> string) \<Rightarrow> (pb_event \<Rightarrow> err + u8 list) \<Rightarrow> 's sink option \<Rightarrow> 'f wallet_event \<Rightarrow> ('f, 's) hub \<Rightarrow> ('f, 's) hub" where
  "emitAndPersist fmt2 marshal sink e h =
     (let (ident, s') = persist fmt2 marshal sink e (hb_sink h);
          e' = (if ident \<noteq> '''' then e\<lparr>we_ID := ident\<rparr> else e)
      in emit e' (h\<lparr>hb_sink := s'\<rparr>))"

section \<open>Hashes already handled\<close>

record emitted_set =
  es_set :: "string set"
  es_order :: "string list"
  es_cap :: nat

definition newEmittedSet :: "nat \<Rightarrow> emitted_set" where
  "newEmittedSet maxSize = \<lparr>es_set = {}, es_order = [], es_cap = maxSize\<rparr>"

definition has :: "emitted_set \<Rightarrow> string \<Rightarrow> bool" where
  "has e h \<longleftrightarrow> h \<in> es_set e"

definition add_emitted :: "string \<Rightarrow> emitted_set \<Rightarrow> emitted_set" where
  "add_emitted h e =
     (if h \<in> es_set e then e
      else (let e1 = (if length (es_order e) \<ge> es_cap e
                      then e\<lparr>es_order := tl (es_order e), es_set := es_set e - {hd (es_order e)}\<rparr> else e)
            in e1\<lparr>es_set := insert h (es_set e1), es_order := es_order e1 @ [h]\<rparr>))"

section \<open>One tick\<close>

definition shouldDefer ::
  "time \<Rightarrow> string \<Rightarrow> transaction_data \<Rightarrow> (string, pending_tx) gomap \<Rightarrow> (string, time) gomap \<Rightarrow> duration \<Rightarrow>
   bool \<times> (string, time) gomap" where
  "shouldDefer now hash txEvent ourPending deferred maxDeferral =
     (let kind = (case map_of ourPending (ToLower hash) of None \<Rightarrow> '''' | Some p \<Rightarrow> ptx_Kind p);
          looksIncomplete = (kind = ''swap'' \<and> td_Role txEvent \<noteq> RoleSwap \<and> td_Role txEvent \<noteq> RoleSelfTransfer)
      in if \<not> looksIncomplete then (False, deferred)
         else (case map_of deferred hash of
             None \<Rightarrow> (True, AList.update hash now deferred)
           | Some firstSeen \<Rightarrow> (Sub_time now firstSeen < maxDeferral, deferred)))"

record ('f, 's) tick_state =
  ts_emitted :: emitted_set
  ts_deferred :: "(string, time) gomap"
  ts_cache :: meta_cache
  ts_hub :: "('f, 's) hub"

text \<open>
  What the code around a tick provides: the checksum casing, the token list and the contracts'
  metadata, the wire encoding and the sink, and the readings of the clock while a hash is
  built (\<open>tk_built\<close>) and considered for deferral (\<open>tk_seen\<close>).
\<close>

record ('f, 's) tick_env =
  tk_ck :: checksum
  tk_lookup :: "token_lookup option"
  tk_metadata :: "address \<Rightarrow> err + token"
  tk_fmt2 :: "'f \<Rightarrow> string"
  tk_marshal :: "pb_event \<Rightarrow> err + u8 list"
  tk_sink :: "'s sink option"
  tk_built :: "string \<Rightarrow> time"
  tk_seen :: "string \<Rightarrow> time"

definition process_hash ::
  "('f, 's) tick_env \<Rightarrow> address \<Rightarrow> (string, pending_tx) gomap \<Rightarrow> duration \<Rightarrow> string \<Rightarrow> asset_transfer list \<Rightarrow>
   ('f, 's) tick_state \<Rightarrow> ('f, 's) tick_state" where
  "process_hash env addr ourPending maxDeferral hash legs st =
     (if has (ts_emitted st) hash then st
      else (let (txEvent, cache') = buildTransactionEvent (tk_ck env) (tk_lookup env) (tk_metadata env) (tk_built env hash)
                  (ts_cache st) addr hash legs (fst ` set ourPending);
                st1 = st\<lparr>ts_cache := cache'\<rparr>
            in if isSpamTransaction (tk_lookup env) (Some txEvent)
               then st1\<lparr>ts_emitted := add_emitted hash (ts_emitted st1), ts_deferred := AList.delete hash (ts_deferred st1)\<rparr>
               else (let (hold, deferred') = shouldDefer (tk_seen env hash) hash txEvent ourPending (ts_deferred st1) maxDeferral;
                         st2 = st1\<lparr>ts_deferred := deferred'\<rparr>
                     in if hold then st2
                        else st2\<lparr>ts_hub := emitAndPersist (tk_fmt2 env) (tk_marshal env) (tk_sink env)
                                    (transaction_event txEvent) (ts_hub st2),
                                 ts_emitted := add_emitted hash (ts_emitted st2),
                                 ts_deferred := AList.delete hash (ts_deferred st2)\<rparr>)))"

fun process_groups ::
  "('f, 's) tick_env \<Rightarrow> address \<Rightarrow> (string, pending_tx) gomap \<Rightarrow> duration \<Rightarrow> (string, asset_transfer list) gomap \<Rightarrow>
   ('f, 's) tick_state \<Rightarrow> ('f, 's) tick_state" where
  "process_groups env addr ourPending maxDeferral [] st = st"
| "process_groups env addr ourPending maxDeferral ((hash, legs) # groups) st =
     process_groups env addr ourPending maxDeferral groups (process_hash env addr ourPending maxDeferral hash legs st)"

text \<open>\<open>order\<close> is the order in which the map of groups is visited.\<close>

definition processTick ::
  "('f, 's) tick_env \<Rightarrow> ((string, asset_transfer list) gomap \<Rightarrow> (string, asset_transfer list) gomap) \<Rightarrow> pending_tx list \<Rightarrow>
   address \<Rightarrow> asset_transfer list \<Rightarrow> duration \<Rightarrow> ('f, 's) tick_state \<Rightarrow> ('f, 's) tick_state" where
  "processTick env order recentPending addr transfers maxDeferral st =
     (let grouped = groupByHash transfers;
          ourPending = indexPendingByHash recentPending
      in process_groups env addr ourPending maxDeferral (order grouped) st)"

section \<open>The polling loop\<close>

definition fetchPageSize :: int where "fetchPageSize = 50"
definition lookbackBlocks :: u64 where "lookbackBlocks = 3"
definition maxDeferral :: duration where "maxDeferral = 30 * Second"
definition emittedCap :: nat where "emittedCap = 512"

definition categories :: "string list" where
  "categories = [CategoryExternal, CategoryInternal, CategoryERC20]"

definition range_params :: "string \<Rightarrow> string \<Rightarrow> string list \<Rightarrow> int \<Rightarrow> transfers_params" where
  "range_params fromBlock toBlock cats maxCount = \<lparr>gp_FromAddress = None, gp_ToAddress = None, gp_FromBlock = fromBlock,
     gp_ToBlock = toBlock, gp_Categories = cats, gp_ContractAddresses = [], gp_MaxCount = maxCount, gp_PageKey = '''',
     gp_WithMetadata = True\<rparr>"

text \<open>\<open>get\<close> is the client's \<open>GetAssetTransfers\<close>.\<close>

definition fetchTransfers ::
  "(transfers_params \<Rightarrow> err + transfers_page) \<Rightarrow> address \<Rightarrow> string \<Rightarrow> string \<Rightarrow> string list \<Rightarrow> int \<Rightarrow>
   err + asset_transfer list" where
  "fetchTransfers get addr fromBlock toBlock cats maxCount =
     bindE (mapE (errorf ''outgoing transfers: '')
       (get (range_params fromBlock toBlock cats maxCount\<lparr>gp_FromAddress := Some addr\<rparr>))) (\<lambda>out.
     bindE (mapE (errorf ''incoming transfers: '')
       (get (range_params fromBlock toBlock cats maxCount\<lparr>gp_ToAddress := Some addr\<rparr>))) (\<lambda>inn.
     Inr (pg_Transfers out @ pg_Transfers inn)))"

definition FormatHex :: "u64 \<Rightarrow> string" where "FormatHex n = ''0x'' @ show_base 16 (unat n)"

record ('f, 's) watch_state =
  ws_lastBlock :: u64
  ws_initialized :: bool
  ws_tick :: "('f, 's) tick_state"

text \<open>One firing of the ticker: the answers of the node and of the registry at that time.\<close>

record ('f, 's) tick_input =
  ti_block :: "err + u64"
  ti_get :: "transfers_params \<Rightarrow> err + transfers_page"
  ti_pending :: "pending_tx list"
  ti_env :: "('f, 's) tick_env"
  ti_order :: "(string, asset_transfer list) gomap \<Rightarrow> (string, asset_transfer list) gomap"
  ti_gc :: "string \<Rightarrow> time"

text \<open>The range of blocks a tick queries, none when it does not come to a query.\<close>

definition tick_window :: "err + u64 \<Rightarrow> ('f, 's) watch_state \<Rightarrow> (u64 \<times> u64) option" where
  "tick_window block st =
     (case block of Inl e \<Rightarrow> None
      | Inr cur \<Rightarrow>
        if \<not> ws_initialized st then None
        else if cur \<le> ws_lastBlock st then None
        else Some (if ws_lastBlock st > lookbackBlocks then ws_lastBlock st - lookbackBlocks + 1 else 1, cur))"

definition fetched :: "address \<Rightarrow> ('f, 's) tick_input \<Rightarrow> ('f, 's) watch_state \<Rightarrow> (err + asset_transfer list) option" where
  "fetched addr i st = map_option (\<lambda>(from, cur).
     fetchTransfers (ti_get i) addr (FormatHex from) (FormatHex cur) categories fetchPageSize) (tick_window (ti_block i) st)"

definition gc_deferred :: "(string \<Rightarrow> time) \<Rightarrow> duration \<Rightarrow> (string, time) gomap \<Rightarrow> (string, time) gomap" where
  "gc_deferred now limit deferred = filter (\<lambda>(hash, firstSeen). \<not> Sub_time (now hash) firstSeen > limit * 2) deferred"

definition watch_tick ::
  "address \<Rightarrow> ('f, 's) tick_input \<Rightarrow> ('f, 's) watch_state \<Rightarrow> ('f, 's) watch_state" where
  "watch_tick addr i st =
     (case ti_block i of Inl e \<Rightarrow> st
      | Inr cur \<Rightarrow>
        if \<not> ws_initialized st then st\<lparr>ws_lastBlock := cur, ws_initialized := True\<rparr>
        else (case fetched addr i st of
            None \<Rightarrow> st
          | Some (Inl e) \<Rightarrow> st
          | Some (Inr transfers) \<Rightarrow>
            (let tick = processTick (ti_env i) (ti_order i) (ti_pending i) addr transfers maxDeferral (ws_tick st);
                 tick' = tick\<lparr>ts_deferred := gc_deferred (ti_gc i) maxDeferral (ts_deferred tick)\<rparr>
             in st\<lparr>ws_tick := tick', ws_lastBlock := cur\<rparr>)))"

definition start_watch :: "meta_cache \<Rightarrow> ('f, 's) hub \<Rightarrow> ('f, 's) watch_state" where
  "start_watch cache h = \<lparr>ws_lastBlock = 0, ws_initialized = False,
     ws_tick = \<lparr>ts_emitted = newEmittedSet emittedCap, ts_deferred = [], ts_cache = cache, ts_hub = h\<rparr>\<rparr>"

text \<open>The loop over the firings before the context ends.\<close>

fun watchTransactions ::
  "address \<Rightarrow> ('f, 's) tick_input list \<Rightarrow> ('f, 's) watch_state \<Rightarrow> ('f, 's) watch_state" where
  "watchTransactions addr [] st = st"
| "watchTransactions addr (i # inputs) st = watchTransactions addr inputs (watch_tick addr i st)"

section \<open>Alerts\<close>

text \<open>
  \<open>toFloat\<close> is \<open>Float64\<close> of a decimal. The arithmetic of the floats is that of the type, of
  which nothing is assumed.
\<close>

definition low_balance_step ::
  "(decimal \<Rightarrow> 'g::ord) \<Rightarrow> 'g \<Rightarrow> address \<Rightarrow> amount \<Rightarrow> bool \<Rightarrow> bool \<times> 'f wallet_event list" where
  "low_balance_step toFloat threshold addr balance latched =
     (let ethBalance = toFloat (ToETH balance) in
      if ethBalance < threshold \<and> \<not> latched then
        (True, [\<lparr>we_ID = '''', we_Kind = KindLowBalance, we_GasAlert = None,
                we_LowBalance = Some \<lparr>lb_Address = addr, lb_ETH = balance\<rparr>, we_Transaction = None\<rparr>])
      else if threshold \<le> ethBalance \<and> latched then (False, [])
      else (latched, []))"

fun watchBalanceForLowAlert ::
  "(decimal \<Rightarrow> 'g::ord) \<Rightarrow> 'g \<Rightarrow> ('f wallet_event \<Rightarrow> 'h \<Rightarrow> 'h) \<Rightarrow> address \<Rightarrow> balance_update list \<Rightarrow> bool \<Rightarrow> 'h \<Rightarrow> bool \<times> 'h" where
  "watchBalanceForLowAlert toFloat threshold deliver addr [] latched h = (latched, h)"
| "watchBalanceForLowAlert toFloat threshold deliver addr (u # us) latched h =
     (let (latched', evs) = low_balance_step toFloat threshold addr (bu_Balance u) latched in
      watchBalanceForLowAlert toFloat threshold deliver addr us latched' (fold deliver evs h))"

definition gas_alert_event :: "bool \<Rightarrow> 'f \<Rightarrow> 'f \<Rightarrow> 'f wallet_event" where
  "gas_alert_event spike cur prev = \<lparr>we_ID = '''', we_Kind = KindGasAlert,
     we_GasAlert = Some \<lparr>ga_IsSpike = spike, ga_CurrentGwei = cur, ga_PreviousGwei = prev\<rparr>,
     we_LowBalance = None, we_Transaction = None\<rparr>"

definition gas_step ::
  "(decimal \<Rightarrow> 'f::{zero,minus,inverse,uminus,ord}) \<Rightarrow> 'f \<Rightarrow> 'f \<Rightarrow> err + gas_info \<Rightarrow> 'f \<Rightarrow> 'f \<times> 'f wallet_event list" where
  "gas_step toFloat gasSpikePct gasDropPct answer prevGwei =
     (case answer of Inl e \<Rightarrow> (prevGwei, [])
      | Inr info \<Rightarrow>
        (let cur = toFloat (ToGwei (BaseFee info)) in
         (cur, if prevGwei > 0 \<and> cur > 0 then
                 (let change = (cur - prevGwei) / prevGwei in
                  if change \<ge> gasSpikePct then [gas_alert_event True cur prevGwei]
                  else if change \<le> - gasDropPct then [gas_alert_event False cur prevGwei]
                  else [])
               else [])))"

fun watchGas ::
  "(decimal \<Rightarrow> 'f::{zero,minus,inverse,uminus,ord}) \<Rightarrow> 'f \<Rightarrow> 'f \<Rightarrow> ('f wallet_event \<Rightarrow> 'h \<Rightarrow> 'h) \<Rightarrow> (err + gas_info) list \<Rightarrow>
   'f \<Rightarrow> 'h \<Rightarrow> 'f \<times> 'h" where
  "watchGas toFloat spikePct dropPct deliver [] prev h = (prev, h)"
| "watchGas toFloat spikePct dropPct deliver (a # answers) prev h =
     (let (prev', evs) = gas_step toFloat spikePct dropPct a prev in
      watchGas toFloat spikePct dropPct deliver answers prev' (fold deliver evs h))"

section \<open>Following the wallet\<close>

text \<open>
  The readings of the loaded address, in the order they are made; the context ends after the
  last one. \<open>runAddressMonitors\<close> gives the addresses monitored.
\<close>

fun waitForWallet :: "address list \<Rightarrow> address \<times> address list" where
  "waitForWallet [] = (0, [])"
| "waitForWallet (a # rs) = (if \<not> IsZero_address a then (a, rs) else waitForWallet rs)"

fun waitForAddressChange :: "address \<Rightarrow> address list \<Rightarrow> address list option" where
  "waitForAddressChange current [] = None"
| "waitForAddressChange current (a # rs) = (if a \<noteq> current then Some rs else waitForAddressChange current rs)"

lemma waitForWallet_length: "waitForWallet rs = (a, rs') \<Longrightarrow> a \<noteq> 0 \<Longrightarrow> length rs' < length rs"
  by (induction rs) (auto simp: IsZero_address_def split: if_splits)

lemma waitForAddressChange_length: "waitForAddressChange a rs = Some rs' \<Longrightarrow> length rs' < length rs"
  by (induction rs) (auto split: if_splits)

function runAddressMonitors :: "address list \<Rightarrow> address list" where
  "runAddressMonitors rs =
     (let (addr, rs1) = waitForWallet rs in
      if IsZero_address addr then []
      else addr # (case waitForAddressChange addr rs1 of None \<Rightarrow> [] | Some rs2 \<Rightarrow> runAddressMonitors rs2))"
  by pat_completeness auto
termination
proof (relation "measure length")
  fix rs :: "address list" and p addr rs1 rs2
  assume "p = waitForWallet rs" "(addr, rs1) = p" "\<not> IsZero_address addr" "waitForAddressChange addr rs1 = Some rs2"
  then have "length rs1 < length rs" "length rs2 < length rs1"
    using waitForWallet_length [of rs addr rs1] waitForAddressChange_length [of addr rs1 rs2]
    by (auto simp: IsZero_address_def)
  then show "(rs2, rs) \<in> measure length" by simp
qed simp

declare runAddressMonitors.simps [simp del]

section \<open>Handled hashes as a bounded queue\<close>

definition lastn :: "nat \<Rightarrow> 'a list \<Rightarrow> 'a list" where
  "lastn n xs = drop (length xs - n) xs"

lemma lastn_snoc: "0 < n \<Longrightarrow> lastn n (xs @ [x]) = (if length xs < n then lastn n xs else tl (lastn n xs)) @ [x]"
  by (auto simp: lastn_def tl_drop Suc_diff_le drop_Suc tl_append2)

text \<open>The same element only comes again after more than \<open>cap\<close> others.\<close>

definition spaced :: "nat \<Rightarrow> 'a list \<Rightarrow> bool" where
  "spaced cap hs \<longleftrightarrow> (\<forall>i j. i < j \<and> j < length hs \<and> hs ! i = hs ! j \<longrightarrow> i + cap < j)"

lemma spaced_snoc:
  assumes "spaced cap hs" "h \<notin> set (lastn cap hs)"
  shows "spaced cap (hs @ [h])"
  unfolding spaced_def
proof (intro allI impI)
  fix i j
  assume a: "i < j \<and> j < length (hs @ [h]) \<and> (hs @ [h]) ! i = (hs @ [h]) ! j"
  show "i + cap < j"
  proof (cases "j = length hs")
    case True
    then have i: "hs ! i = h" "i < length hs" using a by (auto simp: nth_append)
    have "i < length hs - cap"
    proof (rule ccontr)
      assume "\<not> i < length hs - cap"
      then have "hs ! i \<in> set (drop (length hs - cap) hs)"
        using i(2) by (auto simp: in_set_conv_nth intro!: exI [of _ "i - (length hs - cap)"])
      then show False using assms(2) i(1) by (simp add: lastn_def)
    qed
    then show ?thesis using True by simp
  next
    case False
    then have "i < j" "j < length hs" "hs ! i = hs ! j" using a by (auto simp: nth_append)
    with assms(1) show ?thesis by (auto simp: spaced_def)
  qed
qed

text \<open>
  A queue of bounded size with a membership test, seen as the list of all additions: it
  remembers the last \<open>cap\<close> of them.
\<close>

locale bounded_queue =
  fixes empty :: 'q
    and member :: "'q \<Rightarrow> 'a \<Rightarrow> bool"
    and add :: "'a \<Rightarrow> 'q \<Rightarrow> 'q"
    and cap :: nat
    and remembers :: "'q \<Rightarrow> 'a list \<Rightarrow> bool"
  assumes remembers_empty: "remembers empty []"
    and remembers_member: "remembers q hs \<Longrightarrow> member q h \<longleftrightarrow> h \<in> set (lastn cap hs)"
    and remembers_add: "remembers q hs \<Longrightarrow> h \<notin> set (lastn cap hs) \<Longrightarrow> remembers (add h q) (hs @ [h])"
    and remembers_again: "remembers q hs \<Longrightarrow> h \<in> set (lastn cap hs) \<Longrightarrow> add h q = q"
begin

definition holds :: "'q \<Rightarrow> 'a list \<Rightarrow> bool" where
  "holds q hs \<longleftrightarrow> remembers q hs \<and> spaced cap hs"

lemma holds_empty: "holds empty []"
  by (simp add: holds_def remembers_empty spaced_def)

lemma holds_add: "holds q hs \<Longrightarrow> \<not> member q h \<Longrightarrow> holds (add h q) (hs @ [h])"
  unfolding holds_def using remembers_member [of q hs h] remembers_add [of q hs h] spaced_snoc [of cap hs h] by blast

lemma holds_member: "holds q hs \<Longrightarrow> member q h \<longleftrightarrow> h \<in> set (lastn cap hs)"
  unfolding holds_def using remembers_member [of q hs h] by blast

lemma recently_added: "holds q hs \<Longrightarrow> length hs - i \<le> cap \<Longrightarrow> i < length hs \<Longrightarrow> member q (hs ! i)"
  by (auto simp: holds_member lastn_def in_set_conv_nth intro!: exI [of _ "i - (length hs - cap)"])

end

definition emitted_log :: "nat \<Rightarrow> emitted_set \<Rightarrow> string list \<Rightarrow> bool" where
  "emitted_log cap e hs \<longleftrightarrow> es_cap e = cap \<and> es_order e = lastn cap hs \<and> es_set e = set (lastn cap hs) \<and> distinct (lastn cap hs)"

lemma emitted_log_add:
  assumes "0 < cap" "emitted_log cap e hs" "h \<notin> set (lastn cap hs)"
  shows "emitted_log cap (add_emitted h e) (hs @ [h])"
proof (cases "length hs < cap")
  case True
  then show ?thesis using assms by (auto simp: emitted_log_def add_emitted_def lastn_snoc lastn_def)
next
  case False
  then obtain x xs where x: "lastn cap hs = x # xs" using assms(1) by (cases "lastn cap hs") (auto simp: lastn_def)
  have "length (lastn cap hs) = cap" using False by (simp add: lastn_def)
  then show ?thesis using assms False x by (auto simp: emitted_log_def add_emitted_def lastn_snoc Let_def)
qed

interpretation handled: bounded_queue "newEmittedSet emittedCap" has add_emitted emittedCap "emitted_log emittedCap"
proof
  show "emitted_log emittedCap (newEmittedSet emittedCap) []"
    by (simp add: emitted_log_def newEmittedSet_def lastn_def)
  show "emitted_log emittedCap (add_emitted h q) (hs @ [h])" if "emitted_log emittedCap q hs" "h \<notin> set (lastn emittedCap hs)" for q hs h
    using emitted_log_add [OF _ that] by (simp add: emittedCap_def)
qed (auto simp: emitted_log_def has_def add_emitted_def)

section \<open>Laws of a tick\<close>

text \<open>A poisoning attempt, and a swap of ours of which one direction is missing.\<close>

definition is_poison :: "('f, 's) tick_env \<Rightarrow> (string, pending_tx) gomap \<Rightarrow> string \<Rightarrow> asset_transfer list \<Rightarrow> bool" where
  "is_poison env ourPending hash legs \<longleftrightarrow> ToLower hash \<notin> fst ` set ourPending
     \<and> (\<exists>f. tk_lookup env = Some f \<and> (\<exists>leg \<in> set legs. unverified_leg f leg))"

definition awaits_leg :: "(string, pending_tx) gomap \<Rightarrow> address \<Rightarrow> string \<Rightarrow> asset_transfer list \<Rightarrow> bool" where
  "awaits_leg ourPending addr hash legs \<longleftrightarrow>
     (\<exists>p. map_of ourPending (ToLower hash) = Some p \<and> ptx_Kind p = ''swap'')
     \<and> \<not> ((\<exists>l \<in> set legs. at_From l = addr) \<and> (\<exists>l \<in> set legs. at_From l \<noteq> addr))"

datatype fate = Poison | Held | Announced

definition fate_of ::
  "('f, 's) tick_env \<Rightarrow> address \<Rightarrow> (string, pending_tx) gomap \<Rightarrow> duration \<Rightarrow> (string, time) gomap \<Rightarrow> string \<Rightarrow>
   asset_transfer list \<Rightarrow> fate" where
  "fate_of env addr ourPending limit deferred hash legs =
     (if is_poison env ourPending hash legs then Poison
      else if awaits_leg ourPending addr hash legs
        \<and> (case map_of deferred hash of None \<Rightarrow> True | Some t \<Rightarrow> Sub_time (tk_seen env hash) t < limit) then Held
      else Announced)"

abbreviation deliver_td :: "('f, 's) tick_env \<Rightarrow> transaction_data \<Rightarrow> ('f, 's) hub \<Rightarrow> ('f, 's) hub" where
  "deliver_td env td \<equiv> emitAndPersist (tk_fmt2 env) (tk_marshal env) (tk_sink env) (transaction_event td)"

definition built_from ::
  "('f, 's) tick_env \<Rightarrow> address \<Rightarrow> (string, pending_tx) gomap \<Rightarrow> string \<Rightarrow> asset_transfer list \<Rightarrow> transaction_data \<Rightarrow> bool" where
  "built_from env addr ourPending hash legs td \<longleftrightarrow>
     (\<exists>cache cache'. buildTransactionEvent (tk_ck env) (tk_lookup env) (tk_metadata env) (tk_built env hash) cache
        addr hash legs (fst ` set ourPending) = (td, cache'))"

lemma built_from_hash: "built_from env addr ourPending hash legs td \<Longrightarrow> td_TxHash td = hash"
  by (auto simp: built_from_def dest: buildTransactionEvent_movements(2))

lemma process_hash_fate:
  assumes "\<not> has (ts_emitted st) hash"
    and "process_hash env addr ourPending limit hash legs st = st'"
  shows "case fate_of env addr ourPending limit (ts_deferred st) hash legs of
      Poison \<Rightarrow> ts_hub st' = ts_hub st \<and> ts_emitted st' = add_emitted hash (ts_emitted st)
        \<and> ts_deferred st' = AList.delete hash (ts_deferred st)
    | Held \<Rightarrow> ts_hub st' = ts_hub st \<and> ts_emitted st' = ts_emitted st
        \<and> ts_deferred st' = (case map_of (ts_deferred st) hash of None \<Rightarrow> AList.update hash (tk_seen env hash) (ts_deferred st)
            | Some _ \<Rightarrow> ts_deferred st)
    | Announced \<Rightarrow> (\<exists>td. built_from env addr ourPending hash legs td \<and> ts_hub st' = deliver_td env td (ts_hub st)
        \<and> ts_emitted st' = add_emitted hash (ts_emitted st) \<and> ts_deferred st' = AList.delete hash (ts_deferred st))"
proof -
  obtain td cache' where ev: "buildTransactionEvent (tk_ck env) (tk_lookup env) (tk_metadata env) (tk_built env hash)
      (ts_cache st) addr hash legs (fst ` set ourPending) = (td, cache')" by force
  have b: "built_from env addr ourPending hash legs td" using ev by (auto simp: built_from_def)
  have spam: "isSpamTransaction (tk_lookup env) (Some td) \<longleftrightarrow> is_poison env ourPending hash legs"
  proof (cases "tk_lookup env")
    case None
    then show ?thesis by (simp add: isSpamTransaction_def is_poison_def)
  next
    case (Some f)
    then show ?thesis using isSpam_event [OF ev] by (simp add: is_poison_def)
  qed
  have def: "shouldDefer (tk_seen env hash) hash td ourPending d limit =
      (if awaits_leg ourPending addr hash legs then
         (case map_of d hash of None \<Rightarrow> (True, AList.update hash (tk_seen env hash) d)
          | Some t \<Rightarrow> (Sub_time (tk_seen env hash) t < limit, d)) else (False, d))" for d
    using event_directions [OF ev] unfolding shouldDefer_def awaits_leg_def
    by (auto simp: Let_def split: option.splits)
  show ?thesis
  proof (cases "is_poison env ourPending hash legs")
    case True
    then show ?thesis using assms ev spam by (auto simp: process_hash_def fate_of_def Let_def)
  next
    case False
    then have st': "st' = (let (hold, deferred') = shouldDefer (tk_seen env hash) hash td ourPending (ts_deferred st) limit;
          st2 = st\<lparr>ts_cache := cache', ts_deferred := deferred'\<rparr>
       in if hold then st2 else st2\<lparr>ts_hub := deliver_td env td (ts_hub st2),
            ts_emitted := add_emitted hash (ts_emitted st2), ts_deferred := AList.delete hash (ts_deferred st2)\<rparr>)"
      using assms ev spam by (simp add: process_hash_def)
    show ?thesis
      using False b unfolding st' def fate_of_def by (auto simp: Let_def split: option.splits)
  qed
qed

lemma process_hash_has: "has (ts_emitted st) hash \<Longrightarrow> process_hash env addr ourPending limit hash legs st = st"
  by (simp add: process_hash_def)

lemma process_hash_deferred_other:
  "h \<noteq> hash \<Longrightarrow> map_of (ts_deferred (process_hash env addr ourPending limit hash legs st)) h = map_of (ts_deferred st) h"
proof (cases "has (ts_emitted st) hash")
  case False
  assume "h \<noteq> hash"
  then show ?thesis using process_hash_fate [OF False refl, of env addr ourPending limit legs]
    by (auto simp: gomap_simps split: fate.splits option.splits)
qed (simp add: process_hash_has)

lemma has_add_emitted: "has (add_emitted h' e) h \<Longrightarrow> has e h \<or> h = h'"
  by (auto simp: has_def add_emitted_def Let_def split: if_splits)

lemma fate_of_cong: "map_of d h = map_of d' h \<Longrightarrow> fate_of env addr ours limit d h legs = fate_of env addr ours limit d' h legs"
  by (simp add: fate_of_def)

lemma process_hash_has_mono:
  "has (ts_emitted (process_hash env addr ours limit hash legs st)) h \<Longrightarrow> has (ts_emitted st) h \<or> h = hash"
proof (cases "has (ts_emitted st) hash")
  case False
  assume "has (ts_emitted (process_hash env addr ours limit hash legs st)) h"
  then show ?thesis using process_hash_fate [OF False refl, of env addr ours limit legs]
    by (auto split: fate.splits option.splits dest!: has_add_emitted)
qed (simp add: process_hash_has)

text \<open>What a visit of one hash adds to the log of handled hashes and to the announcements.\<close>

definition hash_result ::
  "('f, 's) tick_env \<Rightarrow> address \<Rightarrow> (string, pending_tx) gomap \<Rightarrow> duration \<Rightarrow> (string, time) gomap \<Rightarrow> string \<Rightarrow> asset_transfer list \<Rightarrow>
   string list \<Rightarrow> transaction_data list \<Rightarrow> time option \<Rightarrow> bool" where
  "hash_result env addr ours limit deferred hash legs new tds later \<longleftrightarrow>
     (case fate_of env addr ours limit deferred hash legs of
        Poison \<Rightarrow> hash \<in> set new \<and> hash \<notin> td_TxHash ` set tds \<and> later = None
      | Held \<Rightarrow> hash \<notin> set new \<and> hash \<notin> td_TxHash ` set tds
          \<and> later = Some (the_default (tk_seen env hash) (map_of deferred hash))
      | Announced \<Rightarrow> hash \<in> set new \<and> hash \<in> td_TxHash ` set tds \<and> later = None)"

lemma process_hash_result:
  assumes "handled.holds (ts_emitted st) H" "process_hash env addr ours limit hash legs st = st'"
  shows "\<exists>new tds. handled.holds (ts_emitted st') (H @ new) \<and> set new \<subseteq> {hash} \<and> length new \<le> 1
    \<and> ts_hub st' = fold (deliver_td env) tds (ts_hub st) \<and> subseq (map td_TxHash tds) new
    \<and> (\<forall>td \<in> set tds. built_from env addr ours hash legs td \<and> fate_of env addr ours limit (ts_deferred st) hash legs = Announced)
    \<and> (\<not> has (ts_emitted st) hash \<longrightarrow>
        hash_result env addr ours limit (ts_deferred st) hash legs new tds (map_of (ts_deferred st') hash))"
proof (cases "has (ts_emitted st) hash")
  case True
  then show ?thesis using assms by (intro exI [of _ "[]"]) (simp add: process_hash_has)
next
  case False
  note f = process_hash_fate [OF False assms(2)]
  note add = handled.holds_add [OF assms(1) False]
  show ?thesis
  proof (cases "fate_of env addr ours limit (ts_deferred st) hash legs")
    case Poison
    with f add show ?thesis
      by (intro exI [of _ "[hash]"] exI [of _ "[]"]) (simp add: hash_result_def gomap_simps)
  next
    case Held
    with f assms(1) show ?thesis
      by (intro exI [of _ "[]"]) (auto simp: hash_result_def gomap_simps split: option.splits)
  next
    case Announced
    with f obtain td where td: "built_from env addr ours hash legs td" "ts_hub st' = deliver_td env td (ts_hub st)"
      "ts_emitted st' = add_emitted hash (ts_emitted st)" "ts_deferred st' = AList.delete hash (ts_deferred st)" by auto
    with Announced add show ?thesis
      by (intro exI [of _ "[hash]"] exI [of _ "[td]"]) (simp add: hash_result_def gomap_simps built_from_hash [OF td(1)])
  qed
qed

lemma process_groups_result:
  assumes "distinct (map fst groups)" "handled.holds (ts_emitted st) H"
    and "process_groups env addr ours limit groups st = st'"
  shows "\<exists>new tds. handled.holds (ts_emitted st') (H @ new) \<and> set new \<subseteq> fst ` set groups \<and> distinct new
    \<and> ts_hub st' = fold (deliver_td env) tds (ts_hub st) \<and> subseq (map td_TxHash tds) new
    \<and> (\<forall>td \<in> set tds. \<exists>legs. (td_TxHash td, legs) \<in> set groups \<and> built_from env addr ours (td_TxHash td) legs td
        \<and> fate_of env addr ours limit (ts_deferred st) (td_TxHash td) legs = Announced)
    \<and> (\<forall>(h, legs) \<in> set groups. \<not> has (ts_emitted st) h \<longrightarrow>
        hash_result env addr ours limit (ts_deferred st) h legs new tds (map_of (ts_deferred st') h))
    \<and> (\<forall>h. h \<notin> fst ` set groups \<longrightarrow> map_of (ts_deferred st') h = map_of (ts_deferred st) h)"
  using assms
proof (induction groups arbitrary: st H)
  case (Cons g groups)
  obtain hash legs where g: "g = (hash, legs)" by force
  define st1 where "st1 = process_hash env addr ours limit hash legs st"
  obtain n1 t1 where 1: "handled.holds (ts_emitted st1) (H @ n1)" "set n1 \<subseteq> {hash}" "length n1 \<le> 1"
    "ts_hub st1 = fold (deliver_td env) t1 (ts_hub st)" "subseq (map td_TxHash t1) n1"
    "\<forall>td \<in> set t1. built_from env addr ours hash legs td \<and> fate_of env addr ours limit (ts_deferred st) hash legs = Announced"
    "\<not> has (ts_emitted st) hash \<longrightarrow> hash_result env addr ours limit (ts_deferred st) hash legs n1 t1 (map_of (ts_deferred st1) hash)"
    using process_hash_result [OF Cons.prems(2) st1_def [symmetric]] by blast
  have d: "distinct (map fst groups)" "hash \<notin> fst ` set groups" using Cons.prems(1) by (auto simp: g)
  have run: "process_groups env addr ours limit groups st1 = st'" using Cons.prems(3) by (simp add: g st1_def)
  obtain n2 t2 where 2: "handled.holds (ts_emitted st') ((H @ n1) @ n2)" "set n2 \<subseteq> fst ` set groups" "distinct n2"
    "ts_hub st' = fold (deliver_td env) t2 (ts_hub st1)" "subseq (map td_TxHash t2) n2"
    "\<forall>td \<in> set t2. \<exists>legs. (td_TxHash td, legs) \<in> set groups \<and> built_from env addr ours (td_TxHash td) legs td
        \<and> fate_of env addr ours limit (ts_deferred st1) (td_TxHash td) legs = Announced"
    "\<forall>(h, legs) \<in> set groups. \<not> has (ts_emitted st1) h \<longrightarrow>
        hash_result env addr ours limit (ts_deferred st1) h legs n2 t2 (map_of (ts_deferred st') h)"
    "\<forall>h. h \<notin> fst ` set groups \<longrightarrow> map_of (ts_deferred st') h = map_of (ts_deferred st1) h"
    using Cons.IH [OF d(1) 1(1) run] by blast
  have def1: "map_of (ts_deferred st1) h = map_of (ts_deferred st) h" if "h \<noteq> hash" for h
    using process_hash_deferred_other [OF that] by (simp add: st1_def)
  have fate1: "fate_of env addr ours limit (ts_deferred st1) h l = fate_of env addr ours limit (ts_deferred st) h l"
    if "(h, l) \<in> set groups" for h l
    by (rule fate_of_cong, rule def1) (use that d(2) in force)
  have t1h: "td_TxHash ` set t1 \<subseteq> {hash}" using 1(6) built_from_hash by fast
  have t2h: "td_TxHash ` set t2 \<subseteq> fst ` set groups" using 2(6) by force
  have res: "hash_result env addr ours limit (ts_deferred st) h l (n1 @ n2) (t1 @ t2) (map_of (ts_deferred st') h)"
    if "(h, l) \<in> set (g # groups)" "\<not> has (ts_emitted st) h" for h l
  proof (cases "h = hash")
    case True
    then have l: "l = legs" using that(1) d(2) by (force simp: g)
    have "map_of (ts_deferred st') hash = map_of (ts_deferred st1) hash" using 2(8) d(2) by blast
    moreover have "hash \<notin> set n2" "hash \<notin> td_TxHash ` set t2" using 2(2) t2h d(2) by blast+
    ultimately show ?thesis using 1(7) that(2) unfolding True l hash_result_def
      by (auto split: fate.splits)
  next
    case False
    then have in_g: "(h, l) \<in> set groups" using that(1) by (simp add: g)
    have "\<not> has (ts_emitted st1) h"
      using process_hash_has_mono [of env addr ours limit hash legs st h] that(2) False by (auto simp: st1_def)
    with 2(7) in_g have "hash_result env addr ours limit (ts_deferred st1) h l n2 t2 (map_of (ts_deferred st') h)" by auto
    moreover have "h \<notin> set n1" "h \<notin> td_TxHash ` set t1" using 1(2) t1h False by blast+
    ultimately show ?thesis unfolding hash_result_def fate1 [OF in_g] def1 [OF False] by (auto split: fate.splits)
  qed
  have "distinct n1" using 1(3) by (cases n1) auto
  then have dn: "distinct (n1 @ n2)" using 2(2,3) 1(2) d(2) by auto
  have sub: "subseq (map td_TxHash (t1 @ t2)) (n1 @ n2)" using 1(5) 2(5) by (simp add: list_emb_append_mono)
  have tds: "\<forall>td \<in> set (t1 @ t2). \<exists>l. (td_TxHash td, l) \<in> set (g # groups) \<and> built_from env addr ours (td_TxHash td) l td
        \<and> fate_of env addr ours limit (ts_deferred st) (td_TxHash td) l = Announced"
  proof
    fix td
    assume "td \<in> set (t1 @ t2)"
    then consider "td \<in> set t1" | "td \<in> set t2" by auto
    then show "\<exists>l. (td_TxHash td, l) \<in> set (g # groups) \<and> built_from env addr ours (td_TxHash td) l td
        \<and> fate_of env addr ours limit (ts_deferred st) (td_TxHash td) l = Announced"
    proof cases
      case 1
      then show ?thesis using \<open>\<forall>td \<in> set t1. _ td\<close> built_from_hash by (intro exI [of _ legs]) (fastforce simp: g)
    next
      case 2
      then show ?thesis using \<open>\<forall>td \<in> set t2. _ td\<close> fate1 by (metis list.set_intros(2))
    qed
  qed
  show ?case
    by (intro exI [of _ "n1 @ n2"] exI [of _ "t1 @ t2"] conjI)
      (use 1 2 dn sub tds res def1 in \<open>auto simp: g\<close>)
qed (auto intro!: exI [of _ "[]"])

text \<open>The set of handled hashes against the log of all of them.\<close>

definition handled_log :: "emitted_set \<Rightarrow> string list \<Rightarrow> bool" where
  "handled_log e H \<longleftrightarrow> emitted_log emittedCap e H \<and> spaced emittedCap H"

lemma handled_log_holds: "handled.holds = handled_log"
  by (intro ext) (simp add: handled.holds_def handled_log_def)

lemma mset_eq_keys: "mset xs = mset ys \<Longrightarrow> distinct (map fst xs) \<longleftrightarrow> distinct (map fst ys)"
  by (metis mset_map mset_eq_imp_distinct_iff)

lemma processTick_result:
  assumes "handled_log (ts_emitted st) H" "\<And>g. mset (order g) = mset g"
    and "processTick env order pend addr transfers limit st = st'"
  defines "ours \<equiv> indexPendingByHash pend"
  shows "\<exists>new tds. handled_log (ts_emitted st') (H @ new) \<and> distinct new \<and> set new \<subseteq> fst ` set (groupByHash transfers)
    \<and> ts_hub st' = fold (deliver_td env) tds (ts_hub st) \<and> subseq (map td_TxHash tds) new
    \<and> (\<forall>td \<in> set tds. legs_of transfers (td_TxHash td) \<noteq> []
        \<and> built_from env addr ours (td_TxHash td) (legs_of transfers (td_TxHash td)) td
        \<and> fate_of env addr ours limit (ts_deferred st) (td_TxHash td) (legs_of transfers (td_TxHash td)) = Announced)
    \<and> (\<forall>h. legs_of transfers h \<noteq> [] \<and> \<not> has (ts_emitted st) h \<longrightarrow>
        hash_result env addr ours limit (ts_deferred st) h (legs_of transfers h) new tds (map_of (ts_deferred st') h))"
proof -
  let ?g = "order (groupByHash transfers)"
  have d: "distinct (map fst ?g)" using mset_eq_keys [of ?g "groupByHash transfers"] assms(2) distinct_groupByHash by blast
  have s: "set ?g = set (groupByHash transfers)" using assms(2) by (rule mset_eq_setD)
  have run: "process_groups env addr ours limit ?g st = st'"
    using assms(3) by (simp add: processTick_def ours_def)
  from process_groups_result [OF d assms(1) [folded handled_log_holds] run]
  obtain new tds where r: "handled_log (ts_emitted st') (H @ new)" "distinct new"
      "ts_hub st' = fold (deliver_td env) tds (ts_hub st)" "subseq (map td_TxHash tds) new"
      "\<forall>td \<in> set tds. \<exists>legs. (td_TxHash td, legs) \<in> set ?g \<and> built_from env addr ours (td_TxHash td) legs td
        \<and> fate_of env addr ours limit (ts_deferred st) (td_TxHash td) legs = Announced"
      "\<forall>(h, legs) \<in> set ?g. \<not> has (ts_emitted st) h \<longrightarrow>
        hash_result env addr ours limit (ts_deferred st) h legs new tds (map_of (ts_deferred st') h)"
      "set new \<subseteq> fst ` set ?g"
    unfolding handled_log_holds by blast
  have 5: "\<forall>td \<in> set tds. legs_of transfers (td_TxHash td) \<noteq> []
        \<and> built_from env addr ours (td_TxHash td) (legs_of transfers (td_TxHash td)) td
        \<and> fate_of env addr ours limit (ts_deferred st) (td_TxHash td) (legs_of transfers (td_TxHash td)) = Announced"
    using r(5) by (metis s set_groupByHash)
  have 6: "hash_result env addr ours limit (ts_deferred st) h (legs_of transfers h) new tds (map_of (ts_deferred st') h)"
    if "legs_of transfers h \<noteq> []" "\<not> has (ts_emitted st) h" for h
    using bspec [OF r(6), of "(h, legs_of transfers h)"] that by (simp add: s set_groupByHash)
  show ?thesis using r(1-4,7) 5 6 unfolding s by (intro exI [of _ new] exI [of _ tds] conjI) blast+
qed

section \<open>Laws of the polling loop\<close>

lemma watchTransactions_snoc:
  "watchTransactions addr (is @ [i]) st = watch_tick addr i (watchTransactions addr is st)"
  by (induction "is" arbitrary: st) auto

lemma watch_tick_cases:
  obtains (idle) "watch_tick addr i st = st"
    | (first) cur where "\<not> ws_initialized st" "ti_block i = Inr cur" "watch_tick addr i st = st\<lparr>ws_lastBlock := cur, ws_initialized := True\<rparr>"
    | (polled) f cur transfers tick where "ws_initialized st" "tick_window (ti_block i) st = Some (f, cur)" "ws_lastBlock st < cur"
        "fetched addr i st = Some (Inr transfers)"
        "fetchTransfers (ti_get i) addr (FormatHex f) (FormatHex cur) categories fetchPageSize = Inr transfers"
        "tick = processTick (ti_env i) (ti_order i) (ti_pending i) addr transfers maxDeferral (ws_tick st)"
        "watch_tick addr i st = st\<lparr>ws_tick := tick\<lparr>ts_deferred := gc_deferred (ti_gc i) maxDeferral (ts_deferred tick)\<rparr>, ws_lastBlock := cur\<rparr>"
proof (cases "ti_block i")
  case (Inl e)
  then show ?thesis using idle by (simp add: watch_tick_def)
next
  case (Inr cur)
  show ?thesis
  proof (cases "ws_initialized st")
    case False
    then show ?thesis using first Inr by (simp add: watch_tick_def)
  next
    case init: True
    show ?thesis
    proof (cases "tick_window (ti_block i) st")
      case None
      then show ?thesis using idle Inr init by (simp add: watch_tick_def fetched_def)
    next
      case (Some w)
      then obtain f where w: "w = (f, cur)" "ws_lastBlock st < cur"
        using Inr init by (auto simp: tick_window_def not_le split: if_splits)
      show ?thesis
      proof (cases "fetchTransfers (ti_get i) addr (FormatHex f) (FormatHex cur) categories fetchPageSize")
        case (Inl e)
        then show ?thesis using idle Inr init Some w by (simp add: watch_tick_def fetched_def)
      next
        case (Inr transfers)
        then show ?thesis using polled [OF init Some [unfolded w] w(2)] \<open>ti_block i = Inr cur\<close> init Some w
          by (simp add: watch_tick_def fetched_def Let_def)
      qed
    qed
  qed
qed

text \<open>The start of a window against the cursor.\<close>

lemma tick_window_bounds:
  assumes "tick_window block st = Some (f, cur)"
  shows "ws_initialized st" "ws_lastBlock st < cur" "1 \<le> unat f"
    "unat f \<le> unat (ws_lastBlock st) + 1" "unat (ws_lastBlock st) \<le> unat f + 2"
proof -
  let ?l = "ws_lastBlock st"
  have f: "f = (if ?l > lookbackBlocks then ?l - lookbackBlocks + 1 else 1)"
    and rest: "ws_initialized st" "?l < cur"
    using assms by (auto simp: tick_window_def split: sum.splits if_splits)
  show "ws_initialized st" "?l < cur" using rest .
  have "unat f = (if unat ?l > 3 then unat ?l - 2 else 1)"
  proof (cases "?l > lookbackBlocks")
    case True
    then have l: "3 < unat ?l" by (simp add: lookbackBlocks_def word_less_nat_alt)
    have "f = ?l - 2" using f True by (simp add: lookbackBlocks_def)
    moreover have "unat (?l - 2) = unat ?l - 2" using l by (subst unat_sub) (simp_all add: word_le_nat_alt)
    ultimately show ?thesis using l by simp
  next
    case False
    then have "\<not> 3 < unat ?l" by (simp add: lookbackBlocks_def word_less_nat_alt)
    then show ?thesis using f False by simp
  qed
  then show "1 \<le> unat f" "unat f \<le> unat ?l + 1" "unat ?l \<le> unat f + 2" by (auto split: if_splits)
qed

lemma watch_tick_cursor:
  assumes "ws_initialized st"
  shows "ws_initialized (watch_tick addr i st) \<and> ws_lastBlock st \<le> ws_lastBlock (watch_tick addr i st)"
  by (cases i st rule: watch_tick_cases [of addr]) (use assms in auto)

lemma watchTransactions_cursor:
  "ws_initialized st \<Longrightarrow> ws_initialized (watchTransactions addr is st) \<and> ws_lastBlock st \<le> ws_lastBlock (watchTransactions addr is st)"
proof (induction "is" arbitrary: st)
  case (Cons i "is")
  with watch_tick_cursor [OF Cons.prems, of addr i] show ?case by (auto intro: order_trans)
qed simp

text \<open>The state in which the k-th tick of a run starts, and whether that tick scans a block.\<close>

definition before_tick :: "address \<Rightarrow> ('f, 's) tick_input list \<Rightarrow> ('f, 's) watch_state \<Rightarrow> nat \<Rightarrow> ('f, 's) watch_state" where
  "before_tick addr inputs st k = watchTransactions addr (take k inputs) st"

definition scans :: "address \<Rightarrow> ('f, 's) tick_input list \<Rightarrow> ('f, 's) watch_state \<Rightarrow> u64 \<Rightarrow> nat \<Rightarrow> bool" where
  "scans addr inputs st b k \<longleftrightarrow> k < length inputs \<and>
     (\<exists>f cur ts. tick_window (ti_block (inputs ! k)) (before_tick addr inputs st k) = Some (f, cur) \<and> f \<le> b \<and> b \<le> cur
       \<and> fetched addr (inputs ! k) (before_tick addr inputs st k) = Some (Inr ts))"

lemma scans_append: "scans addr inputs st b k \<Longrightarrow> scans addr (inputs @ rest) st b k"
  by (auto simp: scans_def before_tick_def nth_append)

lemma every_block_scanned:
  assumes "ws_initialized st" "ws_lastBlock st < b" "b \<le> ws_lastBlock (watchTransactions addr inputs st)"
  shows "\<exists>k. scans addr inputs st b k"
  using assms
proof (induction inputs rule: rev_induct)
  case (snoc i inputs)
  define s0 where "s0 = watchTransactions addr inputs st"
  have init: "ws_initialized s0" using watchTransactions_cursor [OF snoc.prems(1)] by (simp add: s0_def)
  have last': "b \<le> ws_lastBlock (watch_tick addr i s0)" using snoc.prems(3) by (simp add: watchTransactions_snoc s0_def)
  show ?case
  proof (cases "b \<le> ws_lastBlock s0")
    case True
    then have "\<exists>k. scans addr inputs st b k" using snoc.IH snoc.prems by (simp add: s0_def)
    then show ?thesis using scans_append by blast
  next
    case False
    show ?thesis
    proof (cases i s0 rule: watch_tick_cases [of addr])
      case idle
      then show ?thesis using last' False by simp
    next
      case first
      then show ?thesis using init by simp
    next
      case (polled f cur transfers tick)
      have "unat f \<le> unat b" using tick_window_bounds(4) [OF polled(2)] False by (simp add: word_le_nat_alt)
      then have "f \<le> b" by (simp add: word_le_nat_alt)
      moreover have "b \<le> cur" using last' polled(7) by simp
      ultimately have "scans addr (inputs @ [i]) st b (length inputs)"
        using polled(2,4) by (auto simp: scans_def before_tick_def nth_append s0_def)
      then show ?thesis by blast
    qed
  qed
qed simp

lemma window_not_before:
  assumes "ws_initialized st" "k \<le> length inputs"
    and "tick_window block (before_tick addr inputs st k) = Some (f, cur)"
  shows "unat (ws_lastBlock st) \<le> unat f + 2"
proof -
  have "ws_lastBlock st \<le> ws_lastBlock (before_tick addr inputs st k)"
    using watchTransactions_cursor [OF assms(1)] by (simp add: before_tick_def)
  with tick_window_bounds(5) [OF assms(3)] show ?thesis by (simp add: word_le_nat_alt)
qed

section \<open>The history of a run\<close>

text \<open>
  What the k-th tick of a run sees and sends, read off the run itself: the hashes of the
  transfers it fetched in the state it started in, and the events it may build from them.
\<close>

definition seen_at :: "address \<Rightarrow> ('f, 's) tick_input list \<Rightarrow> ('f, 's) watch_state \<Rightarrow> nat \<Rightarrow> string set" where
  "seen_at addr inputs st k =
     (case fetched addr (inputs ! k) (before_tick addr inputs st k) of
        Some (Inr transfers) \<Rightarrow> fst ` set (groupByHash transfers)
      | _ \<Rightarrow> {})"

definition genuine :: "address \<Rightarrow> ('f, 's) tick_input list \<Rightarrow> ('f, 's) watch_state \<Rightarrow> nat \<Rightarrow> transaction_data \<Rightarrow> bool" where
  "genuine addr inputs st k td \<longleftrightarrow>
     (\<exists>transfers. let i = inputs ! k; before = before_tick addr inputs st k; ours = indexPendingByHash (ti_pending i);
        legs = legs_of transfers (td_TxHash td)
      in fetched addr i before = Some (Inr transfers) \<and> legs \<noteq> []
       \<and> built_from (ti_env i) addr ours (td_TxHash td) legs td
       \<and> \<not> is_poison (ti_env i) ours (td_TxHash td) legs
       \<and> fate_of (ti_env i) addr ours maxDeferral (ts_deferred (ws_tick before)) (td_TxHash td) legs = Announced)"

text \<open>The events of all ticks, each with the environment of its tick, and one entry of the history.\<close>

definition announcements :: "('f, 's) tick_input list \<Rightarrow> transaction_data list list \<Rightarrow> (('f, 's) tick_env \<times> transaction_data) list" where
  "announcements inputs annss = concat (map2 (\<lambda>i. map (Pair (ti_env i))) inputs annss)"

definition tick_log ::
  "address \<Rightarrow> ('f, 's) tick_input list \<Rightarrow> ('f, 's) watch_state \<Rightarrow> nat \<Rightarrow> string list \<Rightarrow> transaction_data list \<Rightarrow> bool" where
  "tick_log addr inputs st k new tds \<longleftrightarrow> distinct new \<and> set new \<subseteq> seen_at addr inputs st k
     \<and> subseq (map td_TxHash tds) new \<and> (\<forall>td \<in> set tds. genuine addr inputs st k td)"

lemma before_tick_snoc [simp]: "k \<le> length inputs \<Longrightarrow> before_tick addr (inputs @ rest) st k = before_tick addr inputs st k"
  by (simp add: before_tick_def)

lemma before_tick_all [simp]: "before_tick addr inputs st (length inputs) = watchTransactions addr inputs st"
  by (simp add: before_tick_def)

lemma tick_log_snoc:
  "k < length inputs \<Longrightarrow> tick_log addr (inputs @ rest) st k new tds \<longleftrightarrow> tick_log addr inputs st k new tds"
  by (simp add: tick_log_def seen_at_def genuine_def nth_append)

lemma finite_seen_at: "finite (\<Union>k < n. seen_at addr inputs st k)"
  by (auto simp: seen_at_def split: option.splits sum.splits)

lemma announcements_snoc:
  "length annss = length inputs \<Longrightarrow>
    announcements (inputs @ [i]) (annss @ [tds]) = announcements inputs annss @ map (Pair (ti_env i)) tds"
  by (simp add: announcements_def)

lemma subseq_concat: "list_all2 subseq xss yss \<Longrightarrow> subseq (concat xss) (concat yss)"
  by (induction rule: list_all2_induct) (auto intro: list_emb_append_mono)

lemma announcements_subseq:
  assumes "length annss = length inputs" "length newss = length inputs"
    and "\<forall>k < length inputs. subseq (map td_TxHash (annss ! k)) (newss ! k)"
  shows "subseq (map (td_TxHash \<circ> snd) (announcements inputs annss)) (concat newss)"
proof -
  have "map (td_TxHash \<circ> snd) (announcements inputs annss) = concat (map (map td_TxHash) annss)"
    using assms(1) unfolding announcements_def
    by (induction inputs annss rule: list_induct2') (auto simp: o_def)
  moreover have "list_all2 subseq (map (map td_TxHash) annss) newss"
    using assms by (simp add: list_all2_conv_all_nth)
  ultimately show ?thesis using subseq_concat by metis
qed

lemma one_tick_log:
  assumes "\<And>g. mset (ti_order i g) = mset g" "st = watchTransactions addr inputs start"
    and "handled_log (ts_emitted (ws_tick st)) H"
  shows "\<exists>new tds. handled_log (ts_emitted (ws_tick (watch_tick addr i st))) (H @ new)
    \<and> ts_hub (ws_tick (watch_tick addr i st)) = fold (deliver_td (ti_env i)) tds (ts_hub (ws_tick st))
    \<and> tick_log addr (inputs @ [i]) start (length inputs) new tds"
proof (cases i st rule: watch_tick_cases [of addr])
  case idle
  then show ?thesis using assms(3) by (intro exI [of _ "[]"]) (simp add: tick_log_def)
next
  case first
  then show ?thesis using assms(3) by (intro exI [of _ "[]"]) (simp add: tick_log_def)
next
  case (polled f cur transfers tick)
  have f: "fetched addr ((inputs @ [i]) ! length inputs) (before_tick addr (inputs @ [i]) start (length inputs)) = Some (Inr transfers)"
    using polled(4) assms(2) by simp
  from processTick_result [OF assms(3,1) polled(6) [symmetric]]
  obtain new tds where r: "handled_log (ts_emitted tick) (H @ new)" "distinct new" "set new \<subseteq> fst ` set (groupByHash transfers)"
      "ts_hub tick = fold (deliver_td (ti_env i)) tds (ts_hub (ws_tick st))" "subseq (map td_TxHash tds) new"
      "\<forall>td \<in> set tds. legs_of transfers (td_TxHash td) \<noteq> []
        \<and> built_from (ti_env i) addr (indexPendingByHash (ti_pending i)) (td_TxHash td) (legs_of transfers (td_TxHash td)) td
        \<and> fate_of (ti_env i) addr (indexPendingByHash (ti_pending i)) maxDeferral (ts_deferred (ws_tick st)) (td_TxHash td)
            (legs_of transfers (td_TxHash td)) = Announced" by blast
  have "genuine addr (inputs @ [i]) start (length inputs) td" if "td \<in> set tds" for td
  proof -
    have td: "fate_of (ti_env i) addr (indexPendingByHash (ti_pending i)) maxDeferral (ts_deferred (ws_tick st)) (td_TxHash td)
            (legs_of transfers (td_TxHash td)) = Announced" using r(6) that by blast
    then have "\<not> is_poison (ti_env i) (indexPendingByHash (ti_pending i)) (td_TxHash td) (legs_of transfers (td_TxHash td))"
      by (auto simp: fate_of_def split: if_splits)
    with td r(6) that assms(2) polled(4) show ?thesis unfolding genuine_def Let_def by (intro exI [of _ transfers]) simp
  qed
  then have "tick_log addr (inputs @ [i]) start (length inputs) new tds"
    using r(2,3,5) f by (simp add: tick_log_def seen_at_def)
  then show ?thesis using r(1,4) polled(7) by (intro exI [of _ new] exI [of _ tds]) simp
qed

lemma watchTransactions_log:
  assumes "\<forall>i \<in> set inputs. \<forall>g. mset (ti_order i g) = mset g" "start = start_watch cache h"
  shows "\<exists>newss annss. length newss = length inputs \<and> length annss = length inputs
    \<and> handled_log (ts_emitted (ws_tick (watchTransactions addr inputs start))) (concat newss)
    \<and> ts_hub (ws_tick (watchTransactions addr inputs start)) = fold (\<lambda>(env, td). deliver_td env td) (announcements inputs annss) h
    \<and> (\<forall>k < length inputs. tick_log addr inputs start k (newss ! k) (annss ! k))"
  using assms(1)
proof (induction inputs rule: rev_induct)
  case Nil
  then show ?case using handled.holds_empty
    by (simp add: assms(2) start_watch_def handled_log_holds announcements_def)
next
  case (snoc i inputs)
  define st where "st = watchTransactions addr inputs start"
  obtain newss annss where IH: "length newss = length inputs" "length annss = length inputs"
      "handled_log (ts_emitted (ws_tick st)) (concat newss)"
      "ts_hub (ws_tick st) = fold (\<lambda>(env, td). deliver_td env td) (announcements inputs annss) h"
      "\<forall>k < length inputs. tick_log addr inputs start k (newss ! k) (annss ! k)"
    using snoc unfolding st_def by auto
  have ord: "\<And>g. mset (ti_order i g) = mset g" using snoc.prems by simp
  obtain new tds where r: "handled_log (ts_emitted (ws_tick (watch_tick addr i st))) (concat newss @ new)"
      "ts_hub (ws_tick (watch_tick addr i st)) = fold (deliver_td (ti_env i)) tds (ts_hub (ws_tick st))"
      "tick_log addr (inputs @ [i]) start (length inputs) new tds"
    using one_tick_log [OF ord st_def IH(3)] by blast
  have "tick_log addr (inputs @ [i]) start k ((newss @ [new]) ! k) ((annss @ [tds]) ! k)" if "k < length (inputs @ [i])" for k
    using that IH(1,2,5) r(3) by (cases "k = length inputs") (auto simp: nth_append tick_log_snoc)
  moreover have "fold (\<lambda>(env, td). deliver_td env td) (map (Pair (ti_env i)) tds) x = fold (deliver_td (ti_env i)) tds x" for x
    by (simp add: fold_map o_def)
  ultimately show ?case using IH(1,2,4) r(1,2)
    by (intro exI [of _ "newss @ [new]"] exI [of _ "annss @ [tds]"])
      (simp add: watchTransactions_snoc announcements_snoc flip: st_def)
qed

text \<open>Two occurrences in a spaced history have that many other hashes between them.\<close>

lemma spaced_between:
  assumes "spaced n (P @ x # Q @ x # R)"
  shows "n \<le> card (set Q - {x})"
proof -
  let ?H = "P @ x # Q @ x # R" and ?p = "length P"
  have sp: "i + n < j" if "i < j" "j < length ?H" "?H ! i = ?H ! j" for i j
    using assms that unfolding spaced_def by blast
  have "n \<le> length Q" using sp [of ?p "?p + 1 + length Q"] by (simp add: nth_append)
  moreover have q: "?H ! (?p + 1 + m) = Q ! m" if "m < length Q" for m using that by (simp add: nth_append)
  moreover have "x \<notin> set (take n Q)"
  proof
    assume "x \<in> set (take n Q)"
    then obtain m where m: "m < n" "m < length Q" "Q ! m = x" by (auto simp: in_set_conv_nth)
    with q [of m] sp [of ?p "?p + 1 + m"] show False by (simp add: nth_append)
  qed
  moreover have "distinct (take n Q)"
  proof (rule ccontr)
    assume "\<not> distinct (take n Q)"
    then obtain a b where ab: "a < b" "b < n" "b < length Q" "Q ! a = Q ! b"
      by (auto simp: distinct_conv_nth) (metis linorder_neqE_nat)
    with q [of a] q [of b] sp [of "?p + 1 + a" "?p + 1 + b"] show False by simp
  qed
  ultimately have "n = card (set (take n Q))" "set (take n Q) \<subseteq> set Q - {x}"
    using set_take_subset [of n Q] by (auto simp: distinct_card)
  then show ?thesis using card_mono [of "set Q - {x}" "set (take n Q)"] by simp
qed

lemma spaced_distinct:
  assumes "spaced n H" "card (set H) \<le> n"
  shows "distinct H"
proof (rule ccontr)
  assume "\<not> distinct H"
  then obtain P x Q R where H: "H = P @ [x] @ Q @ [x] @ R" using not_distinct_decomp by blast
  then have "n \<le> card (set Q - {x})" using spaced_between [of n P x Q R] assms(1) by simp
  moreover have "card (insert x (set Q - {x})) \<le> card (set H)" by (rule card_mono) (auto simp: H)
  moreover have "card (insert x (set Q - {x})) = Suc (card (set Q - {x}))" by (rule card_insert_disjoint) auto
  ultimately show False using assms(2) by linarith
qed

lemma spaced_concat:
  assumes "spaced n (concat hss)" "a < b" "b < length hss" "x \<in> set (hss ! a)" "x \<in> set (hss ! b)"
  shows "n \<le> card ((\<Union>k \<in> {a..b}. set (hss ! k)) - {x})"
proof -
  obtain p q where A: "hss ! a = p @ x # q" using assms(4) by (auto dest: split_list)
  obtain r s where B: "hss ! b = r @ x # s" using assms(5) by (auto dest: split_list)
  let ?mid = "take (b - Suc a) (drop (Suc a) hss)"
  have "drop (Suc a) hss = ?mid @ drop b hss" using append_take_drop_id [of "b - Suc a" "drop (Suc a) hss"] assms(2) by simp
  then have "hss = take a hss @ hss ! a # ?mid @ hss ! b # drop (Suc b) hss"
    using assms(2,3) by (metis Cons_nth_drop_Suc append_take_drop_id less_trans)
  then have "concat hss = concat (take a hss @ hss ! a # ?mid @ hss ! b # drop (Suc b) hss)" by (rule arg_cong)
  then have "concat hss = (concat (take a hss) @ p) @ x # (q @ concat ?mid @ r) @ x # s @ concat (drop (Suc b) hss)"
    by (simp add: A B)
  with assms(1) have "n \<le> card (set (q @ concat ?mid @ r) - {x})" using spaced_between by metis
  also have "\<dots> \<le> card ((\<Union>k \<in> {a..b}. set (hss ! k)) - {x})"
  proof (rule card_mono)
    have m: "\<exists>k \<in> {a..b}. y \<in> set (hss ! k)" if "y \<in> set (concat ?mid)" for y
    proof -
      from that obtain zs where "zs \<in> set ?mid" "y \<in> set zs" by auto
      then obtain m where "m < length ?mid" "y \<in> set (?mid ! m)" by (metis in_set_conv_nth)
      then show ?thesis using assms(2,3) by (intro bexI [of _ "Suc a + m"]) auto
    qed
    have "set q \<subseteq> set (hss ! a)" "set r \<subseteq> set (hss ! b)" by (auto simp: A B)
    then show "set (q @ concat ?mid @ r) - {x} \<subseteq> (\<Union>k \<in> {a..b}. set (hss ! k)) - {x}"
      using m assms(2) by (auto simp del: set_concat) (meson atLeastAtMost_iff less_imp_le order_refl subsetD)+
  qed simp
  finally show ?thesis .
qed

section \<open>Properties\<close>

text \<open>
  C7. Over any run of the transaction watcher, every event it sends is a genuine transaction:
  built from all the transfers that its tick fetched for its hash, never an attempt at address
  poisoning, and not a swap of ours that still waits for its other direction. Subscribers and
  the sink are fed exactly these events, tick by tick and in order. Each of them is entered
  into the hashes the watcher remembers, so a transaction that is sent in two ticks of the run has had
  at least 512 others fetched and handled between, and a run that fetches at most 512
  transactions sends none of them twice.
\<close>

theorem watcher_announces:
  assumes "\<forall>i \<in> set inputs. \<forall>g. mset (ti_order i g) = mset g"
    and "start = start_watch cache h" "st = watchTransactions addr inputs start"
  shows "\<exists>handled annss. length handled = length inputs \<and> length annss = length inputs
    \<and> ts_hub (ws_tick st) = fold (\<lambda>(env, td). deliver_td env td) (announcements inputs annss) h
    \<and> (\<forall>k < length inputs. \<forall>td \<in> set (annss ! k). genuine addr inputs start k td)
    \<and> (\<forall>k < length inputs. subseq (map td_TxHash (annss ! k)) (handled ! k) \<and> distinct (handled ! k)
         \<and> set (handled ! k) \<subseteq> seen_at addr inputs start k)
    \<and> handled_log (ts_emitted (ws_tick st)) (concat handled)
    \<and> (\<forall>a b x. a < b \<and> b < length inputs \<and> x \<in> td_TxHash ` set (annss ! a) \<and> x \<in> td_TxHash ` set (annss ! b) \<longrightarrow>
         512 \<le> card ((\<Union>k \<in> {a..b}. set (handled ! k)) - {x}))
    \<and> (card (\<Union>k < length inputs. seen_at addr inputs start k) \<le> 512 \<longrightarrow>
         distinct (map (td_TxHash \<circ> snd) (announcements inputs annss)))"
proof -
  obtain newss annss where r: "length newss = length inputs" "length annss = length inputs"
      "handled_log (ts_emitted (ws_tick st)) (concat newss)"
      "ts_hub (ws_tick st) = fold (\<lambda>(env, td). deliver_td env td) (announcements inputs annss) h"
      "\<forall>k < length inputs. tick_log addr inputs start k (newss ! k) (annss ! k)"
    using watchTransactions_log [OF assms(1,2)] unfolding assms(3) by blast
  have sp: "spaced 512 (concat newss)" using r(3) by (simp add: handled_log_def emittedCap_def)
  have k: "subseq (map td_TxHash (annss ! k)) (newss ! k)" "distinct (newss ! k)" "set (newss ! k) \<subseteq> seen_at addr inputs start k"
    "\<forall>td \<in> set (annss ! k). genuine addr inputs start k td" if "k < length inputs" for k
    using r(5) that by (simp_all add: tick_log_def)
  have in_log: "x \<in> set (newss ! k)" if "k < length inputs" "x \<in> td_TxHash ` set (annss ! k)" for k x
    using list_emb_set [OF k(1) [OF that(1)], of x] that(2) by auto
  have twice: "512 \<le> card ((\<Union>k \<in> {a..b}. set (newss ! k)) - {x})"
    if "a < b" "b < length inputs" "x \<in> td_TxHash ` set (annss ! a)" "x \<in> td_TxHash ` set (annss ! b)" for a b x
    using that r(1) in_log by (intro spaced_concat [OF sp]) auto
  have once: "distinct (map (td_TxHash \<circ> snd) (announcements inputs annss))"
    if c: "card (\<Union>k < length inputs. seen_at addr inputs start k) \<le> 512"
  proof -
    have "set (concat newss) \<subseteq> (\<Union>k < length inputs. seen_at addr inputs start k)"
    proof
      fix x assume "x \<in> set (concat newss)"
      then obtain hs where "hs \<in> set newss" "x \<in> set hs" by auto
      then obtain m where "m < length inputs" "x \<in> set (newss ! m)" using r(1) by (metis in_set_conv_nth)
      then show "x \<in> (\<Union>k < length inputs. seen_at addr inputs start k)" using k(3) by blast
    qed
    then have "card (set (concat newss)) \<le> 512"
      using c card_mono [OF finite_seen_at [of addr inputs start "length inputs"], of "set (concat newss)"] by linarith
    then have "distinct (concat newss)" by (rule spaced_distinct [OF sp])
    moreover have "subseq (map (td_TxHash \<circ> snd) (announcements inputs annss)) (concat newss)"
      by (rule announcements_subseq [OF r(2,1)]) (simp add: k(1))
    ultimately show ?thesis by (metis in_set_subseqs subseqs_distinctD)
  qed
  show ?thesis using r(1-4) k twice once by (intro exI [of _ newss] exI [of _ annss] conjI) blast+
qed

definition sample_env :: "(int, unit) tick_env" where
  "sample_env = \<lparr>tk_ck = \<lambda>_ _. False, tk_lookup = None, tk_metadata = \<lambda>_. Inl (Sentinel ''x''), tk_fmt2 = \<lambda>_. [],
     tk_marshal = \<lambda>_. Inr [], tk_sink = None, tk_built = \<lambda>_. 5, tk_seen = \<lambda>_. 6\<rparr>"

definition sample_input :: "u64 \<Rightarrow> (int, unit) tick_input" where
  "sample_input n = \<lparr>ti_block = Inr n,
     ti_get = \<lambda>p. Inr \<lparr>pg_Transfers = (if gp_FromAddress p = None then [] else [sample_leg ''a'' 1 2 None]), pg_PageKey = ''''\<rparr>,
     ti_pending = [], ti_env = sample_env, ti_order = \<lambda>g. g, ti_gc = \<lambda>_. 7\<rparr>"

definition sample_hub :: "(int, unit) hub" where
  "sample_hub = \<lparr>hb_sink = (), hb_subscribers = [(0, [])], hb_channels = 1\<rparr>"

definition sample_run :: "(int, unit) tick_input list" where
  "sample_run = [sample_input 5, sample_input 9, sample_input 12]"

lemma watcher_announces_witness:
  "\<exists>annss. ts_hub (ws_tick (watchTransactions 1 sample_run (start_watch [] sample_hub)))
      = fold (\<lambda>(env, td). deliver_td env td) (announcements sample_run annss) sample_hub
    \<and> (\<forall>k < 3. \<forall>td \<in> set (annss ! k). genuine 1 sample_run (start_watch [] sample_hub) k td)
    \<and> distinct (map (td_TxHash \<circ> snd) (announcements sample_run annss))"
proof -
  have seen: "(\<Union>k < length sample_run. seen_at 1 sample_run (start_watch [] sample_hub) k) = {''0xaa''}"
    by code_simp
  have "\<forall>i \<in> set sample_run. \<forall>g. mset (ti_order i g) = mset g"
    by (simp add: sample_run_def sample_input_def)
  from watcher_announces [OF this refl refl, of 1 "[]" sample_hub] show ?thesis
    unfolding seen by (auto simp: sample_run_def)
qed

text \<open>
  C22. One tick decides the fate of every transaction it sees for the first time: a poisoning
  attempt is dropped for good, a swap of ours with one direction missing is held back until
  it has been waiting for the limit, and everything else is announced once, in the same tick,
  and is no longer waiting.
\<close>

theorem tick_fate:
  assumes "handled_log (ts_emitted st) H" "\<And>g. mset (order g) = mset g"
    and "processTick env order pend addr transfers limit st = st'"
  shows "\<exists>new tds. ts_hub st' = fold (deliver_td env) tds (ts_hub st)
    \<and> handled_log (ts_emitted st') (H @ new) \<and> distinct new \<and> subseq (map td_TxHash tds) new
    \<and> (\<forall>h. legs_of transfers h \<noteq> [] \<and> \<not> has (ts_emitted st) h \<longrightarrow>
        hash_result env addr (indexPendingByHash pend) limit (ts_deferred st) h (legs_of transfers h) new tds
          (map_of (ts_deferred st') h))"
  using processTick_result [OF assms] by blast

lemma tick_fate_witness:
  "\<exists>tds. ts_hub (processTick sample_env (\<lambda>g. g) [] 1 [sample_leg ''a'' 1 2 None] maxDeferral (ws_tick (start_watch [] sample_hub)))
      = fold (deliver_td sample_env) tds sample_hub \<and> ''0xaa'' \<in> td_TxHash ` set tds"
proof -
  let ?st = "ws_tick (start_watch [] sample_hub)"
  have l: "handled_log (ts_emitted ?st) []"
    using handled.holds_empty by (simp add: start_watch_def handled_log_holds)
  have h: "legs_of [sample_leg ''a'' 1 2 None] ''0xaa'' = [sample_leg ''a'' 1 2 None]"
    by (simp add: legs_of_def sample_leg_def)
  have f: "fate_of sample_env 1 (indexPendingByHash []) maxDeferral d ''0xaa'' [sample_leg ''a'' 1 2 None] = Announced" for d
    by (simp add: fate_of_def is_poison_def awaits_leg_def sample_env_def indexPendingByHash_def)
  have n: "\<not> has (ts_emitted ?st) ''0xaa''" by (simp add: has_def start_watch_def newEmittedSet_def)
  obtain tds new where t: "ts_hub (processTick sample_env (\<lambda>g. g) [] 1 [sample_leg ''a'' 1 2 None] maxDeferral ?st)
        = fold (deliver_td sample_env) tds (ts_hub ?st)"
      "\<forall>h. legs_of [sample_leg ''a'' 1 2 None] h \<noteq> [] \<and> \<not> has (ts_emitted ?st) h \<longrightarrow>
        (\<exists>x. hash_result sample_env 1 (indexPendingByHash []) maxDeferral (ts_deferred ?st) h
          (legs_of [sample_leg ''a'' 1 2 None] h) new tds x)"
    using tick_fate [OF l refl refl, of sample_env "[]" 1 "[sample_leg ''a'' 1 2 None]" maxDeferral] by blast
  have "legs_of [sample_leg ''a'' 1 2 None] ''0xaa'' \<noteq> [] \<and> \<not> has (ts_emitted ?st) ''0xaa''" using h n by simp
  with t(2) obtain x where "hash_result sample_env 1 (indexPendingByHash []) maxDeferral (ts_deferred ?st) ''0xaa''
      (legs_of [sample_leg ''a'' 1 2 None] ''0xaa'') new tds x" by blast
  then have "''0xaa'' \<in> td_TxHash ` set tds" by (simp add: hash_result_def f h)
  moreover have "ts_hub ?st = sample_hub" by (simp add: start_watch_def)
  ultimately show ?thesis using t(1) by auto
qed

text \<open>
  C28. The windows of the watcher leave no gap: once the first poll has noted the chain head,
  every block up to the cursor has been scanned by a successful query. They never reach back
  further than the three blocks up to the cursor, so what was held back in an older block is
  not seen again.
\<close>

theorem cursor_windows:
  assumes "ws_initialized st"
  shows "(\<forall>b. ws_lastBlock st < b \<and> b \<le> ws_lastBlock (watchTransactions addr inputs st) \<longrightarrow>
      (\<exists>k. scans addr inputs st b k))
    \<and> (\<forall>b k. scans addr inputs st b k \<longrightarrow> unat (ws_lastBlock st) \<le> unat b + 2)"
proof (intro conjI allI impI)
  fix b
  assume "ws_lastBlock st < b \<and> b \<le> ws_lastBlock (watchTransactions addr inputs st)"
  then show "\<exists>k. scans addr inputs st b k" using every_block_scanned [OF assms] by blast
next
  fix b k
  assume "scans addr inputs st b k"
  then obtain f cur where w: "k \<le> length inputs" "f \<le> b"
    "tick_window (ti_block (inputs ! k)) (before_tick addr inputs st k) = Some (f, cur)"
    by (auto simp: scans_def)
  from window_not_before [OF assms w(1,3)] w(2) show "unat (ws_lastBlock st) \<le> unat b + 2"
    by (simp add: word_le_nat_alt)
qed

lemma cursor_windows_witness:
  "let st = (start_watch [] sample_hub)\<lparr>ws_lastBlock := 5, ws_initialized := True\<rparr>;
       inputs = [sample_input 9, sample_input 12]
   in ws_lastBlock (watchTransactions 1 inputs st) = 12 \<and> (\<exists>k. scans 1 inputs st 11 k)"
proof -
  let ?st = "(start_watch [] sample_hub)\<lparr>ws_lastBlock := 5, ws_initialized := True\<rparr>"
  let ?is = "[sample_input 9, sample_input 12]"
  have "ws_lastBlock (watchTransactions 1 ?is ?st) = 12"
    by (simp add: watch_tick_def fetched_def tick_window_def fetchTransfers_def sample_input_def start_watch_def Let_def)
  moreover have "ws_initialized ?st" "ws_lastBlock ?st = 5" by simp_all
  ultimately show ?thesis using cursor_windows [of ?st 1 ?is] by (auto simp: Let_def)
qed

section \<open>Alerts and subscribers\<close>

definition below :: "(decimal \<Rightarrow> 'g::linorder) \<Rightarrow> 'g \<Rightarrow> balance_update \<Rightarrow> bool" where
  "below toFloat threshold u \<longleftrightarrow> toFloat (ToETH (bu_Balance u)) < threshold"

definition low_alert :: "address \<Rightarrow> balance_update \<Rightarrow> 'f wallet_event" where
  "low_alert addr u = \<lparr>we_ID = '''', we_Kind = KindLowBalance, we_GasAlert = None,
     we_LowBalance = Some \<lparr>lb_Address = addr, lb_ETH = bu_Balance u\<rparr>, we_Transaction = None\<rparr>"

lemma low_balance_step_below:
  "low_balance_step toFloat threshold addr (bu_Balance u) latched =
    (below toFloat threshold u, if below toFloat threshold u \<and> \<not> latched then [low_alert addr u] else [])"
  by (auto simp: low_balance_step_def below_def low_alert_def Let_def not_less)

text \<open>The updates that are below the threshold when the one before is not.\<close>

fun falling :: "('u \<Rightarrow> bool) \<Rightarrow> bool \<Rightarrow> 'u list \<Rightarrow> 'u list" where
  "falling low was [] = []"
| "falling low was (u # us) = (if low u \<and> \<not> was then u # falling low (low u) us else falling low (low u) us)"

lemma low_alerts_on_falling:
  "snd (watchBalanceForLowAlert toFloat threshold deliver addr us latched h)
    = fold deliver (map (low_alert addr) (falling (below toFloat threshold) latched us)) h"
  by (induction us arbitrary: latched h) (simp_all add: low_balance_step_below)

lemma emit_buffer:
  "map_of (hb_subscribers (emit e h)) ch =
    map_option (\<lambda>buffer. if length buffer < subscriber_buffer then buffer @ [e] else buffer) (map_of (hb_subscribers h) ch)"
  unfolding emit_def by (simp add: map_of_map)

lemma drop_channel_delete:
  "distinct (map fst subs) \<Longrightarrow> drop_channel ch subs = AList.delete ch subs"
  by (induction subs) (auto simp: AList.delete_id)

text \<open>An event that carries the payload of its kind and no other.\<close>

definition well_typed :: "'f wallet_event \<Rightarrow> bool" where
  "well_typed e \<longleftrightarrow>
     we_Kind e = KindGasAlert \<and> we_GasAlert e \<noteq> None \<and> we_LowBalance e = None \<and> we_Transaction e = None
   \<or> we_Kind e = KindLowBalance \<and> we_GasAlert e = None \<and> we_LowBalance e \<noteq> None \<and> we_Transaction e = None
   \<or> we_Kind e = KindTransaction \<and> we_GasAlert e = None \<and> we_LowBalance e = None \<and> we_Transaction e \<noteq> None"

lemma well_typed_gas: "e \<in> set (snd (gas_step toFloat spike dropPct answer prev)) \<Longrightarrow> well_typed e"
  by (auto simp: gas_step_def gas_alert_event_def well_typed_def Let_def split: sum.splits if_splits)

lemma well_typed_low: "e \<in> set (snd (low_balance_step toFloat threshold addr balance latched)) \<Longrightarrow> well_typed e"
  by (auto simp: low_balance_step_def well_typed_def Let_def split: if_splits)

lemma well_typed_wire:
  assumes "well_typed e"
  shows "\<exists>pb. WalletEventToProto fmt2 e = Some pb
    \<and> (case pb of PbTransaction t \<Rightarrow> pb_TxHash t = txHashOf e \<and> pb_IsOurs t = isOursOf e | _ \<Rightarrow> txHashOf e = [])"
proof -
  have k: "KindGasAlert \<noteq> KindLowBalance" "KindGasAlert \<noteq> KindTransaction" "KindLowBalance \<noteq> KindTransaction"
    by (simp_all add: event_kinds)
  from assms [unfolded well_typed_def] show ?thesis
    by (elim disjE) (auto simp: WalletEventToProto_def transactionEventToProto_def txHashOf_def isOursOf_def k k [symmetric])
qed

text \<open>
  C40. Every event the watcher makes carries the payload of its kind and no other, so it always
  has a wire form: it is never dropped between the watcher and the notification store, and a
  client reads back the hash of a transaction.
\<close>

theorem events_well_typed:
  fixes e :: "'f::{zero,minus,inverse,uminus,ord} wallet_event"
  assumes "e = transaction_event td \<or> e \<in> set (snd (low_balance_step toFloat threshold addr balance latched))
    \<or> e \<in> set (snd (gas_step toGwei spike dropPct answer prev))"
  shows "well_typed e \<and> (\<exists>pb. WalletEventToProto fmt2 e = Some pb
    \<and> (case pb of PbTransaction t \<Rightarrow> pb_TxHash t = txHashOf e \<and> pb_IsOurs t = isOursOf e | _ \<Rightarrow> txHashOf e = ''''))"
proof -
  have "well_typed (transaction_event td)" by (simp add: transaction_event_def well_typed_def)
  with assms have "well_typed e"
    using well_typed_gas [of e toGwei spike dropPct answer prev] well_typed_low [of e toFloat threshold addr balance latched] by blast
  then show ?thesis using well_typed_wire by blast
qed

lemma events_well_typed_witness:
  "\<exists>pb. WalletEventToProto (\<lambda>_::real. []) (hd (snd (low_balance_step (\<lambda>d. coeff d) 5 1 ZeroAmount False))) = Some pb"
proof -
  let ?e = "hd (snd (low_balance_step (\<lambda>d. coeff d) 5 1 ZeroAmount False)) :: real wallet_event"
  have "ToETH ZeroAmount = Dec 0 (- 16)" by code_simp
  then have "?e \<in> set (snd (low_balance_step (\<lambda>d. coeff d) 5 1 ZeroAmount False))"
    by (intro hd_in_set) (simp add: low_balance_step_def)
  from events_well_typed [OF disjI2, OF disjI1, OF this, of "\<lambda>_. []"] show ?thesis by blast
qed

end
