(* ===== verification/Notifications.thy ===== *)
theory Notifications
  imports Repository Strconv
begin

text \<open>
  internal/domain/notification and internal/usecase/notification: the persisted events and
  the preferences. Each statement's failure is an argument; \<open>datetime\<close> is SQLite's
  \<open>datetime('now', modifier)\<close> at the time of the statement (\<open>None\<close> its NULL). Times are
  compared as instants, and rows of the same instant in the order of insertion.
\<close>

section \<open>Tables\<close>

record notification =
  nf_ID :: string
  nf_Kind :: u8
  nf_TxHash :: string
  nf_Payload :: "u8 list"
  nf_IsOurs :: bool
  nf_IsRead :: bool
  nf_CreatedAt :: time

record settings =
  se_PlaySound :: bool
  se_MacOSToasts :: bool
  se_AutoMarkRead :: bool
  se_AutoDeleteDays :: int
  se_MuteSystemAlerts :: bool
  se_UpdatedAt :: time

record notification_row =
  nr_id :: string
  nr_event_kind :: int
  nr_tx_hash :: string
  nr_payload :: "u8 list"
  nr_is_ours :: int
  nr_is_read :: int
  nr_created_at :: time

record settings_row =
  sr_play_sound :: int
  sr_macos_toasts :: int
  sr_auto_mark_read :: int
  sr_auto_delete_days :: int
  sr_mute_system_alerts :: int
  sr_updated_at :: time

type_synonym notifications = "notification_row list"

text \<open>The settings table holds one row, with identifier 1, or none.\<close>

record notification_db =
  nd_rows :: notifications
  nd_settings :: "settings_row option"

definition notification_row :: "notification \<Rightarrow> notification_row" where
  "notification_row n =
     \<lparr>nr_id = nf_ID n, nr_event_kind = uint (nf_Kind n), nr_tx_hash = nf_TxHash n, nr_payload = nf_Payload n,
      nr_is_ours = boolToInt (nf_IsOurs n), nr_is_read = boolToInt (nf_IsRead n), nr_created_at = nf_CreatedAt n\<rparr>"

definition scanNotification :: "notification_row \<Rightarrow> err + notification" where
  "scanNotification r =
     (let kind = nr_event_kind r; kind' = (if kind < 0 \<or> kind > 255 then 0 else kind) in
      Inr \<lparr>nf_ID = nr_id r, nf_Kind = word_of_int kind', nf_TxHash = nr_tx_hash r, nf_Payload = nr_payload r,
           nf_IsOurs = (nr_is_ours r \<noteq> 0), nf_IsRead = (nr_is_read r \<noteq> 0), nf_CreatedAt = nr_created_at r\<rparr>)"

section \<open>Storage\<close>

definition Insert :: "err option \<Rightarrow> notification \<Rightarrow> notifications \<Rightarrow> err option \<times> notifications" where
  "Insert fail n rows =
     (let (err, rows') = (case fail of Some e \<Rightarrow> (Some e, rows)
           | None \<Rightarrow> (case insert_unique nr_id nr_id (notification_row n) rows of
               None \<Rightarrow> (Some (unique_violation ''notifications.id''), rows) | Some rows' \<Rightarrow> (None, rows')))
      in (map_option (wrap CodeInternal ''insert notification'') err, rows'))"

definition newest_first :: "notifications \<Rightarrow> notifications" where
  "newest_first rows = sort_key (\<lambda>r. - nr_created_at r) rows"

text \<open>A negative limit panics when the list is made; no caller has one.\<close>

definition List_notification_rows :: "err option \<Rightarrow> err option \<Rightarrow> nat \<Rightarrow> notifications \<Rightarrow> err + notification list" where
  "List_notification_rows fail iterErr limit rows =
     (case fail of Some e \<Rightarrow> Inl (wrap CodeInternal ''list notifications'' e)
      | None \<Rightarrow> read_rows scanNotification iterErr (sql_limit (int limit) (newest_first rows)))"

definition PruneOlderThan :: "err option \<Rightarrow> int \<Rightarrow> notifications \<Rightarrow> err option \<times> notifications" where
  "PruneOlderThan fail keep rows =
     (case fail of Some e \<Rightarrow> (Some (wrap CodeInternal ''prune notifications'' e), rows)
      | None \<Rightarrow> (None, delete_where (\<lambda>r. nr_id r \<notin> nr_id ` set (sql_limit keep (newest_first rows))) rows))"

definition MarkRead_row :: "err option \<Rightarrow> string \<Rightarrow> notifications \<Rightarrow> err option \<times> notifications" where
  "MarkRead_row fail ident rows =
     (case fail of Some e \<Rightarrow> (Some (wrap CodeInternal ''mark notification read'' e), rows)
      | None \<Rightarrow> (None, update_where (\<lambda>r. nr_id r = ident) (\<lambda>r. r\<lparr>nr_is_read := 1\<rparr>) rows))"

definition MarkAllRead_rows :: "err option \<Rightarrow> notifications \<Rightarrow> err option \<times> notifications" where
  "MarkAllRead_rows fail rows =
     (case fail of Some e \<Rightarrow> (Some (wrap CodeInternal ''mark all notifications read'' e), rows)
      | None \<Rightarrow> (None, update_where (\<lambda>r. nr_is_read r = 0) (\<lambda>r. r\<lparr>nr_is_read := 1\<rparr>) rows))"

definition DeleteAll :: "err option \<Rightarrow> notifications \<Rightarrow> err option \<times> notifications" where
  "DeleteAll fail rows =
     (case fail of Some e \<Rightarrow> (Some (wrap CodeInternal ''delete all notifications'' e), rows)
      | None \<Rightarrow> (None, delete_where (\<lambda>r. True) rows))"

definition formatDaysModifier :: "int \<Rightarrow> string" where
  "formatDaysModifier days = ''-'' @ show_int days @ '' days''"

definition DeleteOlderThanDays ::
  "(string \<Rightarrow> time option) \<Rightarrow> err option \<Rightarrow> int \<Rightarrow> notifications \<Rightarrow> (err + nat) \<times> notifications" where
  "DeleteOlderThanDays datetime fail days rows =
     (if days \<le> 0 then (Inr 0, rows)
      else (case fail of
          Some e \<Rightarrow> (Inl (wrap CodeInternal ''delete old notifications'' e), rows)
        | None \<Rightarrow>
          (let old = (\<lambda>r. case datetime (formatDaysModifier days) of None \<Rightarrow> False | Some t \<Rightarrow> nr_created_at r < t)
           in (Inr (count_where old rows), delete_where old rows))))"

text \<open>How a query can fail: at its start, at the scan of its row, at the end.\<close>

record query_fault =
  qf_query :: "err option"
  qf_scan :: "err option"
  qf_iter :: "err option"

definition GetSettings_row :: "query_fault \<Rightarrow> settings_row option \<Rightarrow> err + settings" where
  "GetSettings_row fault row =
     (let finish = (\<lambda>s. case qf_iter fault of Some e \<Rightarrow> Inl e | None \<Rightarrow> Inr s) in
      case qf_query fault of Some e \<Rightarrow> Inl (wrap CodeInternal ''get notification settings'' e)
      | None \<Rightarrow> (case row of
          None \<Rightarrow> finish \<lparr>se_PlaySound = True, se_MacOSToasts = True, se_AutoMarkRead = False, se_AutoDeleteDays = 0,
            se_MuteSystemAlerts = False, se_UpdatedAt = zero_time\<rparr>
        | Some r \<Rightarrow> (case qf_scan fault of Some e \<Rightarrow> Inl (wrap CodeInternal ''scan notification settings'' e)
            | None \<Rightarrow> finish \<lparr>se_PlaySound = (sr_play_sound r \<noteq> 0), se_MacOSToasts = (sr_macos_toasts r \<noteq> 0),
                se_AutoMarkRead = (sr_auto_mark_read r \<noteq> 0), se_AutoDeleteDays = sr_auto_delete_days r,
                se_MuteSystemAlerts = (sr_mute_system_alerts r \<noteq> 0), se_UpdatedAt = sr_updated_at r\<rparr>)))"

definition UpdateSettings_row :: "err option \<Rightarrow> settings \<Rightarrow> settings_row option \<Rightarrow> err option \<times> settings_row option" where
  "UpdateSettings_row fail st row =
     (case fail of Some e \<Rightarrow> (Some (wrap CodeInternal ''update notification settings'' e), row)
      | None \<Rightarrow> (None, map_option (\<lambda>r. \<lparr>sr_play_sound = boolToInt (se_PlaySound st),
          sr_macos_toasts = boolToInt (se_MacOSToasts st), sr_auto_mark_read = boolToInt (se_AutoMarkRead st),
          sr_auto_delete_days = se_AutoDeleteDays st, sr_mute_system_alerts = boolToInt (se_MuteSystemAlerts st),
          sr_updated_at = se_UpdatedAt st\<rparr>) row))"

section \<open>Usecase\<close>

definition maxStored :: int where "maxStored = 200"

text \<open>The failures of the five statements of one \<open>Save\<close>.\<close>

record save_faults =
  sf_settings :: query_fault
  sf_insert :: "err option"
  sf_prune :: "err option"
  sf_again :: query_fault
  sf_delete :: "err option"

definition Save_notification ::
  "(string \<Rightarrow> time option) \<Rightarrow> save_faults \<Rightarrow> string \<Rightarrow> time \<Rightarrow> u8 \<Rightarrow> string \<Rightarrow> u8 list \<Rightarrow> bool \<Rightarrow> notification_db \<Rightarrow>
   (err + string) \<times> notification_db" where
  "Save_notification datetime faults ulid now kind txHash payload isOurs db =
     (let autoRead = (case GetSettings_row (sf_settings faults) (nd_settings db) of Inr s \<Rightarrow> se_AutoMarkRead s | Inl e \<Rightarrow> False);
          n = \<lparr>nf_ID = ulid, nf_Kind = kind, nf_TxHash = txHash, nf_Payload = payload, nf_IsOurs = isOurs,
               nf_IsRead = autoRead, nf_CreatedAt = now\<rparr>
      in case Insert (sf_insert faults) n (nd_rows db) of
           (Some e, rows1) \<Rightarrow> (Inl (wrap CodeInternal ''save notification'' e), db\<lparr>nd_rows := rows1\<rparr>)
         | (None, rows1) \<Rightarrow>
           (let (_, rows2) = PruneOlderThan (sf_prune faults) maxStored rows1;
                rows3 = (case GetSettings_row (sf_again faults) (nd_settings db) of
                    Inr s \<Rightarrow> if se_AutoDeleteDays s > 0
                      then snd (DeleteOlderThanDays datetime (sf_delete faults) (se_AutoDeleteDays s) rows2) else rows2
                  | Inl e \<Rightarrow> rows2)
            in (Inr (nf_ID n), db\<lparr>nd_rows := rows3\<rparr>)))"

definition List_notifications :: "err option \<Rightarrow> err option \<Rightarrow> nat \<Rightarrow> notification_db \<Rightarrow> err + notification list" where
  "List_notifications fail iterErr limit db =
     (case List_notification_rows fail iterErr limit (nd_rows db) of
        Inl e \<Rightarrow> Inl (wrap CodeInternal ''list notifications'' e) | Inr out \<Rightarrow> Inr out)"

definition MarkRead :: "err option \<Rightarrow> string \<Rightarrow> notification_db \<Rightarrow> err option \<times> notification_db" where
  "MarkRead fail ident db = (let (err, rows) = MarkRead_row fail ident (nd_rows db) in
     (map_option (wrap CodeInternal ''mark notification read'') err, db\<lparr>nd_rows := rows\<rparr>))"

definition MarkAllRead :: "err option \<Rightarrow> notification_db \<Rightarrow> err option \<times> notification_db" where
  "MarkAllRead fail db = (let (err, rows) = MarkAllRead_rows fail (nd_rows db) in
     (map_option (wrap CodeInternal ''mark all read'') err, db\<lparr>nd_rows := rows\<rparr>))"

definition ClearAll :: "err option \<Rightarrow> notification_db \<Rightarrow> err option \<times> notification_db" where
  "ClearAll fail db = (let (err, rows) = DeleteAll fail (nd_rows db) in
     (map_option (wrap CodeInternal ''clear notifications'') err, db\<lparr>nd_rows := rows\<rparr>))"

definition GetSettings :: "query_fault \<Rightarrow> notification_db \<Rightarrow> err + settings" where
  "GetSettings fault db =
     (case GetSettings_row fault (nd_settings db) of Inl e \<Rightarrow> Inl (wrap CodeInternal ''get notification settings'' e)
      | Inr s \<Rightarrow> Inr s)"

definition UpdateSettings :: "time \<Rightarrow> err option \<Rightarrow> settings \<Rightarrow> notification_db \<Rightarrow> err option \<times> notification_db" where
  "UpdateSettings now fail s db = (let (err, row) = UpdateSettings_row fail (s\<lparr>se_UpdatedAt := now\<rparr>) (nd_settings db) in
     (map_option (wrap CodeInternal ''update notification settings'') err, db\<lparr>nd_settings := row\<rparr>))"

definition SweepOnStartup ::
  "(string \<Rightarrow> time option) \<Rightarrow> query_fault \<Rightarrow> err option \<Rightarrow> notification_db \<Rightarrow> notification_db" where
  "SweepOnStartup datetime fault fail db =
     (case GetSettings_row fault (nd_settings db) of Inl e \<Rightarrow> db
      | Inr s \<Rightarrow> if se_AutoDeleteDays s \<le> 0 then db
          else db\<lparr>nd_rows := snd (DeleteOlderThanDays datetime fail (se_AutoDeleteDays s) (nd_rows db))\<rparr>)"

section \<open>Laws\<close>

lemma mset_newest_first [simp]: "mset (newest_first rows) = mset rows"
  by (simp add: newest_first_def)

lemma set_newest_first [simp]: "set (newest_first rows) = set rows"
  by (simp add: newest_first_def)

lemma length_newest_first [simp]: "length (newest_first rows) = length rows"
  by (simp add: newest_first_def)

lemma distinct_newest_first: "distinct (map nr_id (newest_first rows)) \<longleftrightarrow> distinct (map nr_id rows)"
  by (rule mset_eq_imp_distinct_iff) (simp add: newest_first_def)

lemma newest_first_sorted:
  "i < j \<Longrightarrow> j < length rows \<Longrightarrow> nr_created_at (newest_first rows ! j) \<le> nr_created_at (newest_first rows ! i)"
  using sorted_nth_mono [of "map (\<lambda>r. - nr_created_at r) (newest_first rows)" i j]
  by (simp add: newest_first_def)

subsection \<open>Pruning\<close>

text \<open>What a pruning keeps and drops; rows have distinct identifiers.\<close>

lemma prune_keeps:
  assumes "distinct (map nr_id rows)" "PruneOlderThan None (int k) rows = (e, rows')"
  shows "length rows' = min k (length rows)" "set rows' = set (take k (newest_first rows))"
    and "\<forall>d \<in> set rows - set rows'. \<forall>r \<in> set rows'. nr_created_at d \<le> nr_created_at r"
proof -
  let ?s = "newest_first rows"
  have inj: "inj_on nr_id (set rows)" using assms(1) by (simp add: distinct_map)
  have sub: "set (take k ?s) \<subseteq> set rows" using set_take_subset [of k ?s] by simp
  have rows': "rows' = filter (\<lambda>r. nr_id r \<in> nr_id ` set (take k ?s)) rows"
    using assms(2) by (simp add: PruneOlderThan_def sql_limit_def delete_where_def)
  have mem: "nr_id r \<in> nr_id ` set (take k ?s) \<longleftrightarrow> r \<in> set (take k ?s)" if "r \<in> set rows" for r
    using inj_on_image_mem_iff [OF inj that sub] .
  show s: "set rows' = set (take k ?s)" using mem sub by (auto simp: rows')
  have d: "distinct ?s" "distinct rows"
    using assms(1) distinct_newest_first [of rows] by (auto simp: distinct_map)
  have "distinct rows'" using d(2) by (simp add: rows')
  then have "length rows' = card (set rows')" by (simp add: distinct_card)
  also have "\<dots> = card (set (take k ?s))" by (simp only: s)
  also have "\<dots> = length (take k ?s)" using d(1) by (intro distinct_card distinct_take)
  finally show "length rows' = min k (length rows)" by simp
  show "\<forall>d \<in> set rows - set rows'. \<forall>r \<in> set rows'. nr_created_at d \<le> nr_created_at r"
  proof (intro ballI)
    fix x r
    assume x: "x \<in> set rows - set rows'" and r: "r \<in> set rows'"
    obtain j where j: "j < length rows" "?s ! j = x" using x by (metis DiffD1 in_set_conv_nth length_newest_first set_newest_first)
    have "\<not> j < k"
    proof
      assume "j < k"
      then have "take k ?s ! j = x" "j < length (take k ?s)" using j by simp_all
      then have "x \<in> set (take k ?s)" by (metis nth_mem)
      then show False using x s by blast
    qed
    moreover obtain i where "i < k" "i < length rows" "?s ! i = r"
      using r unfolding s by (auto simp: in_set_conv_nth)
    ultimately show "nr_created_at x \<le> nr_created_at r" using newest_first_sorted [of i j rows] j by simp
  qed
qed

text \<open>The rows a retention of some days considers old.\<close>

definition outdated :: "(string \<Rightarrow> time option) \<Rightarrow> settings \<Rightarrow> notification_row \<Rightarrow> bool" where
  "outdated datetime s r \<longleftrightarrow> se_AutoDeleteDays s > 0 \<and>
     (\<exists>t. datetime (formatDaysModifier (se_AutoDeleteDays s)) = Some t \<and> nr_created_at r < t)"

lemma DeleteOlderThanDays_outdated:
  "(if se_AutoDeleteDays s > 0 then snd (DeleteOlderThanDays datetime None (se_AutoDeleteDays s) rows) else rows)
    = filter (\<lambda>r. \<not> outdated datetime s r) rows"
  by (auto simp: DeleteOlderThanDays_def outdated_def delete_where_def Let_def split: option.splits intro!: filter_cong)

definition no_fault :: query_fault where
  "no_fault = \<lparr>qf_query = None, qf_scan = None, qf_iter = None\<rparr>"

definition no_faults :: save_faults where
  "no_faults = \<lparr>sf_settings = no_fault, sf_insert = None, sf_prune = None, sf_again = no_fault, sf_delete = None\<rparr>"

lemma GetSettings_ok: "\<exists>s. GetSettings_row no_fault row = Inr s"
  by (auto simp: GetSettings_row_def no_fault_def Let_def split: option.splits)

definition saved_row :: "settings \<Rightarrow> string \<Rightarrow> time \<Rightarrow> u8 \<Rightarrow> string \<Rightarrow> u8 list \<Rightarrow> bool \<Rightarrow> notification_row" where
  "saved_row s ulid now kind txHash payload isOurs = notification_row
     \<lparr>nf_ID = ulid, nf_Kind = kind, nf_TxHash = txHash, nf_Payload = payload, nf_IsOurs = isOurs,
      nf_IsRead = se_AutoMarkRead s, nf_CreatedAt = now\<rparr>"

lemma Save_result:
  assumes "distinct (map nr_id (nd_rows db))" "ulid \<notin> nr_id ` set (nd_rows db)"
    and "GetSettings_row no_fault (nd_settings db) = Inr s"
    and new_def: "new = saved_row s ulid now kind txHash payload isOurs"
  shows "\<exists>kept. Save_notification datetime no_faults ulid now kind txHash payload isOurs db
      = (Inr ulid, db\<lparr>nd_rows := filter (\<lambda>r. \<not> outdated datetime s r) kept\<rparr>)
    \<and> PruneOlderThan None 200 (nd_rows db @ [new]) = (None, kept) \<and> distinct (map nr_id (nd_rows db @ [new]))"
proof -
  have n: "nr_id new = ulid" by (simp add: new_def saved_row_def notification_row_def)
  then have d: "distinct (map nr_id (nd_rows db @ [new]))" using assms(1,2) by simp
  obtain kept where k: "PruneOlderThan None 200 (nd_rows db @ [new]) = (None, kept)"
    by (simp add: PruneOlderThan_def)
  have i: "Insert None \<lparr>nf_ID = ulid, nf_Kind = kind, nf_TxHash = txHash, nf_Payload = payload, nf_IsOurs = isOurs,
      nf_IsRead = se_AutoMarkRead s, nf_CreatedAt = now\<rparr> (nd_rows db) = (None, nd_rows db @ [new])"
    using assms(2) unfolding new_def saved_row_def
    by (auto simp: Insert_def insert_unique_def list_ex_iff notification_row_def image_iff split: if_splits)
  have "Save_notification datetime no_faults ulid now kind txHash payload isOurs db
      = (Inr ulid, db\<lparr>nd_rows := filter (\<lambda>r. \<not> outdated datetime s r) kept\<rparr>)"
    using DeleteOlderThanDays_outdated [of s datetime kept]
    by (auto simp: Save_notification_def no_faults_def assms(3) i k maxStored_def split: if_splits)
  with k d show ?thesis by blast
qed

text \<open>A row newer than all others comes first.\<close>

lemma newest_head:
  assumes "new \<in> set rows" "\<And>r. r \<in> set rows \<Longrightarrow> r \<noteq> new \<Longrightarrow> nr_created_at r < nr_created_at new"
  shows "\<exists>rest. newest_first rows = new # rest"
proof (cases "newest_first rows")
  case Nil
  with assms(1) show ?thesis by (metis empty_iff list.set(1) set_newest_first)
next
  case (Cons x rest)
  then have same: "set rows = set (x # rest)" "length rows = length (x # rest)"
    using set_newest_first [of rows] length_newest_first [of rows] by simp_all
  then have x: "x \<in> set rows" by simp
  have "new \<in> set (x # rest)" using assms(1) same(1) by simp
  then obtain j where "j < length (x # rest)" "(x # rest) ! j = new" by (auto simp only: in_set_conv_nth)
  then have "nr_created_at new \<le> nr_created_at x"
    using newest_first_sorted [of 0 j rows] Cons same(2) by (cases j) auto
  then have "x = new" using assms(2) [OF x] by (cases "x = new") auto
  with Cons show ?thesis by simp
qed

text \<open>
  C17. Saving a notification keeps the table bounded without losing what is new. When no
  statement fails, the rows that remain are exactly those of the 200 newest - the old ones and
  the new one, whose read flag is the preference - that are within the retention window. So at
  most 200 remain, a row that is gone is outside the window or at most as new as every row
  that stays, nothing within the window goes while the table has room, and a new row that is
  newer than the others and within the window stays.
\<close>

theorem Save_bounded:
  assumes "distinct (map nr_id (nd_rows db))" "ulid \<notin> nr_id ` set (nd_rows db)"
    and "GetSettings_row no_fault (nd_settings db) = Inr s"
    and "new = saved_row s ulid now kind txHash payload isOurs"
  shows "\<exists>rows'. Save_notification datetime no_faults ulid now kind txHash payload isOurs db = (Inr ulid, db\<lparr>nd_rows := rows'\<rparr>)
    \<and> set rows' = {r \<in> set (take 200 (newest_first (nd_rows db @ [new]))). \<not> outdated datetime s r}
    \<and> length rows' \<le> 200 \<and> distinct (map nr_id rows') \<and> set rows' \<subseteq> insert new (set (nd_rows db))
    \<and> (\<forall>d \<in> insert new (set (nd_rows db)) - set rows'.
        outdated datetime s d \<or> (\<forall>r \<in> set rows'. nr_created_at d \<le> nr_created_at r))
    \<and> (length (nd_rows db) < 200 \<longrightarrow>
        set rows' = {r \<in> insert new (set (nd_rows db)). \<not> outdated datetime s r})
    \<and> ((\<forall>r \<in> set (nd_rows db). nr_created_at r < now) \<and> \<not> outdated datetime s new \<longrightarrow> new \<in> set rows')"
proof -
  let ?all = "nd_rows db @ [new]"
  obtain kept where k: "Save_notification datetime no_faults ulid now kind txHash payload isOurs db
      = (Inr ulid, db\<lparr>nd_rows := filter (\<lambda>r. \<not> outdated datetime s r) kept\<rparr>)"
    "PruneOlderThan None (int 200) ?all = (None, kept)" "distinct (map nr_id ?all)"
    using Save_result [OF assms, of datetime] by auto
  note p = prune_keeps [OF k(3,2)]
  have kept: "kept = filter (\<lambda>r. nr_id r \<in> nr_id ` set (take 200 (newest_first ?all))) ?all"
    using k(2) by (simp add: PruneOlderThan_def sql_limit_def delete_where_def)
  let ?rows' = "filter (\<lambda>r. \<not> outdated datetime s r) kept"
  have exact: "set ?rows' = {r \<in> set (take 200 (newest_first ?all)). \<not> outdated datetime s r}" using p(2) by auto
  have "length ?rows' \<le> 200" using length_filter_le [of "\<lambda>r. \<not> outdated datetime s r" kept] p(1) by simp
  moreover have "distinct (map nr_id ?rows')"
    using k(3) unfolding kept by (simp only: distinct_map_filter)
  moreover have "set ?rows' \<subseteq> insert new (set (nd_rows db))" by (auto simp: kept)
  moreover have "\<forall>d \<in> insert new (set (nd_rows db)) - set ?rows'.
        outdated datetime s d \<or> (\<forall>r \<in> set ?rows'. nr_created_at d \<le> nr_created_at r)"
    using p(3) by auto
  moreover have "set ?rows' = {r \<in> insert new (set (nd_rows db)). \<not> outdated datetime s r}" if "length (nd_rows db) < 200"
    using that unfolding exact by simp
  moreover have "new \<in> set ?rows'" if n: "\<forall>r \<in> set (nd_rows db). nr_created_at r < now" "\<not> outdated datetime s new"
  proof -
    have "nr_created_at new = now" by (simp add: assms(4) saved_row_def notification_row_def)
    then have "\<exists>rest. newest_first ?all = new # rest" using n(1) by (intro newest_head) auto
    then show ?thesis using n(2) unfolding exact by auto
  qed
  ultimately show ?thesis using k(1) exact by blast
qed

lemma Save_bounded_witness:
  "\<exists>s. GetSettings_row no_fault None = Inr s
    \<and> (\<exists>rows'. Save_notification (\<lambda>_. None) no_faults ''b'' 7 4 ''0xaa'' [] True \<lparr>nd_rows = [], nd_settings = None\<rparr>
      = (Inr ''b'', \<lparr>nd_rows = rows', nd_settings = None\<rparr>) \<and> set rows' = {saved_row s ''b'' 7 4 ''0xaa'' [] True})"
proof -
  obtain s where s: "GetSettings_row no_fault None = Inr s" using GetSettings_ok by blast
  have fresh: "\<not> outdated (\<lambda>_. None) s r" for r by (simp add: outdated_def)
  show ?thesis
    using Save_bounded [where db = "\<lparr>nd_rows = [], nd_settings = None\<rparr>" and ulid = "''b''", OF _ _ _ refl,
        where datetime = "\<lambda>_. None" and now = 7 and kind = 4 and txHash = "''0xaa''" and payload = "[]" and isOurs = True] s
    by (auto simp: fresh)
qed

subsection \<open>Read flags\<close>

definition shown :: "notification_row \<Rightarrow> notification" where
  "shown r = (let kind = nr_event_kind r in
     \<lparr>nf_ID = nr_id r, nf_Kind = word_of_int (if kind < 0 \<or> kind > 255 then 0 else kind), nf_TxHash = nr_tx_hash r,
      nf_Payload = nr_payload r, nf_IsOurs = (nr_is_ours r \<noteq> 0), nf_IsRead = (nr_is_read r \<noteq> 0), nf_CreatedAt = nr_created_at r\<rparr>)"

lemma scan_shown: "scan_rows scanNotification rows = Inr (map shown rows)"
  by (induction rows) (simp_all add: scanNotification_def shown_def Let_def)

lemma List_shown: "List_notifications None None k db = Inr (map shown (take k (newest_first (nd_rows db))))"
  by (simp add: List_notifications_def List_notification_rows_def read_rows_def scan_shown sql_limit_def)

lemma newest_first_update:
  assumes "\<And>r. nr_created_at (f r) = nr_created_at r"
  shows "newest_first (update_where p f rows) = update_where p f (newest_first rows)"
proof -
  have "(\<lambda>r. - nr_created_at (if p r then f r else r)) = (\<lambda>r. - nr_created_at r)" using assms by auto
  then show ?thesis by (simp only: newest_first_def update_where_def sort_key_map)
qed

lemma shown_notification_row: "shown (notification_row n) = n"
proof -
  have "uint (nf_Kind n) < 2 ^ 8" using uint_lt2p [of "nf_Kind n"] by simp
  then have "\<not> (uint (nf_Kind n) < 0 \<or> uint (nf_Kind n) > 255)" using uint_ge_0 [of "nf_Kind n"] by auto
  then show ?thesis by (simp add: shown_def notification_row_def Let_def)
qed

text \<open>
  The panel is the newest notifications, each as it was saved. Marking one as read changes
  the flag of that notification alone and leaves the listing in place, marking all changes
  every flag and nothing else, both again are no change, and clearing leaves an empty panel.
\<close>

theorem panel_reads:
  assumes "List_notifications None None k db = Inr panel"
  shows "panel = map shown (take k (newest_first (nd_rows db)))
    \<and> List_notifications None None k (snd (MarkRead None i db))
        = Inr (map (\<lambda>n. if nf_ID n = i then n\<lparr>nf_IsRead := True\<rparr> else n) panel)
    \<and> List_notifications None None k (snd (MarkAllRead None db)) = Inr (map (\<lambda>n. n\<lparr>nf_IsRead := True\<rparr>) panel)
    \<and> MarkRead None i (snd (MarkRead None i db)) = MarkRead None i db
    \<and> MarkAllRead None (snd (MarkAllRead None db)) = MarkAllRead None db
    \<and> List_notifications None None k (snd (ClearAll None db)) = Inr []"
proof -
  have panel: "panel = map shown (take k (newest_first (nd_rows db)))" using assms by (simp add: List_shown)
  have one: "map shown (take n (update_where (\<lambda>r. nr_id r = i) (\<lambda>r. r\<lparr>nr_is_read := 1\<rparr>) rows))
      = map (\<lambda>n. if nf_ID n = i then n\<lparr>nf_IsRead := True\<rparr> else n) (map shown (take n rows))" for n rows
    by (auto simp: update_where_def take_map shown_def Let_def)
  have every: "map shown (take n (update_where (\<lambda>r. nr_is_read r = 0) (\<lambda>r. r\<lparr>nr_is_read := 1\<rparr>) rows))
      = map (\<lambda>n. n\<lparr>nf_IsRead := True\<rparr>) (map shown (take n rows))" for n rows
    by (auto simp: update_where_def take_map shown_def Let_def)
  have twice: "update_where p f (update_where p f rows) = update_where p f rows"
    if "\<And>r. p r \<Longrightarrow> p (f r) \<Longrightarrow> f (f r) = f r" for p f and rows :: notifications
    using that by (auto simp: update_where_def)
  have "newest_first [] = []" by (simp add: newest_first_def)
  then show ?thesis unfolding panel
    by (auto simp: MarkRead_def MarkRead_row_def MarkAllRead_def MarkAllRead_rows_def ClearAll_def DeleteAll_def
        List_shown newest_first_update one every twice delete_where_def Let_def)
qed

lemma panel_reads_witness:
  "let n = \<lparr>nf_ID = ''a'', nf_Kind = 4, nf_TxHash = ''0xaa'', nf_Payload = [], nf_IsOurs = True, nf_IsRead = False, nf_CreatedAt = 7\<rparr>;
       db = \<lparr>nd_rows = [notification_row n], nd_settings = None\<rparr>
   in List_notifications None None 5 db = Inr [n]
     \<and> List_notifications None None 5 (snd (MarkRead None ''a'' db)) = Inr [n\<lparr>nf_IsRead := True\<rparr>]"
proof -
  let ?n = "\<lparr>nf_ID = ''a'', nf_Kind = 4, nf_TxHash = ''0xaa'', nf_Payload = [], nf_IsOurs = True, nf_IsRead = False, nf_CreatedAt = 7\<rparr>"
  let ?db = "\<lparr>nd_rows = [notification_row ?n], nd_settings = None\<rparr>"
  have l: "List_notifications None None 5 ?db = Inr [?n]"
    unfolding List_shown by (simp add: newest_first_def shown_notification_row)
  from panel_reads [OF l, of "''a''"] l show ?thesis by (simp add: Let_def)
qed

text \<open>The preferences are read back as written, with the time of the update.\<close>

lemma settings_roundtrip:
  assumes "nd_settings db \<noteq> None" "UpdateSettings now None s db = (e, db')"
  shows "e = None \<and> GetSettings no_fault db' = Inr (s\<lparr>se_UpdatedAt := now\<rparr>) \<and> nd_rows db' = nd_rows db"
  using assms by (auto simp: UpdateSettings_def UpdateSettings_row_def GetSettings_def GetSettings_row_def no_fault_def Let_def)

end
