(* ===== verification/Keys.thy ===== *)
theory Keys
  imports Addresses Strconv Contracts
begin

text \<open>
  pkg/ethkit/wallet.go and mnemonic.go: wallets as private keys with their address. The
  cryptography and the key derivation of the libraries are parameters, collected in a record;
  the hex coding is that of the standard library.
\<close>

section \<open>Hex coding\<close>

definition hex_val :: "char \<Rightarrow> nat option" where
  "hex_val c = (case digit_val c of None \<Rightarrow> None | Some d \<Rightarrow> if d < 16 then Some d else None)"

text \<open>\<open>hex.DecodeString\<close>; \<open>bad\<close> is the error for a character that is not a digit.\<close>

definition ErrLength :: err where "ErrLength = Sentinel ''encoding/hex: odd length hex string''"

fun DecodeString :: "(char \<Rightarrow> err) \<Rightarrow> string \<Rightarrow> err + u8 list" where
  "DecodeString bad [] = Inr []"
| "DecodeString bad [c] = (case hex_val c of None \<Rightarrow> Inl (bad c) | Some _ \<Rightarrow> Inl ErrLength)"
| "DecodeString bad (c # d # s) =
     (case hex_val c of None \<Rightarrow> Inl (bad c)
      | Some a \<Rightarrow> (case hex_val d of None \<Rightarrow> Inl (bad d)
          | Some b \<Rightarrow> bindE (DecodeString bad s) (\<lambda>bs. Inr (word_of_nat (16 * a + b) # bs))))"

fun EncodeToString :: "u8 list \<Rightarrow> string" where
  "EncodeToString [] = []"
| "EncodeToString (b # bs) = digit_char (unat b div 16) # digit_char (unat b mod 16) # EncodeToString bs"

definition bytes_of :: "string \<Rightarrow> u8 list" where
  "bytes_of s = map (\<lambda>c. word_of_nat (of_char c)) s"

section \<open>Wallets\<close>

text \<open>
  The libraries: \<open>'k\<close> are private keys, \<open>'h\<close> seeds of an HD wallet, \<open>'p\<close> derivation paths,
  \<open>'a\<close> derived accounts. \<open>PubkeyAddress\<close> is \<open>None\<close> when a key has no public key.
\<close>

record ('k, 'h, 'p, 'a) crypto =
  cy_ToECDSA :: "u8 list \<Rightarrow> err + 'k"
  cy_FromECDSA :: "'k \<Rightarrow> u8 list"
  cy_PubkeyAddress :: "'k \<Rightarrow> address option"
  cy_DecryptKey :: "u8 list \<Rightarrow> string \<Rightarrow> err + 'k"
  cy_EncryptKey :: "address \<Rightarrow> 'k \<Rightarrow> string \<Rightarrow> err + u8 list"
  cy_Keccak256 :: "u8 list \<Rightarrow> u8 list"
  cy_Sign :: "u8 list \<Rightarrow> 'k \<Rightarrow> err + u8 list"
  cy_NewFromMnemonic :: "string \<Rightarrow> err + 'h"
  cy_ParsePath :: "string \<Rightarrow> err + 'p"
  cy_Derive :: "'h \<Rightarrow> 'p \<Rightarrow> err + 'a"
  cy_PrivateKey :: "'h \<Rightarrow> 'a \<Rightarrow> err + 'k"
  cy_IsMnemonicValid :: "string \<Rightarrow> bool"
  cy_BadHex :: "char \<Rightarrow> err"

record 'k wallet =
  wl_privateKey :: 'k
  wl_address :: address

definition newWalletFromECDSA :: "('k, 'h, 'p, 'a) crypto \<Rightarrow> 'k \<Rightarrow> err + 'k wallet" where
  "newWalletFromECDSA cy pk =
     (case cy_PubkeyAddress cy pk of
        None \<Rightarrow> Inl (Sentinel ''ethkit: cannot derive public key'')
      | Some a \<Rightarrow> Inr \<lparr>wl_privateKey = pk, wl_address = a\<rparr>)"

definition newWalletFromBytes :: "('k, 'h, 'p, 'a) crypto \<Rightarrow> u8 list \<Rightarrow> err + 'k wallet" where
  "newWalletFromBytes cy b =
     bindE (mapE (errorf ''ethkit: invalid private key: '') (cy_ToECDSA cy b)) (newWalletFromECDSA cy)"

definition NewWalletFromHex :: "('k, 'h, 'p, 'a) crypto \<Rightarrow> string \<Rightarrow> err + 'k wallet" where
  "NewWalletFromHex cy hexKey =
     bindE (mapE (errorf ''ethkit: invalid private key hex: '') (DecodeString (cy_BadHex cy) (TrimPrefix hexKey ''0x'')))
       (newWalletFromBytes cy)"

definition NewWalletFromKeystore :: "('k, 'h, 'p, 'a) crypto \<Rightarrow> u8 list \<Rightarrow> string \<Rightarrow> err + 'k wallet" where
  "NewWalletFromKeystore cy keystoreJSON passphrase =
     bindE (mapE (errorf ''ethkit: keystore decrypt: '') (cy_DecryptKey cy keystoreJSON passphrase)) (newWalletFromECDSA cy)"

definition PrivateKeyHex :: "('k, 'h, 'p, 'a) crypto \<Rightarrow> 'k wallet \<Rightarrow> string" where
  "PrivateKeyHex cy w = EncodeToString (cy_FromECDSA cy (wl_privateKey w))"

text \<open>\<open>signTx\<close> is \<open>types.SignTx\<close> with the London signer of the chain.\<close>

definition SignTx :: "(int option \<Rightarrow> 't \<Rightarrow> 'k \<Rightarrow> err + 't) \<Rightarrow> 'k wallet \<Rightarrow> 't \<Rightarrow> int option \<Rightarrow> err + 't" where
  "SignTx signTx w t chainID = mapE (errorf ''ethkit: sign tx: '') (signTx chainID t (wl_privateKey w))"

text \<open>The last byte of the signature is raised by 27; a shorter signature would panic.\<close>

definition SignMessage :: "('k, 'h, 'p, 'a) crypto \<Rightarrow> 'k wallet \<Rightarrow> u8 list \<Rightarrow> (err, u8 list) outcome" where
  "SignMessage cy w message =
     (let prefixed = cy_Keccak256 cy (0x19 # bytes_of ''Ethereum Signed Message:'' @ [0x0a] @ bytes_of (show_nat (length message)) @ message)
      in case cy_Sign cy prefixed (wl_privateKey w) of
           Inl e \<Rightarrow> Failed (errorf ''ethkit: sign message: '' e)
         | Inr sig \<Rightarrow> if 64 < length sig then Returned (sig[64 := sig ! 64 + 27]) else Panicked)"

definition SignHash :: "('k, 'h, 'p, 'a) crypto \<Rightarrow> 'k wallet \<Rightarrow> u8 list \<Rightarrow> err + u8 list" where
  "SignHash cy w hash =
     (if length hash \<noteq> 32 then Inl (WrapError (''ethkit: hash must be 32 bytes, got '' @ show_nat (length hash)) [])
      else cy_Sign cy hash (wl_privateKey w))"

definition ExportKeystore :: "('k, 'h, 'p, 'a) crypto \<Rightarrow> 'k wallet \<Rightarrow> string \<Rightarrow> err + u8 list" where
  "ExportKeystore cy w passphrase =
     mapE (errorf ''ethkit: keystore export: '') (cy_EncryptKey cy (wl_address w) (wl_privateKey w) passphrase)"

section \<open>Mnemonics\<close>

definition DefaultDerivationPath :: string where
  "DefaultDerivationPath = ''m/44'' @ [char_of (39 :: nat)] @ ''/60'' @ [char_of (39 :: nat)] @ ''/0'' @ [char_of (39 :: nat)] @ ''/0/0''"

definition GenerateMnemonic :: "err + 'e \<Rightarrow> ('e \<Rightarrow> err + string) \<Rightarrow> err + string" where
  "GenerateMnemonic entropy newMnemonic = bindE entropy newMnemonic"

definition NewWalletFromMnemonic :: "('k, 'h, 'p, 'a) crypto \<Rightarrow> string \<Rightarrow> string \<Rightarrow> err + 'k wallet" where
  "NewWalletFromMnemonic cy mnemonic derivationPath =
     (let path' = (if derivationPath = '''' then DefaultDerivationPath else derivationPath) in
      bindE (cy_NewFromMnemonic cy mnemonic) (\<lambda>w.
      bindE (cy_ParsePath cy path') (\<lambda>path.
      bindE (cy_Derive cy w path) (\<lambda>account.
      bindE (cy_PrivateKey cy w account) (newWalletFromECDSA cy)))))"

definition ValidateMnemonic :: "('k, 'h, 'p, 'a) crypto \<Rightarrow> string \<Rightarrow> bool" where
  "ValidateMnemonic cy mnemonic = cy_IsMnemonicValid cy mnemonic"

section \<open>Laws\<close>

lemma hex_val_digit_char: "d < 16 \<Longrightarrow> hex_val (digit_char d) = Some d"
  by (auto simp: hex_val_def digit_val_def digit_char_def Let_def of_char_of)

lemma Decode_Encode: "DecodeString bad (EncodeToString bs) = Inr bs"
proof (induction bs)
  case (Cons b bs)
  have "unat b < 256" using unsigned_less [of b, where 'a = nat] by simp
  then have "unat b div 16 < 16" "16 * (unat b div 16) + unat b mod 16 = unat b" by auto
  then show ?case using Cons by (simp add: hex_val_digit_char)
qed simp

lemma digit_char_not_x: "d < 16 \<Longrightarrow> digit_char d \<noteq> CHR ''x''"
proof
  assume "d < 16" "digit_char d = CHR ''x''"
  then have "hex_val (CHR ''x'') = Some d" using hex_val_digit_char [of d] by simp
  then show False by (simp add: hex_val_def digit_val_def)
qed

lemma Trim_Encode [simp]: "TrimPrefix (EncodeToString bs) ''0x'' = EncodeToString bs"
proof (cases bs)
  case (Cons b bs')
  have "unat b mod 16 < 16" by simp
  from digit_char_not_x [OF this] show ?thesis using Cons by (simp add: TrimPrefix_def HasPrefix_def)
qed (simp add: TrimPrefix_def HasPrefix_def)

text \<open>What the libraries promise of a key: its bytes read back.\<close>

definition key_law :: "('k, 'h, 'p, 'a) crypto \<Rightarrow> 'k \<Rightarrow> bool" where
  "key_law cy pk \<longleftrightarrow> cy_ToECDSA cy (cy_FromECDSA cy pk) = Inr pk"

lemma wallet_of_key: "newWalletFromECDSA cy pk = Inr w \<Longrightarrow> wl_privateKey w = pk \<and> cy_PubkeyAddress cy pk = Some (wl_address w)"
  by (auto simp: newWalletFromECDSA_def split: option.splits)

lemma NewWalletFromHex_PrivateKeyHex:
  assumes "newWalletFromECDSA cy pk = Inr w" "key_law cy pk"
  shows "NewWalletFromHex cy (PrivateKeyHex cy w) = Inr w"
  using wallet_of_key [OF assms(1)] assms
  by (simp add: NewWalletFromHex_def PrivateKeyHex_def Decode_Encode newWalletFromBytes_def key_law_def mapE_def)

end
