(* ===== verification/Wallets.thy ===== *)
theory Wallets
  imports Keys Tokens Contacts Txstore Notifications Pending_Sqlite
begin

text \<open>
  The wallet of the application: its record (internal/domain/wallet), its secret in the
  system keychain (pkg/keychain), and the operations of internal/usecase/wallet. The keyring
  library is a parameter with a state of its own, and each SQL statement's failure is an
  argument.
\<close>

section \<open>The keychain\<close>

record 'o keyring =
  kr_Set :: "string \<Rightarrow> string \<Rightarrow> string \<Rightarrow> 'o \<Rightarrow> err option \<times> 'o"
  kr_Get :: "string \<Rightarrow> string \<Rightarrow> 'o \<Rightarrow> err + string"
  kr_Delete :: "string \<Rightarrow> string \<Rightarrow> 'o \<Rightarrow> err option \<times> 'o"

definition keyring_ErrNotFound :: err where "keyring_ErrNotFound = Sentinel ''secret not found in keyring''"

definition ErrNotFound_keychain :: err where "ErrNotFound_keychain = Sentinel ''keychain: entry not found''"

definition defaultService :: string where "defaultService = ''nox-wallet''"

text \<open>A client is the name of its service.\<close>

definition New_keychain :: "string \<Rightarrow> string" where
  "New_keychain service = (if service = '''' then defaultService else service)"

definition keychain_Set :: "'o keyring \<Rightarrow> string \<Rightarrow> string \<Rightarrow> string \<Rightarrow> 'o \<Rightarrow> err option \<times> 'o" where
  "keychain_Set kr service key secret st = kr_Set kr service key secret st"

definition keychain_Get :: "'o keyring \<Rightarrow> string \<Rightarrow> string \<Rightarrow> 'o \<Rightarrow> err + string" where
  "keychain_Get kr service key st =
     (case kr_Get kr service key st of
        Inl e \<Rightarrow> if Is e keyring_ErrNotFound then Inl ErrNotFound_keychain else Inl e
      | Inr secret \<Rightarrow> Inr secret)"

definition keychain_Delete :: "'o keyring \<Rightarrow> string \<Rightarrow> string \<Rightarrow> 'o \<Rightarrow> err option \<times> 'o" where
  "keychain_Delete kr service key st =
     (case kr_Delete kr service key st of
        (Some e, st') \<Rightarrow> if Is e keyring_ErrNotFound then (None, st') else (Some e, st')
      | (None, st') \<Rightarrow> (None, st'))"

section \<open>The wallet record\<close>

definition SecretTypeMnemonic :: string where "SecretTypeMnemonic = ''mnemonic''"
definition SecretTypePrivateKey :: string where "SecretTypePrivateKey = ''privatekey''"

record wallet_entity =
  wa_ID :: string
  wa_Address :: address
  wa_Label :: string
  wa_SecretType :: string
  wa_CreatedAt :: time

definition ErrNotFound_wallet :: err where "ErrNotFound_wallet = New CodeNotFound ''wallet not found''"

record wallet_row =
  wr_id :: string
  wr_address :: string
  wr_label :: string
  wr_secret_type :: string
  wr_created_at :: time

text \<open>The tables of the database.\<close>

record wallet_db =
  db_watched_tokens :: watchlist
  db_transactions :: tx_table
  db_notifications :: notifications
  db_pending_txs :: "pending_row list"
  db_contacts :: contacts
  db_wallets :: "wallet_row list"
  db_settings :: "settings_row option"

definition Save_wallet :: "checksum \<Rightarrow> err option \<Rightarrow> wallet_entity \<Rightarrow> wallet_db \<Rightarrow> err option \<times> wallet_db" where
  "Save_wallet ck fail w db =
     (let r = \<lparr>wr_id = wa_ID w, wr_address = Hex ck (wa_Address w), wr_label = wa_Label w,
               wr_secret_type = wa_SecretType w, wr_created_at = wa_CreatedAt w\<rparr>;
          rows = db_wallets db;
          (err, rows') = (case fail of Some e \<Rightarrow> (Some e, rows)
            | None \<Rightarrow>
              if list_ex (\<lambda>x. wr_address x = wr_address r) rows
              then (None, update_where (\<lambda>x. wr_address x = wr_address r)
                     (\<lambda>x. x\<lparr>wr_label := wr_label r, wr_secret_type := wr_secret_type r\<rparr>) rows)
              else if list_ex (\<lambda>x. wr_id x = wr_id r) rows then (Some (unique_violation ''wallets.id''), rows)
              else (None, rows @ [r]))
      in (map_option (wrap CodeInternal ''save wallet'') err, db\<lparr>db_wallets := rows'\<rparr>))"

definition scan_wallet :: "wallet_row \<Rightarrow> err + wallet_entity" where
  "scan_wallet r =
     (case NewAddress (wr_address r) of
        Inl e \<Rightarrow> Inl (wrap CodeInternal ''invalid stored wallet address'' e)
      | Inr addr \<Rightarrow> Inr \<lparr>wa_ID = wr_id r, wa_Address = addr, wa_Label = wr_label r,
          wa_SecretType = wr_secret_type r, wa_CreatedAt = wr_created_at r\<rparr>)"

definition Get_wallet :: "err option \<Rightarrow> wallet_db \<Rightarrow> err + wallet_entity" where
  "Get_wallet fail db =
     (let row = (case fail of Some e \<Rightarrow> Inl e
           | None \<Rightarrow> (case sort_key wr_created_at (db_wallets db) of [] \<Rightarrow> Inl ErrNoRows | r # _ \<Rightarrow> Inr r))
      in case row of
           Inl e \<Rightarrow> if Is e ErrNoRows then Inl ErrNotFound_wallet else Inl (wrap CodeInternal ''get wallet'' e)
         | Inr r \<Rightarrow> scan_wallet r)"

definition Delete_wallet :: "err option \<Rightarrow> wallet_db \<Rightarrow> err option \<times> wallet_db" where
  "Delete_wallet fail db =
     (case fail of Some e \<Rightarrow> (Some (wrap CodeInternal ''delete wallet'' e), db)
      | None \<Rightarrow> (None, db\<lparr>db_wallets := delete_where (\<lambda>r. True) (db_wallets db)\<rparr>))"

text \<open>A transaction: what \<open>fn\<close> did is kept only when it and the commit succeed.\<close>

definition WithTx :: "err option \<Rightarrow> err option \<Rightarrow> ('d \<Rightarrow> err option \<times> 'd) \<Rightarrow> 'd \<Rightarrow> err option \<times> 'd" where
  "WithTx begin_fail commit_fail fn db =
     (case begin_fail of Some e \<Rightarrow> (Some (errorf ''sqlitekit: begin tx: '' e), db)
      | None \<Rightarrow> (case fn db of
          (Some e, _) \<Rightarrow> (Some e, db)
        | (None, db') \<Rightarrow> (case commit_fail of Some e \<Rightarrow> (Some (errorf ''sqlitekit: commit: '' e), db) | None \<Rightarrow> (None, db'))))"

definition resetTables :: "string list" where
  "resetTables = [''watched_tokens'', ''transactions'', ''notifications'', ''pending_txs'', ''contacts'', ''wallets'']"

text \<open>\<open>DELETE FROM table\<close>.\<close>

definition delete_from :: "string \<Rightarrow> wallet_db \<Rightarrow> wallet_db" where
  "delete_from table db =
     (if table = ''watched_tokens'' then db\<lparr>db_watched_tokens := []\<rparr>
      else if table = ''transactions'' then db\<lparr>db_transactions := []\<rparr>
      else if table = ''notifications'' then db\<lparr>db_notifications := []\<rparr>
      else if table = ''pending_txs'' then db\<lparr>db_pending_txs := []\<rparr>
      else if table = ''contacts'' then db\<lparr>db_contacts := []\<rparr>
      else if table = ''wallets'' then db\<lparr>db_wallets := []\<rparr> else db)"

fun reset_loop :: "(string \<Rightarrow> err option) \<Rightarrow> string list \<Rightarrow> wallet_db \<Rightarrow> err option \<times> wallet_db" where
  "reset_loop fails [] db = (None, db)"
| "reset_loop fails (table # tables) db =
     (case fails table of Some e \<Rightarrow> (Some (wrap CodeInternal (''reset '' @ table) (errorf ''sqlitekit tx exec: '' e)), db)
      | None \<Rightarrow> reset_loop fails tables (delete_from table db))"

record reset_faults =
  rf_begin :: "err option"
  rf_tables :: "string \<Rightarrow> err option"
  rf_commit :: "err option"

definition Reset_wallet :: "reset_faults \<Rightarrow> wallet_db \<Rightarrow> err option \<times> wallet_db" where
  "Reset_wallet faults db =
     (case WithTx (rf_begin faults) (rf_commit faults) (reset_loop (rf_tables faults) resetTables) db of
        (Some e, db') \<Rightarrow> (Some (wrap CodeInternal ''reset wallet state'' e), db')
      | (None, db') \<Rightarrow> (None, db'))"

section \<open>Loading and importing\<close>

text \<open>The state of the usecase: the database, the keyring, and the wallet in memory.\<close>

record ('k, 'o) wallet_state =
  wu_db :: wallet_db
  wu_keyring :: 'o
  wu_wallet :: "'k wallet option"

definition keychainKey :: string where "keychainKey = ''wallet_secret''"

definition LoadFromKeychain ::
  "('k, 'h, 'p, 'a) crypto \<Rightarrow> 'o keyring \<Rightarrow> string \<Rightarrow> (string \<Rightarrow> string) \<Rightarrow> err option \<Rightarrow> ('k, 'o) wallet_state \<Rightarrow>
   err option \<times> ('k, 'o) wallet_state" where
  "LoadFromKeychain cy kr service quote fail st =
     (case Get_wallet fail (wu_db st) of
        Inl e \<Rightarrow> if Is e ErrNotFound_wallet then (None, st) else (Some e, st)
      | Inr record \<Rightarrow>
        (case keychain_Get kr service keychainKey (wu_keyring st) of
           Inl e \<Rightarrow> if Is e ErrNotFound_keychain then (None, st)
                    else (Some (wrap CodeInternal ''read keychain'' e), st)
         | Inr secret \<Rightarrow>
           if wa_SecretType record = SecretTypeMnemonic
           then (case NewWalletFromMnemonic cy secret DefaultDerivationPath of
               Inl e \<Rightarrow> (Some (wrap CodeInternal ''restore wallet from mnemonic'' e), st)
             | Inr w \<Rightarrow> (None, st\<lparr>wu_wallet := Some w\<rparr>))
           else if wa_SecretType record = SecretTypePrivateKey
           then (case NewWalletFromHex cy secret of
               Inl e \<Rightarrow> (Some (wrap CodeInternal ''restore wallet from private key'' e), st)
             | Inr w \<Rightarrow> (None, st\<lparr>wu_wallet := Some w\<rparr>))
           else (Some (New CodeInternal (''unknown secret type '' @ quote (wa_SecretType record))), st)))"

text \<open>What surrounds a persisting: the service name, the failures of its statements, the new id and time.\<close>

record persist_env =
  pe_ck :: checksum
  pe_service :: string
  pe_reset :: reset_faults
  pe_save :: "err option"
  pe_ulid :: string
  pe_now :: time

definition persistWallet ::
  "'o keyring \<Rightarrow> persist_env \<Rightarrow> 'k wallet \<Rightarrow> string \<Rightarrow> string \<Rightarrow> string \<Rightarrow> ('k, 'o) wallet_state \<Rightarrow>
   (err + wallet_entity) \<times> ('k, 'o) wallet_state" where
  "persistWallet kr env w secret secretType label st =
     (case Reset_wallet (pe_reset env) (wu_db st) of
        (Some e, db1) \<Rightarrow> (Inl (wrap CodeInternal ''reset previous wallet state'' e), st\<lparr>wu_db := db1\<rparr>)
      | (None, db1) \<Rightarrow>
        (case keychain_Set kr (pe_service env) keychainKey secret (wu_keyring st) of
           (Some e, o1) \<Rightarrow> (Inl (wrap CodeInternal ''store secret in keychain'' e), st\<lparr>wu_db := db1, wu_keyring := o1\<rparr>)
         | (None, o1) \<Rightarrow>
           (let record = \<lparr>wa_ID = pe_ulid env, wa_Address = wl_address w, wa_Label = label,
                  wa_SecretType = secretType, wa_CreatedAt = pe_now env\<rparr>
            in case Save_wallet (pe_ck env) (pe_save env) record db1 of
                 (Some e, db2) \<Rightarrow> (Inl (wrap CodeInternal ''persist wallet record'' e), st\<lparr>wu_db := db2, wu_keyring := o1\<rparr>)
               | (None, db2) \<Rightarrow> (Inr record, st\<lparr>wu_db := db2, wu_keyring := o1, wu_wallet := Some w\<rparr>))))"

definition importAndPersist ::
  "('k, 'h, 'p, 'a) crypto \<Rightarrow> 'o keyring \<Rightarrow> persist_env \<Rightarrow> string \<Rightarrow> string \<Rightarrow> string \<Rightarrow> ('k, 'o) wallet_state \<Rightarrow>
   (err + wallet_entity) \<times> ('k, 'o) wallet_state" where
  "importAndPersist cy kr env mnemonic secretType label st =
     (case NewWalletFromMnemonic cy mnemonic DefaultDerivationPath of
        Inl e \<Rightarrow> (Inl (wrap CodeInternal ''derive wallet'' e), st)
      | Inr w \<Rightarrow> persistWallet kr env w mnemonic secretType label st)"

text \<open>\<open>generated\<close> is the result of \<open>GenerateMnemonic\<close>.\<close>

definition GenerateWallet ::
  "('k, 'h, 'p, 'a) crypto \<Rightarrow> 'o keyring \<Rightarrow> persist_env \<Rightarrow> err + string \<Rightarrow> string \<Rightarrow> ('k, 'o) wallet_state \<Rightarrow>
   (err + address \<times> string) \<times> ('k, 'o) wallet_state" where
  "GenerateWallet cy kr env generated label st =
     (case generated of
        Inl e \<Rightarrow> (Inl (wrap CodeInternal ''generate mnemonic'' e), st)
      | Inr mnemonic \<Rightarrow>
        (case importAndPersist cy kr env mnemonic SecretTypeMnemonic label st of
           (Inl e, st') \<Rightarrow> (Inl e, st')
         | (Inr record, st') \<Rightarrow> (Inr (wa_Address record, mnemonic), st')))"

definition ImportMnemonic ::
  "('k, 'h, 'p, 'a) crypto \<Rightarrow> 'o keyring \<Rightarrow> persist_env \<Rightarrow> string \<Rightarrow> string \<Rightarrow> string \<Rightarrow> ('k, 'o) wallet_state \<Rightarrow>
   (err + wallet_entity) \<times> ('k, 'o) wallet_state" where
  "ImportMnemonic cy kr env mnemonic derivationPath label st =
     (if \<not> ValidateMnemonic cy mnemonic then (Inl (New CodeInvalidArgument ''invalid mnemonic phrase''), st)
      else (let path = (if derivationPath = '''' then DefaultDerivationPath else derivationPath) in
        case NewWalletFromMnemonic cy mnemonic path of
          Inl e \<Rightarrow> (Inl (wrap CodeInvalidArgument ''derive wallet from mnemonic'' e), st)
        | Inr w \<Rightarrow> persistWallet kr env w mnemonic SecretTypeMnemonic label st))"

definition ImportPrivateKey ::
  "('k, 'h, 'p, 'a) crypto \<Rightarrow> 'o keyring \<Rightarrow> persist_env \<Rightarrow> string \<Rightarrow> string \<Rightarrow> ('k, 'o) wallet_state \<Rightarrow>
   (err + wallet_entity) \<times> ('k, 'o) wallet_state" where
  "ImportPrivateKey cy kr env privateKeyHex label st =
     (case NewWalletFromHex cy privateKeyHex of
        Inl e \<Rightarrow> (Inl (wrap CodeInvalidArgument ''invalid private key'' e), st)
      | Inr w \<Rightarrow> persistWallet kr env w privateKeyHex SecretTypePrivateKey label st)"

definition ImportKeystore ::
  "('k, 'h, 'p, 'a) crypto \<Rightarrow> 'o keyring \<Rightarrow> persist_env \<Rightarrow> u8 list \<Rightarrow> string \<Rightarrow> string \<Rightarrow> ('k, 'o) wallet_state \<Rightarrow>
   (err + wallet_entity) \<times> ('k, 'o) wallet_state" where
  "ImportKeystore cy kr env keystoreJSON passphrase label st =
     (case NewWalletFromKeystore cy keystoreJSON passphrase of
        Inl e \<Rightarrow> (Inl (wrap CodeInvalidArgument ''decrypt keystore'' e), st)
      | Inr w \<Rightarrow> persistWallet kr env w (PrivateKeyHex cy w) SecretTypePrivateKey label st)"

definition RevealSecret ::
  "'o keyring \<Rightarrow> string \<Rightarrow> err option \<Rightarrow> ('k, 'o) wallet_state \<Rightarrow> err + string \<times> string" where
  "RevealSecret kr service fail st =
     (case keychain_Get kr service keychainKey (wu_keyring st) of
        Inl e \<Rightarrow> Inl (wrap CodeInternal ''read keychain'' e)
      | Inr secret \<Rightarrow> bindE (Get_wallet fail (wu_db st)) (\<lambda>record. Inr (secret, wa_SecretType record)))"

definition ErrNoWalletLoaded :: err where "ErrNoWalletLoaded = New CodeFailedPrecondition ''no wallet loaded''"

definition ExportKeystore_loaded :: "('k, 'h, 'p, 'a) crypto \<Rightarrow> string \<Rightarrow> 'k wallet option \<Rightarrow> err + u8 list" where
  "ExportKeystore_loaded cy passphrase loaded =
     (case loaded of None \<Rightarrow> Inl ErrNoWalletLoaded
      | Some w \<Rightarrow> mapE (\<lambda>e. wrap CodeInternal ''export keystore'' e) (ExportKeystore cy w passphrase))"

definition LoadedAddress :: "'k wallet option \<Rightarrow> address" where
  "LoadedAddress loaded = (case loaded of None \<Rightarrow> ZeroAddress | Some w \<Rightarrow> wl_address w)"

definition EthWallet :: "('k, 'o) wallet_state \<Rightarrow> 'k wallet option" where
  "EthWallet st = wu_wallet st"

section \<open>Laws\<close>

text \<open>The database after a reset: only the preferences stay.\<close>

definition wiped :: "wallet_db \<Rightarrow> wallet_db" where
  "wiped db = db\<lparr>db_watched_tokens := [], db_transactions := [], db_notifications := [], db_pending_txs := [],
     db_contacts := [], db_wallets := []\<rparr>"

lemma reset_loop_ok: "(\<forall>t \<in> set tables. fails t = None) \<Longrightarrow> reset_loop fails tables db = (None, fold delete_from tables db)"
  by (induction tables arbitrary: db) auto

lemma reset_loop_error: "(\<exists>t \<in> set tables. fails t \<noteq> None) \<Longrightarrow> fst (reset_loop fails tables db) \<noteq> None"
  by (induction tables arbitrary: db) (auto split: option.splits)

lemma delete_all_tables: "fold delete_from resetTables db = wiped db"
  by (cases db) (simp add: resetTables_def delete_from_def wiped_def)

text \<open>No statement of the reset fails.\<close>

definition reset_ok :: "reset_faults \<Rightarrow> bool" where
  "reset_ok faults = (rf_begin faults = None \<and> list_all (\<lambda>t. rf_tables faults t = None) resetTables
     \<and> rf_commit faults = None)"

lemma Reset_ok: "reset_ok faults \<Longrightarrow> Reset_wallet faults db = (None, wiped db)"
  by (simp add: reset_ok_def Reset_wallet_def WithTx_def list_all_iff reset_loop_ok delete_all_tables)

lemma Reset_failed:
  assumes "\<not> reset_ok faults"
  shows "\<exists>e. Reset_wallet faults db = (Some e, db)"
proof (cases "list_all (\<lambda>t. rf_tables faults t = None) resetTables")
  case True
  then have "reset_loop (rf_tables faults) resetTables db = (None, wiped db)"
    using reset_loop_ok [of resetTables "rf_tables faults" db] by (simp add: list_all_iff delete_all_tables)
  with True assms show ?thesis
    by (cases "rf_begin faults"; cases "rf_commit faults") (simp_all add: reset_ok_def Reset_wallet_def WithTx_def)
next
  case False
  then have "fst (reset_loop (rf_tables faults) resetTables db) \<noteq> None"
    by (intro reset_loop_error) (simp add: list_all_iff)
  then obtain e db1 where "reset_loop (rf_tables faults) resetTables db = (Some e, db1)"
    by (metis option.exhaust prod.collapse)
  then show ?thesis by (cases "rf_begin faults") (simp_all add: Reset_wallet_def WithTx_def)
qed

lemma Reset_cases:
  obtains (emptied) "reset_ok faults" "Reset_wallet faults db = (None, wiped db)"
    | (failed) e where "\<not> reset_ok faults" "Reset_wallet faults db = (Some e, db)"
  using Reset_ok Reset_failed by blast

text \<open>
  Replacing a wallet wipes everything that belongs to the old one in one step: either no
  statement failed and the watchlist, the history, the notifications, the pending transactions,
  the contacts and the wallet record are all empty with the preferences untouched, or some
  statement (or the begin or the commit) failed, there is an error, and nothing has changed.
\<close>

theorem reset_atomic:
  "snd (Reset_wallet faults db) = (if fst (Reset_wallet faults db) = None then wiped db else db)
   \<and> (fst (Reset_wallet faults db) = None) = reset_ok faults"
  by (rule Reset_cases [of faults db]) simp_all

definition row_of_wallet :: "checksum \<Rightarrow> wallet_entity \<Rightarrow> wallet_row" where
  "row_of_wallet ck w = \<lparr>wr_id = wa_ID w, wr_address = Hex ck (wa_Address w), wr_label = wa_Label w,
     wr_secret_type = wa_SecretType w, wr_created_at = wa_CreatedAt w\<rparr>"

lemma Save_wallet_wiped:
  "Save_wallet ck fail w (wiped db) = (case fail of Some e \<Rightarrow> (Some (wrap CodeInternal ''save wallet'' e), wiped db)
     | None \<Rightarrow> (None, (wiped db)\<lparr>db_wallets := [row_of_wallet ck w]\<rparr>))"
  by (cases fail) (simp_all add: Save_wallet_def wiped_def row_of_wallet_def)

lemma Get_wallet_saved: "Get_wallet None ((wiped db)\<lparr>db_wallets := [row_of_wallet ck w]\<rparr>) = Inr w"
  by (cases w) (simp add: Get_wallet_def row_of_wallet_def scan_wallet_def)

lemma Get_wallet_wiped: "Get_wallet None (wiped db) = Inl ErrNotFound_wallet"
  by (simp add: Get_wallet_def wiped_def ErrNoRows_def)

text \<open>The record a persisting writes, and how a persisting can end.\<close>

definition new_record :: "persist_env \<Rightarrow> 'k wallet \<Rightarrow> string \<Rightarrow> string \<Rightarrow> wallet_entity" where
  "new_record env w secretType label = \<lparr>wa_ID = pe_ulid env, wa_Address = wl_address w, wa_Label = label,
     wa_SecretType = secretType, wa_CreatedAt = pe_now env\<rparr>"

lemma persistWallet_cases:
  obtains (kept) e where "\<not> reset_ok (pe_reset env)" "persistWallet kr env w secret secretType label st = (Inl e, st)"
    | (lost) e o1 where "reset_ok (pe_reset env)"
        "persistWallet kr env w secret secretType label st = (Inl e, st\<lparr>wu_db := wiped (wu_db st), wu_keyring := o1\<rparr>)"
    | (stored) o1 where "reset_ok (pe_reset env)" "kr_Set kr (pe_service env) keychainKey secret (wu_keyring st) = (None, o1)"
        "persistWallet kr env w secret secretType label st = (Inr (new_record env w secretType label),
           st\<lparr>wu_db := (wiped (wu_db st))\<lparr>db_wallets := [row_of_wallet (pe_ck env) (new_record env w secretType label)]\<rparr>,
              wu_keyring := o1, wu_wallet := Some w\<rparr>)"
proof (cases rule: Reset_cases [of "pe_reset env" "wu_db st"])
  case (failed e)
  then show thesis by (intro kept) (simp_all add: persistWallet_def)
next
  case emptied
  obtain res o1 where s: "kr_Set kr (pe_service env) keychainKey secret (wu_keyring st) = (res, o1)" by force
  show thesis
  proof (cases res)
    case (Some e)
    with emptied s show thesis by (intro lost) (simp_all add: persistWallet_def keychain_Set_def)
  next
    case res: None
    show thesis
    proof (cases "pe_save env")
      case (Some e)
      with emptied s res show thesis
        by (intro lost) (simp_all add: persistWallet_def keychain_Set_def Save_wallet_wiped)
    next
      case None
      with emptied s res show thesis
        by (intro stored) (simp_all add: persistWallet_def keychain_Set_def Save_wallet_wiped new_record_def Let_def)
    qed
  qed
qed

section \<open>Imports and restarts\<close>

text \<open>The ways a wallet comes in, as one operation; a generated wallet carries its fresh mnemonic.\<close>

datatype wallet_import =
    From_private_key string
  | From_mnemonic string string
  | From_keystore "u8 list" string
  | From_generated string

fun import_wallet ::
  "('k, 'h, 'p, 'a) crypto \<Rightarrow> 'o keyring \<Rightarrow> persist_env \<Rightarrow> wallet_import \<Rightarrow> string \<Rightarrow> ('k, 'o) wallet_state \<Rightarrow>
   err option \<times> ('k, 'o) wallet_state" where
  "import_wallet cy kr env (From_private_key k) label st = apfst error_of (ImportPrivateKey cy kr env k label st)"
| "import_wallet cy kr env (From_mnemonic m path) label st = apfst error_of (ImportMnemonic cy kr env m path label st)"
| "import_wallet cy kr env (From_keystore j pass) label st = apfst error_of (ImportKeystore cy kr env j pass label st)"
| "import_wallet cy kr env (From_generated m) label st = apfst error_of (GenerateWallet cy kr env (Inr m) label st)"

text \<open>The wallet an import derives, the secret it stores, and the type of that secret.\<close>

fun derived :: "('k, 'h, 'p, 'a) crypto \<Rightarrow> wallet_import \<Rightarrow> 'k wallet option" where
  "derived cy (From_private_key k) = ok_of (NewWalletFromHex cy k)"
| "derived cy (From_mnemonic m path) =
     (if ValidateMnemonic cy m
      then ok_of (NewWalletFromMnemonic cy m (if path = '''' then DefaultDerivationPath else path)) else None)"
| "derived cy (From_keystore j pass) = ok_of (NewWalletFromKeystore cy j pass)"
| "derived cy (From_generated m) = ok_of (NewWalletFromMnemonic cy m DefaultDerivationPath)"

fun stored_secret :: "('k, 'h, 'p, 'a) crypto \<Rightarrow> wallet_import \<Rightarrow> 'k wallet \<Rightarrow> string" where
  "stored_secret cy (From_private_key k) w = k"
| "stored_secret cy (From_mnemonic m path) w = m"
| "stored_secret cy (From_keystore j pass) w = PrivateKeyHex cy w"
| "stored_secret cy (From_generated m) w = m"

fun stored_type :: "wallet_import \<Rightarrow> string" where
  "stored_type (From_private_key k) = SecretTypePrivateKey"
| "stored_type (From_mnemonic m path) = SecretTypeMnemonic"
| "stored_type (From_keystore j pass) = SecretTypePrivateKey"
| "stored_type (From_generated m) = SecretTypeMnemonic"

text \<open>Every import either rejects its input or persists what it derives.\<close>

lemma import_wallet_unfold:
  "import_wallet cy kr env imp label st =
     (case derived cy imp of
        None \<Rightarrow> (fst (import_wallet cy kr env imp label st), st)
      | Some w \<Rightarrow> apfst error_of
          (persistWallet kr env w (stored_secret cy imp w) (stored_type imp) label st))"
  by (cases imp)
    (auto simp: ImportPrivateKey_def ImportMnemonic_def ImportKeystore_def GenerateWallet_def importAndPersist_def
      Let_def split: sum.splits prod.splits)

lemma import_wallet_rejected: "derived cy imp = None \<Longrightarrow> \<exists>e. import_wallet cy kr env imp label st = (Some e, st)"
  by (cases imp)
    (auto simp: ImportPrivateKey_def ImportMnemonic_def ImportKeystore_def GenerateWallet_def importAndPersist_def
      Let_def split: sum.splits if_splits)

lemma import_wallet_ok:
  assumes "derived cy imp = Some w" "reset_ok (pe_reset env)" "pe_save env = None"
    and "kr_Set kr (pe_service env) keychainKey (stored_secret cy imp w) (wu_keyring st) = (None, o1)"
  shows "fst (import_wallet cy kr env imp label st) = None"
  using import_wallet_unfold [of cy kr env imp label st] assms
  by (simp add: persistWallet_def Reset_ok keychain_Set_def Save_wallet_wiped Let_def)

text \<open>The wallet that the stored secret gives back on a later start.\<close>

fun reloaded :: "('k, 'h, 'p, 'a) crypto \<Rightarrow> wallet_import \<Rightarrow> 'k wallet \<Rightarrow> err + 'k wallet" where
  "reloaded cy (From_mnemonic m path) w =
     (if path = '''' \<or> path = DefaultDerivationPath then Inr w
      else mapE (wrap CodeInternal ''restore wallet from mnemonic'') (NewWalletFromMnemonic cy m DefaultDerivationPath))"
| "reloaded cy imp w = Inr w"

definition restarted :: "('k, 'o) wallet_state \<Rightarrow> ('k, 'o) wallet_state" where
  "restarted st = st\<lparr>wu_wallet := None\<rparr>"

lemma LoadFromKeychain_stored:
  assumes "derived cy imp = Some w" "\<And>pk. key_law cy pk"
    and "Get_wallet None db = Inr (new_record env w (stored_type imp) label)"
    and "kr_Get kr service keychainKey o1 = Inr (stored_secret cy imp w)"
  shows "LoadFromKeychain cy kr service quote None \<lparr>wu_db = db, wu_keyring = o1, wu_wallet = None\<rparr> =
     (case reloaded cy imp w of
        Inl e \<Rightarrow> (Some e, \<lparr>wu_db = db, wu_keyring = o1, wu_wallet = None\<rparr>)
      | Inr v \<Rightarrow> (None, \<lparr>wu_db = db, wu_keyring = o1, wu_wallet = Some v\<rparr>))"
proof -
  have keystore: "NewWalletFromHex cy (PrivateKeyHex cy w) = Inr w" if "NewWalletFromKeystore cy j pass = Inr w" for j pass
    using that assms(2) by (auto simp: NewWalletFromKeystore_def bindE_Inr_iff intro: NewWalletFromHex_PrivateKeyHex)
  have types: "SecretTypePrivateKey \<noteq> SecretTypeMnemonic"
    by (simp add: SecretTypePrivateKey_def SecretTypeMnemonic_def)
  note load = LoadFromKeychain_def keychain_Get_def new_record_def assms(3,4)
  show ?thesis
  proof (cases imp)
    case (From_mnemonic m path)
    with assms show ?thesis
      by (cases "NewWalletFromMnemonic cy m DefaultDerivationPath")
        (auto simp: load mapE_def split: if_splits)
  next
    case (From_keystore j pass)
    with assms keystore [of j pass] types show ?thesis by (auto simp: load)
  qed (use assms types in \<open>auto simp: load\<close>)
qed

lemma Get_wallet_row: "db_wallets db = [row_of_wallet ck w] \<Longrightarrow> Get_wallet None db = Inr w"
  by (cases w) (simp add: Get_wallet_def row_of_wallet_def scan_wallet_def)

text \<open>What an import that succeeds leaves: the wallet in memory, its record alone, and its secret.\<close>

lemma import_leaves:
  assumes "import_wallet cy kr env imp label st = (None, st')" "derived cy imp = Some w"
  shows "wu_wallet st' = Some w"
    and "db_wallets (wu_db st') = [row_of_wallet (pe_ck env) (new_record env w (stored_type imp) label)]"
    and "kr_Set kr (pe_service env) keychainKey (stored_secret cy imp w) (wu_keyring st) = (None, wu_keyring st')"
proof -
  from assms import_wallet_unfold [of cy kr env imp label st]
  have "apfst error_of (persistWallet kr env w (stored_secret cy imp w) (stored_type imp) label st) = (None, st')" by simp
  then obtain o1 where "kr_Set kr (pe_service env) keychainKey (stored_secret cy imp w) (wu_keyring st) = (None, o1)"
    and "st' = st\<lparr>wu_db := (wiped (wu_db st))\<lparr>db_wallets := [row_of_wallet (pe_ck env) (new_record env w (stored_type imp) label)]\<rparr>,
      wu_keyring := o1, wu_wallet := Some w\<rparr>"
    by (cases rule: persistWallet_cases [of env kr w "stored_secret cy imp w" "stored_type imp" label st]) auto
  then show "wu_wallet st' = Some w"
    "db_wallets (wu_db st') = [row_of_wallet (pe_ck env) (new_record env w (stored_type imp) label)]"
    "kr_Set kr (pe_service env) keychainKey (stored_secret cy imp w) (wu_keyring st) = (None, wu_keyring st')"
    by simp_all
qed

text \<open>
  C8. An import that succeeds survives the end of the process: a later start, with nothing in
  memory, reads the record and the secret back and loads the wallet that was imported - for a
  private key, a keystore (whose key is stored in hex), a generated mnemonic, and a mnemonic
  with the default path. For a mnemonic imported with another derivation path it loads the
  wallet of the default path instead, which is another account. The stored secret is the one
  that was imported and can be revealed.
\<close>

theorem import_survives_restart:
  assumes "import_wallet cy kr env imp label st = (None, st')"
    and "\<And>pk. key_law cy pk"
    and "\<And>o1 o2. kr_Set kr (pe_service env) keychainKey (stored_secret cy imp w) o1 = (None, o2) \<Longrightarrow>
           kr_Get kr (pe_service env) keychainKey o2 = Inr (stored_secret cy imp w)"
    and "derived cy imp = Some w"
  shows "wu_wallet st' = Some w
    \<and> LoadFromKeychain cy kr (pe_service env) quote None (restarted st') =
      (case reloaded cy imp w of Inl e \<Rightarrow> (Some e, restarted st') | Inr v \<Rightarrow> (None, st'\<lparr>wu_wallet := Some v\<rparr>))
    \<and> RevealSecret kr (pe_service env) None st' = Inr (stored_secret cy imp w, stored_type imp)"
proof -
  note left = import_leaves [OF assms(1,4)]
  have get: "kr_Get kr (pe_service env) keychainKey (wu_keyring st') = Inr (stored_secret cy imp w)"
    using left(3) assms(3) by blast
  have row: "Get_wallet None (wu_db st') = Inr (new_record env w (stored_type imp) label)"
    using left(2) by (rule Get_wallet_row)
  have "LoadFromKeychain cy kr (pe_service env) quote None (restarted st') =
      (case reloaded cy imp w of Inl e \<Rightarrow> (Some e, restarted st') | Inr v \<Rightarrow> (None, st'\<lparr>wu_wallet := Some v\<rparr>))"
    using LoadFromKeychain_stored [OF assms(4,2) row get, where quote = quote]
    by (cases st') (simp add: restarted_def split: sum.split)
  moreover have "RevealSecret kr (pe_service env) None st' = Inr (stored_secret cy imp w, stored_type imp)"
    by (simp add: RevealSecret_def keychain_Get_def get row new_record_def)
  ultimately show ?thesis using left(1) by simp
qed

text \<open>Libraries to evaluate the model with: a key is its bytes, its address their number.\<close>

definition example_crypto :: "(u8 list, string, string, string) crypto" where
  "example_crypto = \<lparr>cy_ToECDSA = Inr, cy_FromECDSA = (\<lambda>pk. pk), cy_PubkeyAddress = (\<lambda>pk. Some (word_of_nat (length pk))),
     cy_DecryptKey = (\<lambda>j pass. Inr j), cy_EncryptKey = (\<lambda>a pk pass. Inr pk), cy_Keccak256 = (\<lambda>bs. bs),
     cy_Sign = (\<lambda>bs pk. Inr bs), cy_NewFromMnemonic = Inr, cy_ParsePath = Inr, cy_Derive = (\<lambda>w p. Inr (w @ p)),
     cy_PrivateKey = (\<lambda>w a. Inr (bytes_of a)), cy_IsMnemonicValid = (\<lambda>m. m \<noteq> ''''), cy_BadHex = (\<lambda>c. Sentinel [c])\<rparr>"

definition example_keyring :: "string option keyring" where
  "example_keyring = \<lparr>kr_Set = (\<lambda>service key secret o1. (None, Some secret)),
     kr_Get = (\<lambda>service key o1. case o1 of None \<Rightarrow> Inl keyring_ErrNotFound | Some secret \<Rightarrow> Inr secret),
     kr_Delete = (\<lambda>service key o1. (None, None))\<rparr>"

definition example_persist_env :: persist_env where
  "example_persist_env = \<lparr>pe_ck = (\<lambda>a i. False), pe_service = defaultService,
     pe_reset = \<lparr>rf_begin = None, rf_tables = (\<lambda>t. None), rf_commit = None\<rparr>, pe_save = None, pe_ulid = ''01'', pe_now = 1\<rparr>"

definition example_state :: "(u8 list, string option) wallet_state" where
  "example_state = \<lparr>wu_db = \<lparr>db_watched_tokens = [], db_transactions = [], db_notifications = [], db_pending_txs = [],
     db_contacts = [], db_wallets = [], db_settings = None\<rparr>, wu_keyring = None, wu_wallet = None\<rparr>"

text \<open>A mnemonic imported with the path \<open>m\<close>: a later start loads the account of the default path.\<close>

lemma import_survives_restart_witness:
  "\<exists>st'. import_wallet example_crypto example_keyring example_persist_env (From_mnemonic ''abc'' ''m'') ''main'' example_state = (None, st')
     \<and> map_option wl_address (wu_wallet st') = Some 4
     \<and> (\<exists>st''. LoadFromKeychain example_crypto example_keyring defaultService (\<lambda>s. s) None (restarted st') = (None, st'')
         \<and> map_option wl_address (wu_wallet st'') = Some 19)"
proof -
  let ?w = "\<lparr>wl_privateKey = bytes_of ''abcm'', wl_address = 4\<rparr>"
  let ?v = "\<lparr>wl_privateKey = bytes_of (''abc'' @ DefaultDerivationPath), wl_address = 19\<rparr>"
  obtain r st' where run: "import_wallet example_crypto example_keyring example_persist_env (From_mnemonic ''abc'' ''m'') ''main'' example_state = (r, st')"
    by force
  have d: "derived example_crypto (From_mnemonic ''abc'' ''m'') = Some ?w"
    and v: "reloaded example_crypto (From_mnemonic ''abc'' ''m'') ?w = Inr ?v"
    by (simp_all add: example_crypto_def ValidateMnemonic_def NewWalletFromMnemonic_def newWalletFromECDSA_def bytes_of_def
      DefaultDerivationPath_def mapE_def)
  have "r = None"
    using run import_wallet_ok [OF d, of example_persist_env example_keyring example_state _ "''main''"]
    by (simp add: reset_ok_def example_persist_env_def example_keyring_def list_all_iff)
  with import_survives_restart [of example_crypto example_keyring example_persist_env "From_mnemonic ''abc'' ''m''" "''main''" example_state st' ?w "\<lambda>s. s"]
    run d v show ?thesis
    by (simp add: key_law_def example_crypto_def example_keyring_def example_persist_env_def)
qed

text \<open>
  C21. How an import ends. Input that derives no wallet, and a reset that fails, leave the
  database, the keychain and the wallet in memory as they were. Once the reset is committed the
  old wallet's data is gone for good: the import then either succeeds, with exactly the new record
  in the database and the new wallet in memory, or fails at the keychain or at the record with
  the old wallet still in memory - and then the next start finds no record and loads none.
\<close>

theorem import_outcome:
  "case import_wallet cy kr env imp label st of (r, st') \<Rightarrow>
     if derived cy imp = None then r \<noteq> None \<and> st' = st
     else if \<not> reset_ok (pe_reset env) then r \<noteq> None \<and> st' = st
     else if r = None
     then wu_wallet st' = derived cy imp
        \<and> wu_db st' = (wiped (wu_db st))\<lparr>db_wallets := [row_of_wallet (pe_ck env)
            (new_record env (the (derived cy imp)) (stored_type imp) label)]\<rparr>
     else wu_wallet st' = wu_wallet st \<and> wu_db st' = wiped (wu_db st)
        \<and> LoadFromKeychain cy kr (pe_service env) quote None (restarted st') = (None, restarted st')"
proof (cases "derived cy imp")
  case None
  from import_wallet_rejected [OF this, of kr env label st] None show ?thesis by auto
next
  case (Some w)
  have load: "LoadFromKeychain cy kr (pe_service env) quote None (restarted (st\<lparr>wu_db := wiped (wu_db st), wu_keyring := o1\<rparr>))
      = (None, restarted (st\<lparr>wu_db := wiped (wu_db st), wu_keyring := o1\<rparr>))" for o1
    by (simp add: LoadFromKeychain_def restarted_def Get_wallet_wiped ErrNotFound_wallet_def New_def)
  have unfold: "import_wallet cy kr env imp label st =
      apfst error_of (persistWallet kr env w (stored_secret cy imp w) (stored_type imp) label st)"
    using import_wallet_unfold [of cy kr env imp label st] Some by simp
  show ?thesis unfolding unfold
    by (cases rule: persistWallet_cases [of env kr w "stored_secret cy imp w" "stored_type imp" label st])
      (use Some load in \<open>simp_all\<close>)
qed

end
