(* ===== verification/Wallet_Usecase.thy ===== *)
theory Wallet_Usecase
  imports Wallets Simulate
begin

text \<open>
  internal/usecase/wallet/usecase.go and dto.go, the operations on the loaded wallet: balances
  and fees, names, simulations, sends, replacements and the list of pending transactions. The
  client's operations are those of pkg/ethkit; those the usecase only passes on are arguments.
\<close>

section \<open>Results and parameters\<close>

record token_balance =
  tb_Token :: token
  tb_Balance :: amount

record balances_result =
  br_ETH :: amount
  br_Tokens :: "token_balance list"

record gas_fees_result =
  gf_GasInfo :: gas_info
  gf_TransferETH :: amount
  gf_BlockNumber :: u64
  gf_ChainID :: int

record gas_override =
  go_PriorityGwei :: "decimal option"
  go_MaxGwei :: "decimal option"

definition IsZero_override :: "gas_override \<Rightarrow> bool" where
  "IsZero_override g \<longleftrightarrow> go_PriorityGwei g = None \<and> go_MaxGwei g = None"

record send_eth_params =
  ep_To :: address
  ep_Value :: amount
  ep_Gas :: gas_override

record send_token_params =
  pt_TokenAddress :: address
  pt_To :: address
  pt_Amount :: decimal
  pt_Gas :: gas_override

section \<open>Reading\<close>

definition GetWallet :: "err option \<Rightarrow> wallet_db \<Rightarrow> err + wallet_entity" where
  "GetWallet fail db = Get_wallet fail db"

text \<open>A token whose balance cannot be read is left out.\<close>

fun token_balances :: "(token \<Rightarrow> err + amount) \<Rightarrow> token list \<Rightarrow> token_balance list" where
  "token_balances balance [] = []"
| "token_balances balance (t # ts) =
     (case balance t of
        Inl e \<Rightarrow> token_balances balance ts
      | Inr bal \<Rightarrow> \<lparr>tb_Token = t, tb_Balance = bal\<rparr> # token_balances balance ts)"

definition GetBalances ::
  "(address \<Rightarrow> err + amount) \<Rightarrow> (address \<Rightarrow> token \<Rightarrow> err + amount) \<Rightarrow> address \<Rightarrow> token list \<Rightarrow> err + balances_result" where
  "GetBalances ethBalance balance addr tokens =
     (case ethBalance addr of
        Inl e \<Rightarrow> Inl (wrap CodeInternal ''eth balance'' e)
      | Inr eth \<Rightarrow> Inr \<lparr>br_ETH = eth, br_Tokens = token_balances (balance addr) tokens\<rparr>)"

text \<open>The chain id is cut to an int64.\<close>

definition GetGasFees :: "err + gas_info \<Rightarrow> err + u64 \<Rightarrow> int option \<Rightarrow> err + gas_fees_result" where
  "GetGasFees gasFees blockNumber chainID =
     (case gasFees of
        Inl e \<Rightarrow> Inl (wrap CodeInternal ''gas fees'' e)
      | Inr info \<Rightarrow> (case blockNumber of
          Inl e \<Rightarrow> Inl (wrap CodeInternal ''block number'' e)
        | Inr num \<Rightarrow> Inr \<lparr>gf_GasInfo = info, gf_TransferETH = EstimatedCost info 21000, gf_BlockNumber = num,
            gf_ChainID = (case chainID of None \<Rightarrow> 0 | Some i \<Rightarrow> sint (word_of_int i :: u64))\<rparr>))"

definition ResolveENS_wallet :: "err + address \<Rightarrow> err + address" where
  "ResolveENS_wallet answer =
     (case answer of
        Inl e \<Rightarrow> if Is e ErrENSNotFound then Inl (New CodeNotFound ''ENS name not found'')
                 else Inl (wrap CodeInternal ''resolve ENS'' e)
      | Inr addr \<Rightarrow> Inr addr)"

definition ReverseENS_wallet :: "err + string \<Rightarrow> err + string" where
  "ReverseENS_wallet answer =
     (case answer of
        Inl e \<Rightarrow> if Is e ErrENSNotFound then Inl (New CodeNotFound ''no ENS record'')
                 else Inl (wrap CodeInternal ''reverse ENS'' e)
      | Inr name \<Rightarrow> Inr name)"

definition ListPending :: "(address \<Rightarrow> pending_tx list) \<Rightarrow> 'k wallet option \<Rightarrow> pending_tx list" where
  "ListPending pendingFor loaded =
     (case loaded of None \<Rightarrow> [] | Some w \<Rightarrow> pendingFor (wl_address w))"

section \<open>Simulations\<close>

text \<open>\<open>simulate\<close> is the client's \<open>SimulateTx\<close>.\<close>

definition plain_request :: tx_request where
  "plain_request = \<lparr>rq_To = 0, rq_Value = Amount None, rq_Data = [], rq_GasLimit = 0, rq_GasTip = None,
     rq_GasCap = None, rq_Kind = ''''\<rparr>"

definition SimulateSendETH ::
  "(address \<Rightarrow> tx_request \<Rightarrow> (err, simulation_result) outcome) \<Rightarrow> 'k wallet option \<Rightarrow> address \<Rightarrow> amount \<Rightarrow>
   (err, simulation_result) outcome" where
  "SimulateSendETH simulate loaded to value =
     (case loaded of None \<Rightarrow> Failed ErrNoWalletLoaded
      | Some w \<Rightarrow> simulate (wl_address w) (plain_request\<lparr>rq_To := to, rq_Value := value\<rparr>))"

definition SimulateSendToken ::
  "(address \<Rightarrow> tx_request \<Rightarrow> (err, simulation_result) outcome) \<Rightarrow> packer \<Rightarrow> (address \<Rightarrow> err + token) \<Rightarrow>
   'k wallet option \<Rightarrow> address \<Rightarrow> address \<Rightarrow> decimal \<Rightarrow> (err, simulation_result) outcome" where
  "SimulateSendToken simulate pack metadata loaded tokenAddr to amount =
     (case loaded of None \<Rightarrow> Failed ErrNoWalletLoaded
      | Some w \<Rightarrow> (case metadata tokenAddr of
          Inl e \<Rightarrow> Failed (wrap CodeInternal ''token metadata'' e)
        | Inr token \<Rightarrow> (case NewAmountFromTokenUnits amount (tk_Decimals token) of
            None \<Rightarrow> Panicked
          | Some wei \<Rightarrow> (case PackERC20Transfer pack to wei of
              Inl e \<Rightarrow> Failed (wrap CodeInternal ''pack erc20 transfer'' e)
            | Inr data \<Rightarrow> simulate (wl_address w) (plain_request\<lparr>rq_To := tk_Address token, rq_Data := data\<rparr>)))))"

section \<open>Replacements\<close>

text \<open>\<open>replace\<close> is the client's \<open>SpeedUpTx\<close> or \<open>CancelTx\<close> for the address and the hash.\<close>

definition SpeedUpTx_wallet ::
  "(address \<Rightarrow> string \<Rightarrow> 's client \<Rightarrow> (err + string) \<times> 's client) \<Rightarrow> 'k wallet option \<Rightarrow> string \<Rightarrow> 's client \<Rightarrow>
   (err + string) \<times> 's client" where
  "SpeedUpTx_wallet replace loaded hash c =
     (case loaded of None \<Rightarrow> (Inl ErrNoWalletLoaded, c)
      | Some w \<Rightarrow> (case replace (wl_address w) hash c of
          (Inl e, c') \<Rightarrow> (Inl (wrap CodeInternal ''speed up tx'' e), c')
        | (Inr newHash, c') \<Rightarrow> (Inr newHash, c')))"

definition CancelTx_wallet ::
  "(address \<Rightarrow> string \<Rightarrow> 's client \<Rightarrow> (err + string) \<times> 's client) \<Rightarrow> 'k wallet option \<Rightarrow> string \<Rightarrow> 's client \<Rightarrow>
   (err + string) \<times> 's client" where
  "CancelTx_wallet replace loaded hash c =
     (case loaded of None \<Rightarrow> (Inl ErrNoWalletLoaded, c)
      | Some w \<Rightarrow> (case replace (wl_address w) hash c of
          (Inl e, c') \<Rightarrow> (Inl (wrap CodeInternal ''cancel tx'' e), c')
        | (Inr newHash, c') \<Rightarrow> (Inr newHash, c')))"

section \<open>Sends\<close>

text \<open>The conversions of gwei panic (\<open>None\<close>) where the decimal library does.\<close>

definition gwei_amount :: "decimal option \<Rightarrow> amount option option" where
  "gwei_amount gwei = (case gwei of None \<Rightarrow> Some None | Some d \<Rightarrow> map_option Some (NewAmountFromGwei d))"

definition gasOverrideToAmounts :: "gas_override \<Rightarrow> (amount option \<times> amount option) option" where
  "gasOverrideToAmounts g =
     (case gwei_amount (go_PriorityGwei g) of None \<Rightarrow> None
      | Some tip \<Rightarrow> (case gwei_amount (go_MaxGwei g) of None \<Rightarrow> None
          | Some gasCap \<Rightarrow> Some (tip, gasCap)))"

definition ToTipCap :: "gas_override \<Rightarrow> (amount option \<times> amount option) option" where
  "ToTipCap g =
     (case gwei_amount (go_PriorityGwei g) of None \<Rightarrow> None
      | Some tip \<Rightarrow> (case gwei_amount (go_MaxGwei g) of None \<Rightarrow> None
          | Some gasCap \<Rightarrow> Some (tip, gasCap)))"

text \<open>A call that has not returned yet is \<open>None\<close>, as in the client.\<close>

fun returned :: "(err + 'a) option \<Rightarrow> (err, 'a) outcome option" where
  "returned None = None"
| "returned (Some (Inl e)) = Some (Failed e)"
| "returned (Some (Inr v)) = Some (Returned v)"

definition eth_request :: "send_eth_params \<Rightarrow> amount option \<Rightarrow> amount option \<Rightarrow> tx_request" where
  "eth_request p tip gasCap = \<lparr>rq_To = ep_To p, rq_Value = ep_Value p, rq_Data = [], rq_GasLimit = 0,
     rq_GasTip = tip, rq_GasCap = gasCap, rq_Kind = ''send''\<rparr>"

definition SendETH ::
  "(pending_tx \<Rightarrow> 's \<Rightarrow> 's) \<Rightarrow> (time \<Rightarrow> time \<Rightarrow> string \<Rightarrow> 's \<Rightarrow> 's) \<Rightarrow> send_env \<Rightarrow> 'k wallet option \<Rightarrow>
   send_eth_params \<Rightarrow> 's client \<Rightarrow> (err, tx_receipt) outcome option \<times> 's client" where
  "SendETH add remove env loaded p c =
     (case loaded of None \<Rightarrow> (Some (Failed ErrNoWalletLoaded), c)
      | Some w \<Rightarrow> (case gasOverrideToAmounts (ep_Gas p) of
          None \<Rightarrow> (Some Panicked, c)
        | Some (tip, gasCap) \<Rightarrow> apfst returned (SendTx add remove env (wl_address w) (eth_request p tip gasCap) c)))"

definition SendToken ::
  "(pending_tx \<Rightarrow> 's \<Rightarrow> 's) \<Rightarrow> (time \<Rightarrow> time \<Rightarrow> string \<Rightarrow> 's \<Rightarrow> 's) \<Rightarrow> packer \<Rightarrow> (address \<Rightarrow> err + token) \<Rightarrow> send_env \<Rightarrow>
   'k wallet option \<Rightarrow> send_token_params \<Rightarrow> 's client \<Rightarrow> (err, tx_receipt) outcome option \<times> 's client" where
  "SendToken add remove pack metadata env loaded p c =
     (case loaded of None \<Rightarrow> (Some (Failed ErrNoWalletLoaded), c)
      | Some w \<Rightarrow> (case metadata (pt_TokenAddress p) of
          Inl e \<Rightarrow> (Some (Failed (wrap CodeInternal ''token metadata'' e)), c)
        | Inr token \<Rightarrow> (case NewAmountFromTokenUnits (pt_Amount p) (tk_Decimals token) of
            None \<Rightarrow> (Some Panicked, c)
          | Some amount \<Rightarrow> (case gasOverrideToAmounts (pt_Gas p) of
              None \<Rightarrow> (Some Panicked, c)
            | Some (tip, gasCap) \<Rightarrow>
                apfst returned (TransferTokenWithGas add remove pack env (wl_address w) token (pt_To p) amount tip gasCap c)))))"

section \<open>Laws\<close>

text \<open>What a send hands to the node is nothing, or the one transaction built from its request.\<close>

lemma SendTx_broadcast:
  "snd (SendTx add remove env addr req c) = c' \<Longrightarrow> cl_broadcast c' = cl_broadcast c \<or>
   (\<exists>nonce gas info. cl_broadcast c' = cl_broadcast c @ [build_tx (cl_chainID c) nonce gas info req])"
  by (auto simp: SendTx_def Let_def split: sum.splits prod.splits option.splits; blast)

lemma TransferTokenWithGas_broadcast:
  assumes "snd (TransferTokenWithGas add remove pack env addr token to amount tip gasCap c) = c'"
  shows "cl_broadcast c' = cl_broadcast c \<or>
   (\<exists>nonce gas info data. pack (Transfer to (Wei amount)) = Inr data \<and>
      cl_broadcast c' = cl_broadcast c @ [build_tx (cl_chainID c) nonce gas info (transfer_request token data tip gasCap)])"
proof (cases "pack (Transfer to (Wei amount))")
  case (Inl e)
  with assms show ?thesis by (auto simp: TransferTokenWithGas_def)
next
  case (Inr data)
  with assms have "snd (SendTx add remove env addr (transfer_request token data tip gasCap) c) = c'"
    by (simp add: TransferTokenWithGas_def)
  from SendTx_broadcast [OF this] Inr show ?thesis by blast
qed

text \<open>
  What a token send lets out. Without a loaded wallet, with unreadable metadata or an
  amount that cannot be scaled, nothing is handed to the node. Otherwise at most one
  transaction is: to the token's contract, carrying no ether, whose data is the packed
  transfer of the typed amount scaled by the token's own on-chain decimals to the typed
  recipient, under the typed tip and fee cap where they are set.
\<close>

theorem SendToken_broadcasts:
  "case SendToken add remove pack metadata env loaded p c of (r, c') \<Rightarrow>
     cl_broadcast c' = cl_broadcast c
   \<or> (\<exists>w token amount tip gasCap tx. loaded = Some w \<and> metadata (pt_TokenAddress p) = Inr token
      \<and> NewAmountFromTokenUnits (pt_Amount p) (tk_Decimals token) = Some amount
      \<and> gasOverrideToAmounts (pt_Gas p) = Some (tip, gasCap)
      \<and> cl_broadcast c' = cl_broadcast c @ [tx]
      \<and> dt_To tx = Some (tk_Address token) \<and> dt_Value tx = 0
      \<and> pack (Transfer (pt_To p) (Wei amount)) = Inr (dt_Data tx)
      \<and> (case tip of None \<Rightarrow> True | Some t \<Rightarrow> dt_GasTipCap tx = Wei t)
      \<and> (case gasCap of None \<Rightarrow> True | Some g \<Rightarrow> dt_GasFeeCap tx = Wei g))"
proof (cases "\<exists>w token amount tip gasCap. loaded = Some w \<and> metadata (pt_TokenAddress p) = Inr token
      \<and> NewAmountFromTokenUnits (pt_Amount p) (tk_Decimals token) = Some amount
      \<and> gasOverrideToAmounts (pt_Gas p) = Some (tip, gasCap)")
  case True
  then obtain w token amount tip gasCap where * : "loaded = Some w" "metadata (pt_TokenAddress p) = Inr token"
      "NewAmountFromTokenUnits (pt_Amount p) (tk_Decimals token) = Some amount"
      "gasOverrideToAmounts (pt_Gas p) = Some (tip, gasCap)" by blast
  let ?good = "\<lambda>tx. dt_To tx = Some (tk_Address token) \<and> dt_Value tx = 0
      \<and> pack (Transfer (pt_To p) (Wei amount)) = Inr (dt_Data tx)
      \<and> (case tip of None \<Rightarrow> True | Some t \<Rightarrow> dt_GasTipCap tx = Wei t)
      \<and> (case gasCap of None \<Rightarrow> True | Some g \<Rightarrow> dt_GasFeeCap tx = Wei g)"
  obtain r c' where send: "TransferTokenWithGas add remove pack env (wl_address w) token (pt_To p) amount tip gasCap c = (r, c')"
    by force
  have good: "?good (build_tx (cl_chainID c) nonce gas info (transfer_request token data tip gasCap))"
    if "pack (Transfer (pt_To p) (Wei amount)) = Inr data" for nonce gas info data
    using that by (auto simp: build_tx_def transfer_request_def Wei_def split: option.splits)
  have "snd (TransferTokenWithGas add remove pack env (wl_address w) token (pt_To p) amount tip gasCap c) = c'"
    by (simp add: send)
  from TransferTokenWithGas_broadcast [OF this] consider "cl_broadcast c' = cl_broadcast c"
    | nonce gas info data where "pack (Transfer (pt_To p) (Wei amount)) = Inr data"
        "cl_broadcast c' = cl_broadcast c @ [build_tx (cl_chainID c) nonce gas info (transfer_request token data tip gasCap)]"
    by blast
  then have "cl_broadcast c' = cl_broadcast c \<or> (\<exists>tx. ?good tx \<and> cl_broadcast c' = cl_broadcast c @ [tx])"
  proof cases
    case (2 nonce gas info data)
    from good [OF 2(1)] 2(2) show ?thesis by (intro disjI2 exI [of _ "build_tx (cl_chainID c) nonce gas info (transfer_request token data tip gasCap)"]) (rule conjI)
  qed simp
  then show ?thesis
  proof
    assume "cl_broadcast c' = cl_broadcast c"
    then show ?thesis using * send by (simp add: SendToken_def)
  next
    assume "\<exists>tx. ?good tx \<and> cl_broadcast c' = cl_broadcast c @ [tx]"
    then obtain tx where tx: "?good tx" "cl_broadcast c' = cl_broadcast c @ [tx]" by blast
    have run: "SendToken add remove pack metadata env loaded p c = (returned r, c')"
      using * send by (simp add: SendToken_def)
    show ?thesis unfolding run prod.case
      by (rule disjI2, rule exI [of _ w], rule exI [of _ token], rule exI [of _ amount], rule exI [of _ tip],
        rule exI [of _ gasCap], rule exI [of _ tx]) (use * tx in simp)
  qed
next
  case False
  then have "snd (SendToken add remove pack metadata env loaded p c) = c"
    by (auto simp: SendToken_def split: option.splits sum.splits)
  then show ?thesis by (simp add: split_def)
qed

end
