(* ===== verification/Grpckit.thy ===== *)
theory Grpckit
  imports Errors
begin

text \<open>
  pkg/grpckit: the interceptors around every call of the gRPC server. A handler is a function
  of its context, its request and the state of the server; it answers with a response and an
  error, either of which may be nil, or it panics. The duration in the log is left out.
\<close>

section \<open>Calls\<close>

datatype 'a call_result = Answer "'a option" "err option" | Panics

text \<open>The context of a call: the incoming metadata, the request id once stamped.\<close>

record call_context =
  cx_metadata :: "(string, string list) gomap option"
  cx_request_id :: "string option"

datatype log_level = LevelDebug | LevelInfo | LevelWarn | LevelError

record log_entry =
  le_level :: log_level
  le_message :: string
  le_method :: string
  le_code :: "grpc_code option"
  le_request_id :: "string option"

text \<open>The server's state: the headers and log lines of the call, and the application's.\<close>

record 's server =
  sv_headers :: "(string \<times> string) list"
  sv_log :: "log_entry list"
  sv_app :: 's

type_synonym ('q, 'a, 's) unary_handler = "call_context \<Rightarrow> 'q \<Rightarrow> 's server \<Rightarrow> 'a call_result \<times> 's server"

section \<open>Metadata\<close>

definition MetadataRequestID :: string where "MetadataRequestID = ''x-request-id''"
definition MetadataAuthorization :: string where "MetadataAuthorization = ''authorization''"

text \<open>\<open>md.Get\<close>.\<close>

definition Get_metadata :: "string \<Rightarrow> (string, string list) gomap \<Rightarrow> string list" where
  "Get_metadata k md = the_default [] (map_of md (ToLower k))"

definition RequestID :: "call_context \<Rightarrow> string" where
  "RequestID ctx = the_default '''' (cx_request_id ctx)"

definition extractRequestID :: "call_context \<Rightarrow> string" where
  "extractRequestID ctx =
     (case cx_metadata ctx of None \<Rightarrow> ''''
      | Some md \<Rightarrow> (case Get_metadata MetadataRequestID md of [] \<Rightarrow> '''' | i # _ \<Rightarrow> i))"

definition unauthenticated :: "string \<Rightarrow> err" where
  "unauthenticated m = StatusError Unauthenticated m"

definition bearer :: string where "bearer = ''bearer ''"

definition extractToken :: "call_context \<Rightarrow> err + string" where
  "extractToken ctx =
     (case cx_metadata ctx of None \<Rightarrow> Inl (unauthenticated ''missing metadata'')
      | Some md \<Rightarrow> (case Get_metadata MetadataAuthorization md of
          [] \<Rightarrow> Inl (unauthenticated ''missing authorization'')
        | v # _ \<Rightarrow> if \<not> HasPrefix (ToLower v) bearer then Inl (unauthenticated ''invalid authorization format'')
                  else Inr (drop (length bearer) v)))"

section \<open>Unary interceptors\<close>

text \<open>\<open>status.Code\<close>.\<close>

definition status_Code :: "err option \<Rightarrow> grpc_code" where
  "status_Code e = (case e of None \<Rightarrow> OK | Some x \<Rightarrow> the_default Unknown (FromError x))"

text \<open>\<open>uuid\<close> is the fresh identifier.\<close>

definition RequestIDInterceptor ::
  "string \<Rightarrow> ('q, 'a, 's) unary_handler \<Rightarrow> ('q, 'a, 's) unary_handler" where
  "RequestIDInterceptor uuid handler ctx req sv =
     (let requestID = (if extractRequestID ctx = '''' then uuid else extractRequestID ctx)
      in handler (ctx\<lparr>cx_request_id := Some requestID\<rparr>) req
           (sv\<lparr>sv_headers := sv_headers sv @ [(MetadataRequestID, requestID)]\<rparr>))"

definition log_level_of :: "grpc_code \<Rightarrow> log_level" where
  "log_level_of code =
     (if code = OK then LevelInfo
      else if code = Unknown \<or> code = Internal then LevelError
      else if code = NotFound \<or> code = AlreadyExists \<or> code = Canceled then LevelDebug
      else LevelWarn)"

definition log_line :: "log_entry \<Rightarrow> 's server \<Rightarrow> 's server" where
  "log_line e sv = sv\<lparr>sv_log := sv_log sv @ [e]\<rparr>"

definition LoggingInterceptor ::
  "string \<Rightarrow> ('q, 'a, 's) unary_handler \<Rightarrow> ('q, 'a, 's) unary_handler" where
  "LoggingInterceptor meth handler ctx req sv =
     (case handler ctx req sv of
        (Panics, sv') \<Rightarrow> (Panics, sv')
      | (Answer resp e, sv') \<Rightarrow>
        (Answer resp e, log_line \<lparr>le_level = log_level_of (status_Code e), le_message = ''grpc request'', le_method = meth,
           le_code = Some (status_Code e), le_request_id = Some (RequestID ctx)\<rparr> sv'))"

definition internal_server_error :: err where
  "internal_server_error = StatusError Internal ''internal server error''"

definition RecoveryInterceptor ::
  "string \<Rightarrow> ('q, 'a, 's) unary_handler \<Rightarrow> ('q, 'a, 's) unary_handler" where
  "RecoveryInterceptor meth handler ctx req sv =
     (case handler ctx req sv of
        (Panics, sv') \<Rightarrow> (Answer None (Some internal_server_error),
           log_line \<lparr>le_level = LevelError, le_message = ''panic recovered'', le_method = meth, le_code = None,
             le_request_id = Some (RequestID ctx)\<rparr> sv')
      | r \<Rightarrow> r)"

definition StaticTokenAuthUnaryInterceptor ::
  "string \<Rightarrow> ('q, 'a, 's) unary_handler \<Rightarrow> ('q, 'a, 's) unary_handler" where
  "StaticTokenAuthUnaryInterceptor expectedToken handler ctx req sv =
     (if expectedToken = '''' then handler ctx req sv
      else (case extractToken ctx of
          Inl e \<Rightarrow> (Answer None (Some e), sv)
        | Inr token \<Rightarrow> if token \<noteq> expectedToken then (Answer None (Some (unauthenticated ''invalid token'')), sv)
                       else handler ctx req sv))"

definition ErrorInterceptor ::
  "(err \<Rightarrow> err option) option \<Rightarrow> ('q, 'a, 's) unary_handler \<Rightarrow> ('q, 'a, 's) unary_handler" where
  "ErrorInterceptor converter handler ctx req sv =
     (case handler ctx req sv of
        (Answer resp (Some e), sv') \<Rightarrow>
          if FromError e \<noteq> None then (Answer resp (Some e), sv')
          else (case converter of Some f \<Rightarrow> (Answer resp (f e), sv') | None \<Rightarrow> (Answer resp (Some e), sv'))
      | r \<Rightarrow> r)"

section \<open>Stream interceptors\<close>

text \<open>A stream handler answers with an error only.\<close>

datatype stream_result = Ended "err option" | Panics_stream

type_synonym 's stream_handler = "call_context \<Rightarrow> 's server \<Rightarrow> stream_result \<times> 's server"

definition StaticTokenAuthStreamInterceptor :: "string \<Rightarrow> 's stream_handler \<Rightarrow> 's stream_handler" where
  "StaticTokenAuthStreamInterceptor expectedToken handler ctx sv =
     (if expectedToken = '''' then handler ctx sv
      else (case extractToken ctx of
          Inl e \<Rightarrow> (Ended (Some e), sv)
        | Inr token \<Rightarrow> if token \<noteq> expectedToken then (Ended (Some (unauthenticated ''invalid token'')), sv)
                       else handler ctx sv))"

definition RecoveryStreamInterceptor :: "string \<Rightarrow> 's stream_handler \<Rightarrow> 's stream_handler" where
  "RecoveryStreamInterceptor meth handler ctx sv =
     (case handler ctx sv of
        (Panics_stream, sv') \<Rightarrow> (Ended (Some internal_server_error),
           log_line \<lparr>le_level = LevelError, le_message = ''stream panic recovered'', le_method = meth, le_code = None,
             le_request_id = None\<rparr> sv')
      | r \<Rightarrow> r)"

definition LoggingStreamInterceptor :: "string \<Rightarrow> 's stream_handler \<Rightarrow> 's stream_handler" where
  "LoggingStreamInterceptor meth handler ctx sv =
     (case handler ctx sv of
        (Panics_stream, sv') \<Rightarrow> (Panics_stream, sv')
      | (Ended e, sv') \<Rightarrow>
        (Ended e, log_line \<lparr>le_level = (if status_Code e \<noteq> OK then LevelWarn else LevelInfo), le_message = ''grpc stream'',
           le_method = meth, le_code = Some (status_Code e), le_request_id = None\<rparr> sv'))"

section \<open>The stacks\<close>

text \<open>
  The chaining of the gRPC library: the first interceptor is the outermost. The server of
  internal/app/runners/grpcserver puts the authorization before the standard stack.
\<close>

definition StandardUnaryInterceptors ::
  "string \<Rightarrow> string \<Rightarrow> (err \<Rightarrow> err option) \<Rightarrow> (('q, 'a, 's) unary_handler \<Rightarrow> ('q, 'a, 's) unary_handler) list" where
  "StandardUnaryInterceptors uuid meth errorConverter =
     [RecoveryInterceptor meth, RequestIDInterceptor uuid, LoggingInterceptor meth, ErrorInterceptor (Some errorConverter)]"

definition StandardStreamInterceptors :: "string \<Rightarrow> ('s stream_handler \<Rightarrow> 's stream_handler) list" where
  "StandardStreamInterceptors meth = [RecoveryStreamInterceptor meth, LoggingStreamInterceptor meth]"

definition ChainUnary :: "('h \<Rightarrow> 'h) list \<Rightarrow> 'h \<Rightarrow> 'h" where
  "ChainUnary interceptors handler = foldr (\<lambda>i h. i h) interceptors handler"

definition unary_server ::
  "string \<Rightarrow> string \<Rightarrow> string \<Rightarrow> ('q, 'a, 's) unary_handler \<Rightarrow> ('q, 'a, 's) unary_handler" where
  "unary_server authorization uuid meth handler =
     ChainUnary (StaticTokenAuthUnaryInterceptor authorization # StandardUnaryInterceptors uuid meth (\<lambda>e. ToGRPCError (Some e))) handler"

definition stream_server :: "string \<Rightarrow> string \<Rightarrow> 's stream_handler \<Rightarrow> 's stream_handler" where
  "stream_server authorization meth handler =
     ChainUnary (StaticTokenAuthStreamInterceptor authorization # StandardStreamInterceptors meth) handler"

section \<open>Laws\<close>

text \<open>A call presents a token: its first authorization value is the token after the scheme, in any letter case.\<close>

definition presents :: "call_context \<Rightarrow> string \<Rightarrow> bool" where
  "presents ctx token \<longleftrightarrow>
     (\<exists>md scheme rest. cx_metadata ctx = Some md \<and> Get_metadata MetadataAuthorization md = (scheme @ token) # rest
        \<and> ToLower scheme = bearer)"

lemma ToLower_prefix: "HasPrefix (ToLower v) p \<longleftrightarrow> (\<exists>s t. v = s @ t \<and> ToLower s = p)"
proof
  assume "HasPrefix (ToLower v) p"
  then have "take (length p) (ToLower v) = p" by (simp add: HasPrefix_def)
  then have "ToLower (take (length p) v) = p" by (simp add: ToLower_def take_map)
  then show "\<exists>s t. v = s @ t \<and> ToLower s = p"
    by (intro exI [of _ "take (length p) v"] exI [of _ "drop (length p) v"]) simp
next
  assume "\<exists>s t. v = s @ t \<and> ToLower s = p"
  then show "HasPrefix (ToLower v) p" by (auto simp: ToLower_append HasPrefix_append)
qed

lemma extractToken_presents: "extractToken ctx = Inr token \<longleftrightarrow> presents ctx token"
proof -
  have "HasPrefix (ToLower v) bearer \<and> token = drop (length bearer) v \<longleftrightarrow> (\<exists>s. v = s @ token \<and> ToLower s = bearer)" for v
  proof
    assume *: "HasPrefix (ToLower v) bearer \<and> token = drop (length bearer) v"
    then obtain s t where "v = s @ t" "ToLower s = bearer" using ToLower_prefix [of v bearer] by blast
    moreover from this have "length s = length bearer" by (metis length_ToLower)
    ultimately show "\<exists>s. v = s @ token \<and> ToLower s = bearer" using * by auto
  next
    assume "\<exists>s. v = s @ token \<and> ToLower s = bearer"
    then obtain s where s: "v = s @ token" "ToLower s = bearer" by blast
    then have "length bearer = length s" by (metis length_ToLower)
    with s show "HasPrefix (ToLower v) bearer \<and> token = drop (length bearer) v" using ToLower_prefix [of v bearer] by auto
  qed
  note split = this
  show ?thesis
  proof (cases "cx_metadata ctx")
    case (Some md)
    show ?thesis
    proof (cases "Get_metadata MetadataAuthorization md")
      case (Cons v rest)
      have "extractToken ctx = Inr token \<longleftrightarrow> HasPrefix (ToLower v) bearer \<and> token = drop (length bearer) v"
        using Some Cons by (auto simp: extractToken_def)
      also have "\<dots> \<longleftrightarrow> presents ctx token" using Some Cons unfolding split presents_def by auto
      finally show ?thesis .
    qed (use Some in \<open>simp add: extractToken_def presents_def\<close>)
  qed (simp add: extractToken_def presents_def)
qed

lemma extractToken_error: "extractToken ctx = Inl e \<Longrightarrow> FromError e = Some Unauthenticated"
  by (auto simp: extractToken_def unauthenticated_def split: option.splits list.splits if_splits)

lemma no_authorization [simp]:
  "StaticTokenAuthUnaryInterceptor [] handler = handler" "StaticTokenAuthStreamInterceptor [] stream = stream"
  by (intro ext; simp add: StaticTokenAuthUnaryInterceptor_def StaticTokenAuthStreamInterceptor_def)+

lemma unary_server_unfold:
  "unary_server authorization uuid meth handler =
     StaticTokenAuthUnaryInterceptor authorization (unary_server '''' uuid meth handler)"
  by (simp add: unary_server_def ChainUnary_def)

lemma stream_server_unfold:
  "stream_server authorization meth handler =
     StaticTokenAuthStreamInterceptor authorization (stream_server '''' meth handler)"
  by (simp add: stream_server_def ChainUnary_def)

text \<open>
  C10. With a configured token no handler runs for a caller that does not present it: every
  other call, of a unary method or a stream, is answered with the code UNAUTHENTICATED and the
  server's state is untouched. A caller that presents it, and every caller when no token is
  configured, gets exactly what the server without authorization would answer.
\<close>

theorem auth_guard:
  "if authorization = '''' \<or> presents ctx authorization
   then unary_server authorization uuid meth handler ctx req sv = unary_server '''' uuid meth handler ctx req sv
      \<and> stream_server authorization meth stream ctx sv = stream_server '''' meth stream ctx sv
   else (\<exists>e. unary_server authorization uuid meth handler ctx req sv = (Answer None (Some e), sv)
        \<and> stream_server authorization meth stream ctx sv = (Ended (Some e), sv)
        \<and> FromError e = Some Unauthenticated)"
proof (cases "extractToken ctx")
  case (Inl e)
  then have "\<not> presents ctx authorization" by (simp flip: extractToken_presents)
  with Inl extractToken_error [OF Inl] show ?thesis
    by (auto simp: unary_server_unfold [of authorization] stream_server_unfold [of authorization]
      StaticTokenAuthUnaryInterceptor_def StaticTokenAuthStreamInterceptor_def)
next
  case (Inr token)
  then have "presents ctx authorization \<longleftrightarrow> token = authorization"
    using extractToken_presents [of ctx authorization] by auto
  with Inr show ?thesis
    by (auto simp: unary_server_unfold [of authorization] stream_server_unfold [of authorization]
      StaticTokenAuthUnaryInterceptor_def StaticTokenAuthStreamInterceptor_def unauthenticated_def)
qed

text \<open>The error a client receives for the error of a handler.\<close>

definition wire_error :: "err option \<Rightarrow> err option" where
  "wire_error e = (case e of None \<Rightarrow> None
     | Some x \<Rightarrow> if FromError x \<noteq> None then Some x else ToGRPCError (Some x))"

lemma wire_error_status: "wire_error e = Some x \<Longrightarrow> FromError x \<noteq> None"
  by (auto simp: wire_error_def ToGRPCError_def status_Error_def Let_def split: option.splits err.splits if_splits)

lemma unary_server_replies:
  "unary_server '''' uuid meth handler ctx req sv =
     (let i = (if extractRequestID ctx = '''' then uuid else extractRequestID ctx);
          (r, sv1) = handler (ctx\<lparr>cx_request_id := Some i\<rparr>) req
            (sv\<lparr>sv_headers := sv_headers sv @ [(MetadataRequestID, i)]\<rparr>)
      in case r of
           Panics \<Rightarrow> (Answer None (Some internal_server_error),
             log_line \<lparr>le_level = LevelError, le_message = ''panic recovered'', le_method = meth, le_code = None,
               le_request_id = Some (RequestID ctx)\<rparr> sv1)
         | Answer resp e \<Rightarrow> (Answer resp (wire_error e),
             log_line \<lparr>le_level = log_level_of (status_Code (wire_error e)), le_message = ''grpc request'',
               le_method = meth, le_code = Some (status_Code (wire_error e)), le_request_id = Some i\<rparr> sv1))"
  by (auto simp: unary_server_def ChainUnary_def StandardUnaryInterceptors_def RecoveryInterceptor_def
    RequestIDInterceptor_def LoggingInterceptor_def ErrorInterceptor_def Let_def wire_error_def RequestID_def
    split: prod.splits call_result.splits option.splits)

text \<open>The answer and the state come from one run of the handler on the application's state.\<close>

definition runs_once ::
  "('q, 'a, 's) unary_handler \<Rightarrow> 'q \<Rightarrow> 's server \<Rightarrow> 'a option \<Rightarrow> err option \<Rightarrow> 's server \<Rightarrow> bool" where
  "runs_once handler req sv resp e sv' \<longleftrightarrow>
     (\<exists>ctx sv0 r sv1 line. handler ctx req sv0 = (r, sv1) \<and> sv' = log_line line sv1 \<and> sv_app sv0 = sv_app sv
        \<and> (case r of Panics \<Rightarrow> resp = None \<and> e = Some internal_server_error
            | Answer resp' e' \<Rightarrow> resp = resp' \<and> e = wire_error e'))"

lemma runs_onceI:
  assumes "handler ctx req sv0 = (r, sv1)" "sv_app sv0 = sv_app sv"
    and "case r of Panics \<Rightarrow> resp = None \<and> e = Some internal_server_error
       | Answer resp' e' \<Rightarrow> resp = resp' \<and> e = wire_error e'"
  shows "runs_once handler req sv resp e (log_line line sv1)"
  unfolding runs_once_def using assms by blast

text \<open>
  C27. Whatever the handler of a unary call does, the client gets an answer: the handler runs at most once, a panic
  becomes the status INTERNAL with a fixed text, and every error that leaves the server is a
  gRPC status.
\<close>

theorem server_answers:
  "case unary_server authorization uuid meth handler ctx req sv of
     (Panics, sv') \<Rightarrow> False
   | (Answer resp e, sv') \<Rightarrow> (case e of None \<Rightarrow> True | Some x \<Rightarrow> FromError x \<noteq> None)
       \<and> (sv' = sv \<or> runs_once handler req sv resp e sv')"
proof -
  let ?i = "if extractRequestID ctx = [] then uuid else extractRequestID ctx"
  let ?ctx = "ctx\<lparr>cx_request_id := Some ?i\<rparr>" and ?sv = "sv\<lparr>sv_headers := sv_headers sv @ [(MetadataRequestID, ?i)]\<rparr>"
  obtain r sv1 where run: "handler ?ctx req ?sv = (r, sv1)" by force
  note once = runs_onceI [of handler, OF run, of sv]
  have inner: "\<exists>resp e sv'. unary_server [] uuid meth handler ctx req sv = (Answer resp e, sv')
     \<and> (case e of None \<Rightarrow> True | Some x \<Rightarrow> FromError x \<noteq> None) \<and> runs_once handler req sv resp e sv'"
  proof (cases r)
    case Panics
    with once [of None "Some internal_server_error"] show ?thesis
      unfolding unary_server_replies Let_def run by (simp add: internal_server_error_def)
  next
    case (Answer resp e)
    have "case wire_error e of None \<Rightarrow> True | Some x \<Rightarrow> FromError x \<noteq> None"
      using wire_error_status [of e] by (auto split: option.splits)
    with Answer once [of resp "wire_error e"] show ?thesis unfolding unary_server_replies Let_def run by simp
  qed
  show ?thesis
  proof (cases "authorization = [] \<or> extractToken ctx = Inr authorization")
    case True
    then have "unary_server authorization uuid meth handler ctx req sv = unary_server [] uuid meth handler ctx req sv"
      by (auto simp: unary_server_unfold [of authorization] StaticTokenAuthUnaryInterceptor_def)
    with inner show ?thesis by auto
  next
    case False
    then show ?thesis using extractToken_error [of ctx]
      by (auto simp: unary_server_unfold [of authorization] StaticTokenAuthUnaryInterceptor_def unauthenticated_def
        split: sum.splits)
  qed
qed

end
