(* ===== verification/Handler.thy ===== *)
theory Handler
  imports Grpckit Networks Wallet_Usecase History
begin

text \<open>
  internal/handler/grpc/handler.go and mapping.go: the errors of the usecases as gRPC
  statuses, and their results as messages. Floats are of a type \<open>'f\<close>; their conversions and
  the float verbs of package fmt are parameters. A timestamp message is its instant.
\<close>

section \<open>The handler\<close>

text \<open>
  What the mappings use: the checksum casing, the case mappings of package strings outside
  ASCII, \<open>TrimSpace\<close>, the verified tokens, the chain and its logo, and the float functions:
  \<open>Float64\<close>, \<open>%.nf\<close>, \<open>%.6g\<close> and \<open>ParseFloat\<close>.
\<close>

record 'f handler_env =
  he_ck :: checksum
  he_lower :: "string \<Rightarrow> string"
  he_uni :: "string \<Rightarrow> string"
  he_trim :: "string \<Rightarrow> string"
  he_chainID :: int
  he_tokenList :: "token_list option"
  he_nativeLogoURL :: string
  he_Float64 :: "decimal \<Rightarrow> 'f"
  he_fixed :: "nat \<Rightarrow> 'f \<Rightarrow> string"
  he_shortest6 :: "'f \<Rightarrow> string"
  he_ParseFloat :: "string \<Rightarrow> 'f option"

definition tokenLogoURL :: "'f handler_env \<Rightarrow> string \<Rightarrow> string" where
  "tokenLogoURL h address =
     (if he_tokenList h = None \<or> address = '''' then ''''
      else (case TokenByAddress (he_lower h) (he_tokenList h) (he_chainID h) address of
          None \<Rightarrow> '''' | Some tok \<Rightarrow> lt_LogoURI tok))"

definition HandleError :: "err option \<Rightarrow> err option" where
  "HandleError e =
     (case e of None \<Rightarrow> None
      | Some x \<Rightarrow>
        if Is x ErrNotFound_wallet \<or> Is x ErrNotFound_contact \<or> Is x ErrNotFound_token
        then status_Error NotFound ''not found''
        else if Is x ErrAlreadyExists_contact \<or> Is x ErrAlreadyExists_token
        then status_Error AlreadyExists ''already exists''
        else (case As_Error x of
            Some appErr \<Rightarrow> ToGRPCError (Some appErr)
          | None \<Rightarrow> status_Error Internal ''internal error''))"

text \<open>The two ways a method ends: its response, or an error through \<open>HandleError\<close>.\<close>

definition reply :: "'a \<Rightarrow> 'a call_result" where "reply v = Answer (Some v) None"

definition refuse :: "err \<Rightarrow> 'a call_result" where "refuse e = Answer None (HandleError (Some e))"

definition reply_or_refuse :: "('a \<Rightarrow> 'b) \<Rightarrow> err + 'a \<Rightarrow> 'b call_result" where
  "reply_or_refuse f r = (case r of Inl e \<Rightarrow> refuse e | Inr v \<Rightarrow> reply (f v))"

section \<open>Messages\<close>

datatype pb_secret_type = SECRET_TYPE_UNSPECIFIED | SECRET_TYPE_MNEMONIC | SECRET_TYPE_PRIVATE_KEY

record pb_wallet =
  pw_Id :: string
  pw_Address :: string
  pw_Label :: string
  pw_SecretType :: pb_secret_type
  pw_CreatedAt :: time

definition secretTypeToProto :: "string \<Rightarrow> pb_secret_type" where
  "secretTypeToProto s =
     (if s = SecretTypeMnemonic then SECRET_TYPE_MNEMONIC
      else if s = SecretTypePrivateKey then SECRET_TYPE_PRIVATE_KEY
      else SECRET_TYPE_UNSPECIFIED)"

definition walletToProto :: "'f handler_env \<Rightarrow> wallet_entity \<Rightarrow> pb_wallet" where
  "walletToProto h w = \<lparr>pw_Id = wa_ID w, pw_Address = Hex (he_ck h) (wa_Address w), pw_Label = wa_Label w,
     pw_SecretType = secretTypeToProto (wa_SecretType w), pw_CreatedAt = wa_CreatedAt w\<rparr>"

record pb_token_balance =
  ptb_Symbol :: string
  ptb_Name :: string
  ptb_Address :: string
  ptb_Balance :: string
  ptb_Decimals :: nat
  ptb_UsdValue :: string
  ptb_LogoUrl :: string

definition formatUSD :: "'f handler_env \<Rightarrow> 'f :: {linorder, inverse, numeral} \<Rightarrow> string" where
  "formatUSD h value =
     (if value \<ge> inverse 100 then ''$'' @ he_fixed h 2 value else ''$'' @ he_fixed h 6 value)"

definition token_balance_proto ::
  "'f handler_env \<Rightarrow> ('f :: {linorder, inverse, numeral, times}) prices \<Rightarrow> token_balance \<Rightarrow> pb_token_balance" where
  "token_balance_proto h prices tb =
     (let units = ToTokenUnits (tb_Balance tb) (tk_Decimals (tb_Token tb));
          usdValue = (case map_of prices (ToUpper_with (he_uni h) (tk_Symbol (tb_Token tb))) of
              None \<Rightarrow> '''' | Some price \<Rightarrow> formatUSD h (he_Float64 h units * price));
          addr = Hex (he_ck h) (tk_Address (tb_Token tb))
      in \<lparr>ptb_Symbol = tk_Symbol (tb_Token tb), ptb_Name = tk_Name (tb_Token tb), ptb_Address = addr,
          ptb_Balance = dec_String units, ptb_Decimals = unat (tk_Decimals (tb_Token tb)), ptb_UsdValue = usdValue,
          ptb_LogoUrl = tokenLogoURL h addr\<rparr>)"

definition balancesToProto ::
  "'f handler_env \<Rightarrow> balances_result \<Rightarrow> ('f :: {linorder, inverse, numeral, times}) prices \<Rightarrow>
   string \<times> string \<times> pb_token_balance list" where
  "balancesToProto h r prices =
     (dec_String (ToETH (br_ETH r)), Amount_String (br_ETH r), map (token_balance_proto h prices) (br_Tokens r))"

record pb_gas_fees =
  pg_BaseFeeGwei :: string
  pg_MaxPriorityFeeGwei :: string
  pg_MaxFeeGwei :: string
  pg_EstimatedGas :: u64
  pg_ChainId :: int
  pg_BlockNumber :: u64

definition gasFeesToProto :: "gas_fees_result \<Rightarrow> pb_gas_fees" where
  "gasFeesToProto r =
     \<lparr>pg_BaseFeeGwei = StringFixed (ToGwei (BaseFee (gf_GasInfo r))) 4,
      pg_MaxPriorityFeeGwei = StringFixed (ToGwei (PriorityFee (gf_GasInfo r))) 4,
      pg_MaxFeeGwei = StringFixed (ToGwei (MaxFee (gf_GasInfo r))) 4,
      pg_EstimatedGas = 21000, pg_ChainId = gf_ChainID r, pg_BlockNumber = gf_BlockNumber r\<rparr>"

record pb_receipt =
  pr_TxHash :: string
  pr_BlockNumber :: u64
  pr_GasUsed :: u64
  pr_EffectiveGasPriceGwei :: string
  pr_Success :: bool

definition receiptToProto :: "tx_receipt \<Rightarrow> pb_receipt" where
  "receiptToProto r =
     \<lparr>pr_TxHash = rc_Hash r, pr_BlockNumber = rc_BlockNumber r, pr_GasUsed = rc_GasUsed r,
      pr_EffectiveGasPriceGwei = FormatGwei (rc_GasCost r), pr_Success = (rc_Status r = TxStatusSuccess)\<rparr>"

record pb_history_item =
  ph_TxHash :: string
  ph_From :: string
  ph_To :: string
  ph_Asset :: string
  ph_Value :: string
  ph_RawValue :: string
  ph_BlockTime :: time
  ph_BlockNum :: u64
  ph_Category :: string
  ph_ValueUsd :: string
  ph_GasFeeEth :: string
  ph_GasFeeUsd :: string
  ph_IsSwap :: bool
  ph_TokenInSym :: string
  ph_TokenInValue :: string
  ph_TokenOutSym :: string
  ph_TokenOutValue :: string

definition txToProto :: "'f handler_env \<Rightarrow> transaction \<Rightarrow> ('f :: times) prices \<Rightarrow> pb_history_item" where
  "txToProto h tx prices =
     (let sym0 = ToUpper_with (he_uni h) (tx_Asset tx);
          sy = (if sym0 = '''' then ''ETH'' else sym0);
          valueUSD = (case map_of prices sy of None \<Rightarrow> ''''
              | Some price \<Rightarrow> ''$'' @ he_fixed h 2 (he_Float64 h (tx_Value tx) * price));
          gasFeeUsd = (if tx_GasFeeEth tx = '''' then ''''
              else (case map_of prices ''ETH'' of None \<Rightarrow> ''''
                | Some ethPrice \<Rightarrow> (case he_ParseFloat h (tx_GasFeeEth tx) of None \<Rightarrow> ''''
                    | Some feeEth \<Rightarrow> ''$'' @ he_fixed h 2 (feeEth * ethPrice))))
      in \<lparr>ph_TxHash = tx_Hash tx, ph_From = Hex (he_ck h) (tx_From tx), ph_To = Hex (he_ck h) (tx_To tx),
          ph_Asset = tx_Asset tx, ph_Value = dec_String (tx_Value tx), ph_RawValue = dec_String (tx_Value tx),
          ph_BlockTime = tx_Timestamp tx, ph_BlockNum = tx_BlockNumber tx, ph_Category = tx_Category tx,
          ph_ValueUsd = valueUSD, ph_GasFeeEth = tx_GasFeeEth tx, ph_GasFeeUsd = gasFeeUsd, ph_IsSwap = tx_IsSwap tx,
          ph_TokenInSym = tx_TokenInSym tx, ph_TokenInValue = tx_TokenInVal tx,
          ph_TokenOutSym = tx_TokenOutSym tx, ph_TokenOutValue = tx_TokenOutVal tx\<rparr>)"

definition historyToProto :: "'f handler_env \<Rightarrow> history_result \<Rightarrow> ('f :: times) prices \<Rightarrow> pb_history_item list" where
  "historyToProto h r prices = map (\<lambda>tx. txToProto h tx prices) (hr_Transactions r)"

record pb_contact =
  pc_Id :: string
  pc_Name :: string
  pc_Address :: string
  pc_Note :: string
  pc_IsFavorite :: bool
  pc_CreatedAt :: time
  pc_UpdatedAt :: time

definition contactToProto :: "'f handler_env \<Rightarrow> contact \<Rightarrow> pb_contact" where
  "contactToProto h c =
     \<lparr>pc_Id = ct_ID c, pc_Name = ct_Name c, pc_Address = Hex (he_ck h) (ct_Address c), pc_Note = ct_Notes c,
      pc_IsFavorite = ct_IsFavorite c, pc_CreatedAt = ct_CreatedAt c, pc_UpdatedAt = ct_UpdatedAt c\<rparr>"

text \<open>\<open>AddedAt\<close> is absent from the entries with a balance.\<close>

record pb_watched_token =
  pk_Id :: string
  pk_Address :: string
  pk_Symbol :: string
  pk_Name :: string
  pk_Decimals :: nat
  pk_AddedAt :: "time option"
  pk_IsPinned :: bool
  pk_IsHidden :: bool
  pk_LogoUrl :: string

definition watchedTokenToProto :: "'f handler_env \<Rightarrow> watched_token \<Rightarrow> pb_watched_token" where
  "watchedTokenToProto h t =
     (let addr = Hex (he_ck h) (tk_Address (wt_Token t)) in
      \<lparr>pk_Id = wt_ID t, pk_Address = addr, pk_Symbol = tk_Symbol (wt_Token t), pk_Name = tk_Name (wt_Token t),
       pk_Decimals = unat (tk_Decimals (wt_Token t)), pk_AddedAt = Some (wt_AddedAt t), pk_IsPinned = wt_IsPinned t,
       pk_IsHidden = wt_IsHidden t, pk_LogoUrl = tokenLogoURL h addr\<rparr>)"

record 'f pb_market =
  pm_PriceUsd :: string
  pm_Change24HPct :: string
  pm_ChangePositive :: bool
  pm_Sparkline7D :: "'f list"
  pm_Sparkline30D :: "'f list"

record 'f pb_token_with_balance =
  pv_Token :: pb_watched_token
  pv_Balance :: string
  pv_BalanceUsd :: string
  pv_Market :: "'f pb_market option"

definition tokenWithBalanceToProto ::
  "'f handler_env \<Rightarrow> ('f :: {linorder, zero}) token_with_balance \<Rightarrow> 'f pb_token_with_balance" where
  "tokenWithBalanceToProto h t =
     (let addr = Hex (he_ck h) (tk_Address (tw_Token t));
          tok = \<lparr>pk_Id = tw_ID t, pk_Address = addr, pk_Symbol = tk_Symbol (tw_Token t), pk_Name = tk_Name (tw_Token t),
            pk_Decimals = unat (tk_Decimals (tw_Token t)), pk_AddedAt = None, pk_IsPinned = tw_IsPinned t,
            pk_IsHidden = tw_IsHidden t, pk_LogoUrl = tokenLogoURL h addr\<rparr>;
          balUSD = (if tw_BalanceUSD t > 0 then ''$'' @ he_fixed h 2 (tw_BalanceUSD t) else '''');
          change = he_fixed h 2 (tw_Change24hPct t);
          changeStr = (if tw_Change24hPct t > 0 then ''+'' @ change else change);
          market = (if tw_PriceUSD t > 0 \<or> length (tw_Sparkline7d t) > 0
            then Some \<lparr>pm_PriceUsd = he_shortest6 h (tw_PriceUSD t), pm_Change24HPct = changeStr,
              pm_ChangePositive = tw_ChangePositive t, pm_Sparkline7D = tw_Sparkline7d t, pm_Sparkline30D = tw_Sparkline30d t\<rparr>
            else None)
      in \<lparr>pv_Token = tok, pv_Balance = dec_String (ToTokenUnits (tw_Balance t) (tk_Decimals (tw_Token t))),
          pv_BalanceUsd = balUSD, pv_Market = market\<rparr>)"

text \<open>The gas options of a request; a text that is no decimal counts as absent.\<close>

record pb_gas_options =
  po_PriorityGwei :: string
  po_MaxGwei :: string

definition gwei_option :: "'f handler_env \<Rightarrow> string \<Rightarrow> decimal option" where
  "gwei_option h s = (if he_trim h s = '''' then None else ok_of (NewFromString (he_trim h s)))"

definition gasOptionsFromProto :: "'f handler_env \<Rightarrow> pb_gas_options option \<Rightarrow> gas_override" where
  "gasOptionsFromProto h g =
     (case g of None \<Rightarrow> \<lparr>go_PriorityGwei = None, go_MaxGwei = None\<rparr>
      | Some o1 \<Rightarrow> \<lparr>go_PriorityGwei = gwei_option h (po_PriorityGwei o1), go_MaxGwei = gwei_option h (po_MaxGwei o1)\<rparr>)"

section \<open>Laws\<close>

lemma Is_not_found:
  "Is x ErrNotFound_wallet \<or> Is x ErrNotFound_contact \<or> Is x ErrNotFound_token \<longleftrightarrow> CodeNotFound \<in> codes_in x"
  by (simp add: ErrNotFound_wallet_def ErrNotFound_contact_def ErrNotFound_token_def New_def Is_AppError)

lemma Is_already_exists:
  "Is x ErrAlreadyExists_contact \<or> Is x ErrAlreadyExists_token \<longleftrightarrow> CodeAlreadyExists \<in> codes_in x"
  by (simp add: ErrAlreadyExists_contact_def ErrAlreadyExists_token_def New_def Is_AppError)

text \<open>The status a client reads off an error.\<close>

definition client_code :: "err \<Rightarrow> grpc_code" where
  "client_code x =
     (if CodeNotFound \<in> codes_in x then NotFound
      else if CodeAlreadyExists \<in> codes_in x then AlreadyExists
      else (case As_Error x of Some (AppError c m ca) \<Rightarrow> grpcCode c | _ \<Rightarrow> Internal))"

definition client_text :: "err \<Rightarrow> string" where
  "client_text x =
     (if CodeNotFound \<in> codes_in x then ''not found''
      else if CodeAlreadyExists \<in> codes_in x then ''already exists''
      else (case As_Error x of
          Some (AppError c m (Some e)) \<Rightarrow> if Error_text e \<noteq> '''' \<and> Error_text e \<noteq> m then m @ '': '' @ Error_text e else m
        | Some (AppError c m None) \<Rightarrow> m
        | _ \<Rightarrow> ''internal error''))"

lemma HandleError_eq:
  "HandleError (Some x) = (if client_code x = OK then None else Some (StatusError (client_code x) (client_text x)))"
proof (cases "As_Error x")
  case None
  then have "codes_in x = {}" by (simp add: As_Error_None_iff)
  with None show ?thesis
    using Is_not_found [of x] Is_already_exists [of x]
    by (simp add: HandleError_def client_code_def client_text_def status_Error_def)
next
  case (Some a)
  then obtain c m ca where a: "a = AppError c m ca" using As_Error_AppError by blast
  show ?thesis
    using Is_not_found [of x] Is_already_exists [of x] Some a
    by (cases ca) (auto simp: HandleError_def client_code_def client_text_def status_Error_def ToGRPCError_def Let_def)
qed

text \<open>
  C18. The status of an error, for every chain of wraps. A code NOT_FOUND or ALREADY_EXISTS
  anywhere in the chain decides (the sentinels of the three domains are compared by code), with
  a fixed text; otherwise the outermost coded error gives the code, and its message with the
  text of its whole cause is sent to the client, internal errors included; an error without a
  code is INTERNAL with a fixed text. Only the code OK would make the error disappear.
\<close>

theorem HandleError_status:
  "HandleError (Some x) = (if client_code x = OK then None else Some (StatusError (client_code x) (client_text x)))"
  by (rule HandleError_eq)

lemma refuse_status: "client_code e \<noteq> OK \<Longrightarrow> refuse e = Answer None (Some (StatusError (client_code e) (client_text e)))"
  unfolding refuse_def HandleError_eq by simp

lemma client_code_wrap:
  "client_code (wrap c m e) =
     (if c = CodeNotFound \<or> CodeNotFound \<in> codes_in e then NotFound
      else if c = CodeAlreadyExists \<or> CodeAlreadyExists \<in> codes_in e then AlreadyExists else grpcCode c)"
  by (simp add: client_code_def)

lemma client_code_New: "client_code (New c m) = grpcCode c"
  by (cases c) (simp_all add: client_code_def New_def)

end
