(* ===== verification/Rpc_Wallet.thy ===== *)
theory Rpc_Wallet
  imports Handler
begin

text \<open>
  The methods of internal/handler/grpc on the wallet (wallet.go, simulation.go, pending.go,
  replacement.go, ens.go). The usecases are the interfaces of the handler: a call is an argument,
  with the state it works on where it changes one. Work started in the background is returned
  as a job, the address it is for.
\<close>

definition finish :: "('a \<Rightarrow> 'b) \<Rightarrow> (err, 'a) outcome \<Rightarrow> 'b call_result" where
  "finish f r = (case r of Returned v \<Rightarrow> reply (f v) | Failed e \<Rightarrow> refuse e | Panicked \<Rightarrow> Panics)"

section \<open>Creating and importing\<close>

record pb_generated =
  pe_Wallet :: pb_wallet
  pe_Mnemonic :: string

definition GenerateWallet_rpc ::
  "'f handler_env \<Rightarrow> (string \<Rightarrow> 's \<Rightarrow> (err + address \<times> string) \<times> 's) \<Rightarrow> ('s \<Rightarrow> err + wallet_entity) \<Rightarrow> string \<Rightarrow> 's \<Rightarrow>
   pb_generated call_result \<times> 's" where
  "GenerateWallet_rpc h generate get label st =
     (case generate label st of
        (Inl e, st') \<Rightarrow> (refuse e, st')
      | (Inr (addr, mnemonic), st') \<Rightarrow>
        (reply_or_refuse (\<lambda>w. \<lparr>pe_Wallet = walletToProto h w, pe_Mnemonic = mnemonic\<rparr>) (get st'), st'))"

text \<open>\<open>loaded\<close> is the address of the wallet in memory; no job without a wallet.\<close>

definition kickoffWalletSeed :: "('s \<Rightarrow> address) \<Rightarrow> 's \<Rightarrow> address option" where
  "kickoffWalletSeed loaded st = (if IsZero_address (loaded st) then None else Some (loaded st))"

text \<open>What the job does: the failures are logged, and the sync follows the seeding.\<close>

definition wallet_seed_job ::
  "(address \<Rightarrow> 's \<Rightarrow> err option \<times> 's) \<Rightarrow> ('s \<Rightarrow> err + watched_token list) \<Rightarrow>
   (address \<Rightarrow> address list \<Rightarrow> 's \<Rightarrow> err option \<times> 's) \<Rightarrow> address \<Rightarrow> 's \<Rightarrow> 's" where
  "wallet_seed_job seed list_tokens sync addr st =
     (let st1 = snd (seed addr st);
          watchedContracts = (case list_tokens st1 of Inl e \<Rightarrow> [] | Inr ts \<Rightarrow> map (\<lambda>t. tk_Address (wt_Token t)) ts)
      in snd (sync addr watchedContracts st1))"

definition import_rpc ::
  "'f handler_env \<Rightarrow> ('s \<Rightarrow> address) \<Rightarrow> ('s \<Rightarrow> (err + wallet_entity) \<times> 's) \<Rightarrow> 's \<Rightarrow>
   pb_wallet call_result \<times> 's \<times> address option" where
  "import_rpc h loaded importing st =
     (case importing st of
        (Inl e, st') \<Rightarrow> (refuse e, st', None)
      | (Inr w, st') \<Rightarrow> (reply (walletToProto h w), st', kickoffWalletSeed loaded st'))"

definition ImportMnemonic_rpc ::
  "'f handler_env \<Rightarrow> ('s \<Rightarrow> address) \<Rightarrow> (string \<Rightarrow> string \<Rightarrow> string \<Rightarrow> 's \<Rightarrow> (err + wallet_entity) \<times> 's) \<Rightarrow>
   string \<Rightarrow> string \<Rightarrow> string \<Rightarrow> 's \<Rightarrow> pb_wallet call_result \<times> 's \<times> address option" where
  "ImportMnemonic_rpc h loaded importing mnemonic label derivationPath st =
     import_rpc h loaded (importing mnemonic derivationPath label) st"

definition ImportPrivateKey_rpc ::
  "'f handler_env \<Rightarrow> ('s \<Rightarrow> address) \<Rightarrow> (string \<Rightarrow> string \<Rightarrow> 's \<Rightarrow> (err + wallet_entity) \<times> 's) \<Rightarrow>
   string \<Rightarrow> string \<Rightarrow> 's \<Rightarrow> pb_wallet call_result \<times> 's \<times> address option" where
  "ImportPrivateKey_rpc h loaded importing privateKeyHex label st =
     import_rpc h loaded (importing privateKeyHex label) st"

definition ImportKeystore_rpc ::
  "'f handler_env \<Rightarrow> ('s \<Rightarrow> address) \<Rightarrow> (u8 list \<Rightarrow> string \<Rightarrow> string \<Rightarrow> 's \<Rightarrow> (err + wallet_entity) \<times> 's) \<Rightarrow>
   u8 list \<Rightarrow> string \<Rightarrow> string \<Rightarrow> 's \<Rightarrow> pb_wallet call_result \<times> 's \<times> address option" where
  "ImportKeystore_rpc h loaded importing keystoreJson passphrase label st =
     import_rpc h loaded (importing keystoreJson passphrase label) st"

section \<open>Reading\<close>

definition ExportKeystore_rpc :: "(string \<Rightarrow> err + u8 list) \<Rightarrow> string \<Rightarrow> u8 list call_result" where
  "ExportKeystore_rpc export passphrase = reply_or_refuse (\<lambda>data. data) (export passphrase)"

definition RevealSecret_rpc :: "err + string \<times> string \<Rightarrow> (string \<times> pb_secret_type) call_result" where
  "RevealSecret_rpc reveal = reply_or_refuse (\<lambda>(secret, secretType). (secret,
     (if secretType = SecretTypeMnemonic then SECRET_TYPE_MNEMONIC
      else if secretType = SecretTypePrivateKey then SECRET_TYPE_PRIVATE_KEY
      else SECRET_TYPE_UNSPECIFIED))) reveal"

definition GetWallet_rpc :: "'f handler_env \<Rightarrow> err + wallet_entity \<Rightarrow> pb_wallet call_result" where
  "GetWallet_rpc h get = reply_or_refuse (walletToProto h) get"

record pb_balances =
  pl_EthBalance :: string
  pl_EthBalanceWei :: string
  pl_Tokens :: "pb_token_balance list"
  pl_EthUsdValue :: string
  pl_EthLogoUrl :: string

definition no_balances :: pb_balances where
  "no_balances = \<lparr>pl_EthBalance = '''', pl_EthBalanceWei = '''', pl_Tokens = [], pl_EthUsdValue = '''', pl_EthLogoUrl = ''''\<rparr>"

text \<open>The job is a seeding. \<open>pricesFor\<close> is the price feed's query with its state.\<close>

definition GetBalances_rpc ::
  "'f handler_env \<Rightarrow> address \<Rightarrow> err + watched_token list \<Rightarrow> (address \<Rightarrow> token list \<Rightarrow> err + balances_result) \<Rightarrow>
   (priceable_token list \<Rightarrow> 'p \<Rightarrow> ('f :: {linorder, inverse, numeral, times}) prices \<times> 'p) \<Rightarrow> bool \<Rightarrow> 'p \<Rightarrow>
   pb_balances call_result \<times> 'p \<times> address option" where
  "GetBalances_rpc h addr list_tokens balances pricesFor withTokens feed =
     (if IsZero_address addr then (reply no_balances, feed, None)
      else
       (let job = (if withTokens then Some addr else None) in
        case (if withTokens then (case list_tokens of Inl e \<Rightarrow> Inl e | Inr ts \<Rightarrow> Inr (map wt_Token ts)) else Inr []) of
          Inl e \<Rightarrow> (refuse e, feed, job)
        | Inr tokens \<Rightarrow>
          (case balances addr tokens of
             Inl e \<Rightarrow> (refuse e, feed, job)
           | Inr res \<Rightarrow>
             (let priceTokens = \<lparr>priceable_token.pt_Symbol = ''ETH'', pt_Address = ''''\<rparr> #
                    map (\<lambda>tb. \<lparr>priceable_token.pt_Symbol = tk_Symbol (tb_Token tb),
                      pt_Address = Hex (he_ck h) (tk_Address (tb_Token tb))\<rparr>) (br_Tokens res);
                  (prices, feed') = pricesFor priceTokens feed;
                  (eth, wei, pbTokens) = balancesToProto h res prices;
                  ethUsd = (case map_of prices ''ETH'' of None \<Rightarrow> ''''
                    | Some ethPrice \<Rightarrow> formatUSD h (he_Float64 h (ToETH (br_ETH res)) * ethPrice))
              in (reply \<lparr>pl_EthBalance = eth, pl_EthBalanceWei = wei, pl_Tokens = pbTokens, pl_EthUsdValue = ethUsd,
                    pl_EthLogoUrl = he_nativeLogoURL h\<rparr>, feed', job)))))"

record pb_gas_reply =
  pf_Fees :: pb_gas_fees
  pf_BlockNumber :: u64
  pf_EthPriceUsd :: string

definition GetGasFees_rpc ::
  "'f handler_env \<Rightarrow> err + gas_fees_result \<Rightarrow> (string \<Rightarrow> 'p \<Rightarrow> ('f :: {linorder, zero}) \<times> 'p) \<Rightarrow> 'p \<Rightarrow>
   pb_gas_reply call_result \<times> 'p" where
  "GetGasFees_rpc h fees priceOf feed =
     (case fees of
        Inl e \<Rightarrow> (refuse e, feed)
      | Inr res \<Rightarrow>
        (let (p, feed') = priceOf ''ETH'' feed in
         (reply \<lparr>pf_Fees = gasFeesToProto res, pf_BlockNumber = gf_BlockNumber res,
            pf_EthPriceUsd = (if p > 0 then he_fixed h 2 p else '''')\<rparr>, feed')))"

section \<open>Sending\<close>

record pb_send_eth =
  qe_To :: string
  qe_Amount :: string
  qe_Gas :: "pb_gas_options option"

record pb_send_token =
  qt_To :: string
  qt_TokenAddress :: string
  qt_Amount :: string
  qt_Gas :: "pb_gas_options option"

text \<open>The argument checks of the methods.\<close>

definition read_address :: "string \<Rightarrow> string \<Rightarrow> err + address" where
  "read_address what s = mapE (wrap CodeInvalidArgument what) (NewAddress s)"

definition read_decimal :: "string \<Rightarrow> string \<Rightarrow> err + decimal" where
  "read_decimal what s = mapE (wrap CodeInvalidArgument what) (NewFromString s)"

definition SendETH_rpc ::
  "'f handler_env \<Rightarrow> (send_eth_params \<Rightarrow> 's \<Rightarrow> (err, tx_receipt) outcome option \<times> 's) \<Rightarrow> pb_send_eth \<Rightarrow> 's \<Rightarrow>
   pb_receipt call_result option \<times> 's" where
  "SendETH_rpc h send req st =
     (case bindE (read_address ''invalid to address'' (qe_To req)) (\<lambda>to.
           bindE (read_decimal ''invalid amount'' (qe_Amount req)) (\<lambda>d. Inr (to, d))) of
        Inl e \<Rightarrow> (Some (refuse e), st)
      | Inr (to, d) \<Rightarrow>
        (case NewAmountFromETH d of
           None \<Rightarrow> (Some Panics, st)
         | Some value \<Rightarrow> apfst (map_option (finish receiptToProto))
             (send \<lparr>ep_To = to, ep_Value = value, ep_Gas = gasOptionsFromProto h (qe_Gas req)\<rparr> st)))"

definition SendToken_rpc ::
  "'f handler_env \<Rightarrow> (send_token_params \<Rightarrow> 's \<Rightarrow> (err, tx_receipt) outcome option \<times> 's) \<Rightarrow> pb_send_token \<Rightarrow> 's \<Rightarrow>
   pb_receipt call_result option \<times> 's" where
  "SendToken_rpc h send req st =
     (case bindE (read_address ''invalid to address'' (qt_To req)) (\<lambda>to.
           bindE (read_address ''invalid token address'' (qt_TokenAddress req)) (\<lambda>tokenAddr.
           bindE (read_decimal ''invalid amount'' (qt_Amount req)) (\<lambda>d. Inr (to, tokenAddr, d)))) of
        Inl e \<Rightarrow> (Some (refuse e), st)
      | Inr (to, tokenAddr, d) \<Rightarrow> apfst (map_option (finish receiptToProto))
          (send \<lparr>pt_TokenAddress = tokenAddr, pt_To = to, pt_Amount = d, pt_Gas = gasOptionsFromProto h (qt_Gas req)\<rparr> st))"

section \<open>Simulating\<close>

record pb_simulate_send =
  qs_To :: string
  qs_Amount :: string
  qs_TokenAddress :: string

record pb_asset_change =
  px_Kind :: string
  px_ChangeType :: string
  px_From :: string
  px_To :: string
  px_Amount :: string
  px_Symbol :: string
  px_Name :: string
  px_Decimals :: nat
  px_ContractAddress :: string
  px_TokenId :: string

record pb_simulation =
  pu_WillRevert :: bool
  pu_RevertReason :: string
  pu_GasUnits :: u64
  pu_GasCostEth :: string
  pu_GasCostUsd :: string
  pu_AssetChanges :: "pb_asset_change list"

definition mapAssetChanges :: "asset_change list \<Rightarrow> pb_asset_change list" where
  "mapAssetChanges cs = map (\<lambda>c. \<lparr>px_Kind = ac_Kind c, px_ChangeType = ac_ChangeType c, px_From = ac_From c,
     px_To = ac_To c, px_Amount = ac_AmountHuman c, px_Symbol = ac_Symbol c, px_Name = ac_Name c,
     px_Decimals = unat (ac_Decimals c), px_ContractAddress = ac_ContractAddress c, px_TokenId = ac_TokenID c\<rparr>) cs"

definition SimulateSend_rpc ::
  "'f handler_env \<Rightarrow> (address \<Rightarrow> amount \<Rightarrow> (err, simulation_result) outcome) \<Rightarrow>
   (address \<Rightarrow> address \<Rightarrow> decimal \<Rightarrow> (err, simulation_result) outcome) \<Rightarrow>
   (string \<Rightarrow> 'p \<Rightarrow> ('f :: {linorder, zero, times}) \<times> 'p) \<Rightarrow> pb_simulate_send \<Rightarrow> 'p \<Rightarrow> pb_simulation call_result \<times> 'p" where
  "SimulateSend_rpc h simulateETH simulateToken priceOf req feed =
     (case bindE (read_address ''invalid to address'' (qs_To req)) (\<lambda>to.
           bindE (read_decimal ''invalid amount'' (qs_Amount req)) (\<lambda>amount. Inr (to, amount))) of
        Inl e \<Rightarrow> (refuse e, feed)
      | Inr (to, amount) \<Rightarrow>
        (case (if qs_TokenAddress req = ''''
               then (case NewAmountFromETH amount of None \<Rightarrow> Panicked | Some v \<Rightarrow> simulateETH to v)
               else (case read_address ''invalid token address'' (qs_TokenAddress req) of
                   Inl e \<Rightarrow> Failed e | Inr tokenAddr \<Rightarrow> simulateToken tokenAddr to amount)) of
           Panicked \<Rightarrow> (Panics, feed)
         | Failed e \<Rightarrow> (refuse e, feed)
         | Returned result \<Rightarrow>
           (let cost = ToETH (sm_EstimatedCostWei result);
                (ethPrice, feed') = priceOf ''ETH'' feed;
                costUsd = (if ethPrice > 0 then ''$'' @ he_fixed h 4 (he_Float64 h cost * ethPrice) else '''')
            in (reply \<lparr>pu_WillRevert = sm_WillRevert result, pu_RevertReason = sm_RevertReason result,
                  pu_GasUnits = sm_GasUnits result, pu_GasCostEth = StringFixed cost 8, pu_GasCostUsd = costUsd,
                  pu_AssetChanges = mapAssetChanges (sm_AssetChanges result)\<rparr>, feed'))))"

section \<open>Pending transactions and names\<close>

record pb_pending =
  pp_TxHash :: string
  pp_From :: string
  pp_To :: string
  pp_Value :: string
  pp_Nonce :: u64
  pp_GasTipGwei :: string
  pp_GasCapGwei :: string
  pp_Kind :: string
  pp_SubmittedAt :: time

definition weiToGwei :: "amount \<Rightarrow> string" where
  "weiToGwei a = StringFixedBank (ToGwei a) 2"

definition pending_proto :: "'f handler_env \<Rightarrow> pending_tx \<Rightarrow> pb_pending" where
  "pending_proto h p =
     \<lparr>pp_TxHash = ptx_Hash p, pp_From = Hex (he_ck h) (ptx_From p), pp_To = Hex (he_ck h) (ptx_To p),
      pp_Value = dec_String (ToETH (ptx_Value p)), pp_Nonce = ptx_Nonce p, pp_GasTipGwei = weiToGwei (ptx_GasTipWei p),
      pp_GasCapGwei = weiToGwei (ptx_GasCapWei p), pp_Kind = ptx_Kind p, pp_SubmittedAt = ptx_SubmittedAt p\<rparr>"

definition ListPendingTxs_rpc :: "'f handler_env \<Rightarrow> pending_tx list \<Rightarrow> pb_pending list call_result" where
  "ListPendingTxs_rpc h pending = reply (map (pending_proto h) pending)"

definition SpeedUpTx_rpc :: "(string \<Rightarrow> 's \<Rightarrow> (err + string) \<times> 's) \<Rightarrow> string \<Rightarrow> 's \<Rightarrow> string call_result \<times> 's" where
  "SpeedUpTx_rpc speedUp hash st = apfst (reply_or_refuse (\<lambda>newHash. newHash)) (speedUp hash st)"

definition CancelTx_rpc :: "(string \<Rightarrow> 's \<Rightarrow> (err + string) \<times> 's) \<Rightarrow> string \<Rightarrow> 's \<Rightarrow> string call_result \<times> 's" where
  "CancelTx_rpc cancel hash st = apfst (reply_or_refuse (\<lambda>newHash. newHash)) (cancel hash st)"

definition ResolveENS_rpc :: "'f handler_env \<Rightarrow> (string \<Rightarrow> err + address) \<Rightarrow> string \<Rightarrow> string call_result" where
  "ResolveENS_rpc h resolve name =
     (case resolve name of
        Inl e \<Rightarrow> if GetCode (Some e) = CodeNotFound then reply '''' else refuse e
      | Inr addr \<Rightarrow> reply (Hex (he_ck h) addr))"

definition ReverseENS_rpc :: "(address \<Rightarrow> err + string) \<Rightarrow> string \<Rightarrow> string call_result" where
  "ReverseENS_rpc reverse addrText =
     (case read_address ''invalid address'' addrText of
        Inl e \<Rightarrow> refuse e
      | Inr addr \<Rightarrow> (case reverse addr of
          Inl e \<Rightarrow> if GetCode (Some e) = CodeNotFound then reply '''' else refuse e
        | Inr name \<Rightarrow> reply name))"

section \<open>Laws\<close>

lemma finish_reply: "finish f r = Answer (Some v) None \<longleftrightarrow> (\<exists>x. r = Returned x \<and> v = f x)"
  by (cases r) (auto simp: finish_def reply_def refuse_def)

lemma returned_Returned: "returned r = Some (Returned v) \<longleftrightarrow> r = Some (Inr v)"
  by (cases r rule: returned.cases) auto

text \<open>The units of a typed amount with no more digits after the point than the token has decimals.\<close>

lemma units_of_digits:
  assumes "n \<le> unat decimals"
  shows "\<exists>a. NewAmountFromTokenUnits (Dec v (- int n)) decimals = Some a \<and> Wei a = v * 10 ^ (unat decimals - n)"
proof -
  obtain m where m: "unat decimals = m" "uint decimals = int m" by (metis uint_nat)
  have "m < 256" using unsigned_less [of decimals, where 'a = nat] m by simp
  with assms m have e: "int32_range (- int n + uint decimals)" by (simp add: int32_range_def)
  have "dec_BigInt (Dec v (- int n + uint decimals)) = v * 10 ^ (unat decimals - n)"
    using assms m by (auto simp: dec_BigInt_def rescale_def nat_diff_distrib')
  with e show ?thesis by (simp add: NewAmountFromTokenUnits_def dec_Mul_def Wei_safe)
qed

text \<open>
  C1. What the user types is what is sent. When the method to send a token answers with a
  receipt for an amount typed as digits, or digits, a point and no more digits than the token
  has decimals, exactly one transaction has been handed to the node: it goes to the contract of
  the token, carries no ether, and its data is the transfer to the typed recipient of exactly
  the typed number in the token's smallest unit.
\<close>

theorem SendToken_exact:
  assumes "all_digits ip" "all_digits fr" "ip \<noteq> []" "parse_digits 10 0 (ip @ fr) = Some v"
    and "metadata ta = Inr token" "length fr \<le> unat (tk_Decimals token)"
    and "SendToken_rpc h (SendToken add remove pack metadata env loaded)
        \<lparr>qt_To = Hex ck to, qt_TokenAddress = Hex ck ta, qt_Amount = (if fr = [] then ip else ip @ ''.'' @ fr), qt_Gas = gas\<rparr> c
      = (Some (Answer (Some receipt) None), c')"
  shows "\<exists>tx. cl_broadcast c' = cl_broadcast c @ [tx] \<and> dt_To tx = Some (tk_Address token) \<and> dt_Value tx = 0
    \<and> pack (Transfer to (int v * 10 ^ (unat (tk_Decimals token) - length fr))) = Inr (dt_Data tx)"
proof -
  let ?d = "Dec (int v) (- int (length fr))"
  have "unat (tk_Decimals token) < 256" using unsigned_less [of "tk_Decimals token", where 'a = nat] by simp
  then have "length fr \<le> 2 ^ 31" using assms(6) by simp
  from NewFromString_number [OF assms(1-4) this, of False]
  have d: "NewFromString (if fr = [] then ip else ip @ ''.'' @ fr) = Inr ?d" by simp
  obtain a where a: "NewAmountFromTokenUnits ?d (tk_Decimals token) = Some a"
      "Wei a = int v * 10 ^ (unat (tk_Decimals token) - length fr)"
    using units_of_digits [OF assms(6), of "int v"] by blast
  obtain r st where send: "SendToken add remove pack metadata env loaded
      \<lparr>pt_TokenAddress = ta, pt_To = to, pt_Amount = ?d, pt_Gas = gasOptionsFromProto h gas\<rparr> c = (r, st)" by force
  with assms(7) d have "map_option (finish receiptToProto) r = Some (Answer (Some receipt) None)" "st = c'"
    by (simp_all add: SendToken_rpc_def read_address_def read_decimal_def)
  then obtain x where "r = Some (Returned x)" by (auto simp: finish_reply)
  with send \<open>st = c'\<close> a(1) assms(5) obtain addr tip gasCap where
      "apfst returned (TransferTokenWithGas add remove pack env addr token to a tip gasCap c) = (Some (Returned x), c')"
    by (auto simp: SendToken_def split: option.splits)
  then have "TransferTokenWithGas add remove pack env addr token to a tip gasCap c = (Some (Inr x), c')"
    by (cases "TransferTokenWithGas add remove pack env addr token to a tip gasCap c") (simp add: returned_Returned)
  then obtain data where data: "pack (Transfer to (Wei a)) = Inr data"
      "SendTx add remove env addr (transfer_request token data tip gasCap) c = (Some (Inr x), c')"
    by (auto simp: TransferTokenWithGas_def split: sum.splits)
  from SendTx_success [OF data(2)] data(1) [unfolded a(2)] show ?thesis
    by (auto simp: transfer_request_def Wei_safe)
qed

definition sample_handler :: "nat handler_env" where
  "sample_handler = \<lparr>he_ck = (\<lambda>a i. False), he_lower = ToLower, he_uni = (\<lambda>s. s), he_trim = (\<lambda>s. s), he_chainID = 1,
     he_tokenList = None, he_nativeLogoURL = [], he_Float64 = (\<lambda>d. 0), he_fixed = (\<lambda>n x. []), he_shortest6 = (\<lambda>x. []),
     he_ParseFloat = (\<lambda>s. None)\<rparr>"

definition sample_pack :: packer where
  "sample_pack m = (case m of Transfer to n \<Rightarrow> Inr [1, word_of_int n] | _ \<Rightarrow> Inl (Sentinel ''no''))"

definition receipt_env :: send_env where
  "receipt_env = sample_env\<lparr>se_wait := [Tick (Inr \<lparr>nr_Status = 1, nr_EffectiveGasPrice = None, nr_GasUsed = 1, nr_BlockNumber = 1\<rparr>)]\<rparr>"

lemma mined_send_returns:
  "\<exists>r c'. SendTx add remove receipt_env addr req sample_client = (Some (Inr r), c')"
  by (simp add: SendTx_def receipt_env_def sample_env_def sample_client_def next_nonce_def gomap_simps Let_def
    GasEstimateWithFees_def GasFees_def GasEstimate_def sample_fees_def)

definition sample_token_send :: "pb_receipt call_result option \<times> pending_tracker client" where
  "sample_token_send = SendToken_rpc sample_handler
     (SendToken Add_pt Remove_pt sample_pack
       (\<lambda>a. Inr \<lparr>tk_Address = 5, tk_Symbol = ''USDC'', tk_Name = ''USD Coin'', tk_Decimals = 6\<rparr>) receipt_env
       (Some \<lparr>wl_privateKey = (), wl_address = 1\<rparr>))
     \<lparr>qt_To = Hex (\<lambda>a i. False) 2, qt_TokenAddress = Hex (\<lambda>a i. False) 5, qt_Amount = ''1.5'', qt_Gas = None\<rparr> sample_client"

lemma SendToken_exact_witness:
  "\<exists>tx. cl_broadcast (snd sample_token_send) = [tx] \<and> dt_To tx = Some 5
     \<and> sample_pack (Transfer 2 1500000) = Inr (dt_Data tx)"
proof -
  let ?usdc = "\<lparr>tk_Address = 5, tk_Symbol = ''USDC'', tk_Name = ''USD Coin'', tk_Decimals = 6\<rparr>"
  let ?send = "SendToken Add_pt Remove_pt sample_pack (\<lambda>a. Inr ?usdc) receipt_env (Some \<lparr>wl_privateKey = (), wl_address = 1\<rparr>)"
  let ?req = "\<lparr>qt_To = Hex (\<lambda>a i. False) 2, qt_TokenAddress = Hex (\<lambda>a i. False) 5, qt_Amount = ''1.5'', qt_Gas = None\<rparr>"
  have digits: "all_digits ''1''" "all_digits ''5''" "parse_digits 10 0 (''1'' @ ''5'') = Some 15" by code_simp+
  have d: "NewFromString ''1.5'' = Inr (Dec 15 (- 1))"
    using NewFromString_number [OF digits(1,2) _ digits(3), of False] by simp
  have a: "NewAmountFromTokenUnits (Dec 15 (- 1)) 6 = Some (Amount (Some 1500000))" by code_simp
  obtain r c' where send: "SendTx Add_pt Remove_pt receipt_env 1
      (transfer_request ?usdc [1, 1500000] None None) sample_client = (Some (Inr r), c')"
    using mined_send_returns by blast
  have run: "SendToken_rpc sample_handler ?send ?req sample_client = (Some (Answer (Some (receiptToProto r)) None), c')"
    by (simp add: SendToken_rpc_def read_address_def read_decimal_def d SendToken_def a gasOptionsFromProto_def
      gasOverrideToAmounts_def gwei_amount_def TransferTokenWithGas_def sample_pack_def Wei_def send finish_def reply_def)
  have "\<exists>tx. cl_broadcast c' = cl_broadcast sample_client @ [tx] \<and> dt_To tx = Some (tk_Address ?usdc) \<and> dt_Value tx = 0
      \<and> sample_pack (Transfer 2 (int 15 * 10 ^ (unat (tk_Decimals ?usdc) - length ''5''))) = Inr (dt_Data tx)"
    by (rule SendToken_exact [where ip = "''1''" and ta = 5 and metadata = "\<lambda>a. Inr ?usdc"]) (use digits run in auto)
  with run show ?thesis unfolding sample_token_send_def by (auto simp: sample_client_def)
qed

end
