(* ===== verification/Rpc_Data.thy ===== *)
theory Rpc_Data
  imports Rpc_Wallet Swaps Watcher Notifications
begin

text \<open>
  The methods of internal/handler/grpc on approvals, contacts, tokens, history, notifications,
  swaps and the event stream (approval.go, contact.go, token.go, history.go, notification.go,
  swap.go, watcher.go). The usecases are arguments, as in the theory of the wallet's methods.
\<close>

section \<open>Approvals\<close>

record pb_approval =
  pa_TokenAddress :: string
  pa_TokenSymbol :: string
  pa_TokenName :: string
  pa_TokenDecimals :: nat
  pa_Spender :: string
  pa_SpenderLabel :: string
  pa_AmountRaw :: string
  pa_AmountHuman :: string
  pa_TokenLogoUrl :: string

definition spenderLabels :: "(string, string) gomap" where
  "spenderLabels =
     [(''0x68b3465833fb72a70ecdf485e0e4c7bd8665fc45'', ''Uniswap V3''),
      (''0x7a250d5630b4cf539739df2c5dacb4c659f2488d'', ''Uniswap V2''),
      (''0x3fc91a3afd70395cd496c647d5a6cc9d4b2b7fad'', ''Uniswap Universal''),
      (''0x1111111254eeb25477b68fb85ed929f73a960582'', ''1inch v5''),
      (''0xdef1c0ded9bec7f1a1670819833240f027b25eff'', ''0x Exchange''),
      (''0x9008d19f58aabd9ed0d60971565aa8510560ab41'', ''CoW Protocol''),
      (''0xdef171fe48cf0115b1d80b88dc8eab59176fee57'', ''Paraswap'')]"

text \<open>\<open>BitLen\<close>: the length of the absolute value.\<close>

fun bit_len :: "nat \<Rightarrow> nat" where
  "bit_len n = (if n = 0 then 0 else Suc (bit_len (n div 2)))"

declare bit_len.simps [simp del]

definition BitLen :: "int \<Rightarrow> nat" where "BitLen n = bit_len (nat \<bar>n\<bar>)"

definition formatApprovalAmount :: "token_approval \<Rightarrow> string" where
  "formatApprovalAmount a =
     (let wei = Wei (ta_Amount a) in
      if BitLen wei \<ge> 252 then ''Unlimited''
      else if wei = 0 then ''0 '' @ tk_Symbol (ta_Token a)
      else (let dec = (if uint (tk_Decimals (ta_Token a)) > 6 then 6 else uint (tk_Decimals (ta_Token a)))
            in StringFixed (ToTokenUnits (ta_Amount a) (tk_Decimals (ta_Token a))) dec @ '' '' @ tk_Symbol (ta_Token a)))"

definition ellipsis :: string where "ellipsis = [CHR 0xE2, CHR 0x80, CHR 0xA6]"

definition approvalToProto :: "'f handler_env \<Rightarrow> token_approval \<Rightarrow> pb_approval" where
  "approvalToProto h a =
     (let s = Hex (he_ck h) (ta_Spender a);
          label = (case map_of spenderLabels (ToLower s) of Some l \<Rightarrow> l
            | None \<Rightarrow> take 10 s @ ellipsis @ drop (length s - 6) s)
      in \<lparr>pa_TokenAddress = Hex (he_ck h) (tk_Address (ta_Token a)), pa_TokenSymbol = tk_Symbol (ta_Token a),
          pa_TokenName = tk_Name (ta_Token a), pa_TokenDecimals = unat (tk_Decimals (ta_Token a)),
          pa_Spender = s, pa_SpenderLabel = label, pa_AmountRaw = show_int (Wei (ta_Amount a)),
          pa_AmountHuman = formatApprovalAmount a, pa_TokenLogoUrl = ''''\<rparr>)"

definition ListApprovals_rpc :: "'f handler_env \<Rightarrow> err + token_approval list \<Rightarrow> pb_approval list call_result" where
  "ListApprovals_rpc h approvals =
     reply_or_refuse (map (\<lambda>a. (approvalToProto h a)\<lparr>pa_TokenLogoUrl := tokenLogoURL h (Hex (he_ck h) (tk_Address (ta_Token a)))\<rparr>))
       approvals"

definition RevokeApproval_rpc ::
  "(address \<Rightarrow> address \<Rightarrow> 's \<Rightarrow> (err + tx_receipt) option \<times> 's) \<Rightarrow> string \<Rightarrow> string \<Rightarrow> 's \<Rightarrow>
   pb_receipt call_result option \<times> 's" where
  "RevokeApproval_rpc revoke tokenText spenderText st =
     (case bindE (read_address ''invalid token address'' tokenText) (\<lambda>tokenAddr.
           bindE (read_address ''invalid spender address'' spenderText) (\<lambda>spender. Inr (tokenAddr, spender))) of
        Inl e \<Rightarrow> (Some (refuse e), st)
      | Inr (tokenAddr, spender) \<Rightarrow>
          apfst (map_option (reply_or_refuse receiptToProto)) (revoke tokenAddr spender st))"

section \<open>Contacts\<close>

definition done_or_refuse :: "err option \<Rightarrow> unit call_result" where
  "done_or_refuse e = (case e of Some x \<Rightarrow> refuse x | None \<Rightarrow> reply ())"

definition CreateContact_rpc ::
  "'f handler_env \<Rightarrow> (create_contact_params \<Rightarrow> 's \<Rightarrow> (err + contact) \<times> 's) \<Rightarrow> string \<Rightarrow> string \<Rightarrow> string \<Rightarrow> 's \<Rightarrow>
   pb_contact call_result \<times> 's" where
  "CreateContact_rpc h create addrText name note st =
     (case NewAddress addrText of
        Inl e \<Rightarrow> (refuse e, st)
      | Inr addr \<Rightarrow> apfst (reply_or_refuse (contactToProto h))
          (create \<lparr>cp_Address = addr, cp_Name = name, cp_Notes = note\<rparr> st))"

definition GetContact_rpc :: "'f handler_env \<Rightarrow> (string \<Rightarrow> err + contact) \<Rightarrow> string \<Rightarrow> pb_contact call_result" where
  "GetContact_rpc h getByID ident = reply_or_refuse (contactToProto h) (getByID ident)"

definition UpdateContact_rpc ::
  "'f handler_env \<Rightarrow> (update_contact_params \<Rightarrow> 's \<Rightarrow> (err + contact) \<times> 's) \<Rightarrow> string \<Rightarrow> string \<Rightarrow> string \<Rightarrow> 's \<Rightarrow>
   pb_contact call_result \<times> 's" where
  "UpdateContact_rpc h update ident name note st =
     apfst (reply_or_refuse (contactToProto h)) (update \<lparr>up_ID = ident, up_Name = name, up_Notes = note\<rparr> st)"

definition DeleteContact_rpc :: "(string \<Rightarrow> 's \<Rightarrow> err option \<times> 's) \<Rightarrow> string \<Rightarrow> 's \<Rightarrow> unit call_result \<times> 's" where
  "DeleteContact_rpc delete ident st = apfst done_or_refuse (delete ident st)"

definition FavoriteContact_rpc ::
  "(string \<Rightarrow> bool \<Rightarrow> 's \<Rightarrow> err option \<times> 's) \<Rightarrow> string \<Rightarrow> bool \<Rightarrow> 's \<Rightarrow> unit call_result \<times> 's" where
  "FavoriteContact_rpc setFavorite ident favorite st = apfst done_or_refuse (setFavorite ident favorite st)"

definition ListContacts_rpc :: "'f handler_env \<Rightarrow> err + contact list \<Rightarrow> pb_contact list call_result" where
  "ListContacts_rpc h contacts = reply_or_refuse (map (contactToProto h)) contacts"

section \<open>Tokens\<close>

definition AddToken_rpc ::
  "'f handler_env \<Rightarrow> (add_token_params \<Rightarrow> 's \<Rightarrow> (err + watched_token) \<times> 's) \<Rightarrow> string \<Rightarrow> 's \<Rightarrow>
   pb_watched_token call_result \<times> 's" where
  "AddToken_rpc h add addrText st =
     (case NewAddress addrText of
        Inl e \<Rightarrow> (refuse e, st)
      | Inr addr \<Rightarrow> apfst (reply_or_refuse (watchedTokenToProto h))
          (add \<lparr>ap_ContractAddress = addr, ap_Symbol = '''', ap_Name = '''', ap_Decimals = 0\<rparr> st))"

definition RemoveToken_rpc :: "(string \<Rightarrow> 's \<Rightarrow> err option \<times> 's) \<Rightarrow> string \<Rightarrow> 's \<Rightarrow> unit call_result \<times> 's" where
  "RemoveToken_rpc remove ident st = apfst done_or_refuse (remove ident st)"

definition ListTokens_rpc :: "'f handler_env \<Rightarrow> err + watched_token list \<Rightarrow> pb_watched_token list call_result" where
  "ListTokens_rpc h tokens = reply_or_refuse (map (watchedTokenToProto h)) tokens"

definition ListTokensWithBalances_rpc ::
  "('f :: {linorder, zero}) handler_env \<Rightarrow> address \<Rightarrow> (address \<Rightarrow> 'p \<Rightarrow> (err + 'f token_with_balance list) \<times> 'p) \<Rightarrow> 'p \<Rightarrow>
   'f pb_token_with_balance list call_result \<times> 'p" where
  "ListTokensWithBalances_rpc h addr list_balances feed =
     (if IsZero_address addr then (reply [], feed)
      else apfst (reply_or_refuse (map (tokenWithBalanceToProto h))) (list_balances addr feed))"

definition PinToken_rpc :: "(string \<Rightarrow> bool \<Rightarrow> 's \<Rightarrow> err option \<times> 's) \<Rightarrow> string \<Rightarrow> bool \<Rightarrow> 's \<Rightarrow> unit call_result \<times> 's" where
  "PinToken_rpc pin ident pinned st = apfst done_or_refuse (pin ident pinned st)"

definition HideToken_rpc :: "(string \<Rightarrow> bool \<Rightarrow> 's \<Rightarrow> err option \<times> 's) \<Rightarrow> string \<Rightarrow> bool \<Rightarrow> 's \<Rightarrow> unit call_result \<times> 's" where
  "HideToken_rpc hide ident hidden st = apfst done_or_refuse (hide ident hidden st)"

section \<open>History\<close>

record pb_history_request =
  qh_Address :: string
  qh_Limit :: int
  qh_Cursor :: string

record pb_history =
  pi_Items :: "pb_history_item list"
  pi_NextCursor :: string
  pi_HasMore :: bool
  pi_TotalCount :: int

definition watched_contracts :: "err + watched_token list \<Rightarrow> address list" where
  "watched_contracts tokens = (case tokens of Inl e \<Rightarrow> [] | Inr ts \<Rightarrow> map (\<lambda>t. tk_Address (wt_Token t)) ts)"

text \<open>The distinct symbols are the keys of a map; \<open>order\<close> is the order in which they are ranged over.\<close>

definition history_symbols :: "'f handler_env \<Rightarrow> transaction list \<Rightarrow> string list" where
  "history_symbols h txs' = remdups (''ETH'' #
     map (\<lambda>t. ToUpper_with (he_uni h) (tx_Asset t)) (filter (\<lambda>t. tx_Asset t \<noteq> '''') txs'))"

definition price_token :: "'f handler_env \<Rightarrow> string \<Rightarrow> priceable_token" where
  "price_token h s =
     \<lparr>priceable_token.pt_Symbol = s,
      pt_Address = (if s = ''ETH'' then '''' else the_default '''' (AddressBySymbol (he_uni h) (he_tokenList h) (he_chainID h) s))\<rparr>"

definition GetHistory_rpc ::
  "'f handler_env \<Rightarrow> (string list \<Rightarrow> string list) \<Rightarrow> address \<Rightarrow> err + watched_token list \<Rightarrow>
   (history_params \<Rightarrow> address list \<Rightarrow> 's \<Rightarrow> (err + history_result) \<times> 's) \<Rightarrow>
   (priceable_token list \<Rightarrow> 'p \<Rightarrow> ('f :: times) prices \<times> 'p) \<Rightarrow> pb_history_request \<Rightarrow> 's \<Rightarrow> 'p \<Rightarrow>
   pb_history call_result \<times> 's \<times> 'p" where
  "GetHistory_rpc h order loaded tokens get pricesFor req st feed =
     (case (if qh_Address req = '''' then Inr loaded else read_address ''invalid address'' (qh_Address req)) of
        Inl e \<Rightarrow> (refuse e, st, feed)
      | Inr addr \<Rightarrow>
        (let limit = (if qh_Limit req > 0 then qh_Limit req else 20) in
         case get \<lparr>hp_Address = addr, hp_Limit = limit, hp_Cursor = qh_Cursor req\<rparr> (watched_contracts tokens) st of
           (Inl e, st') \<Rightarrow> (refuse e, st', feed)
         | (Inr res, st') \<Rightarrow>
           (let priceTokens = map (price_token h) (order (history_symbols h (hr_Transactions res)));
                (prices, feed') = pricesFor priceTokens feed
            in (reply \<lparr>pi_Items = historyToProto h res prices, pi_NextCursor = hr_NextCursor res,
                  pi_HasMore = hr_HasMore res, pi_TotalCount = sint (word_of_int (hr_Total res) :: u32)\<rparr>, st', feed'))))"

section \<open>Notifications\<close>

definition notificationsDefaultLimit :: int where "notificationsDefaultLimit = 100"
definition notificationsMaxLimit :: int where "notificationsMaxLimit = 200"

definition clampNotificationsLimit :: "int \<Rightarrow> int" where
  "clampNotificationsLimit i =
     (if i \<le> 0 then notificationsDefaultLimit else if i > notificationsMaxLimit then notificationsMaxLimit else i)"

record pb_envelope =
  pn_Id :: string
  pn_IsRead :: bool
  pn_Event :: pb_event

text \<open>A payload that cannot be decoded is left out.\<close>

fun envelopes :: "(u8 list \<Rightarrow> err + pb_event) \<Rightarrow> notification list \<Rightarrow> pb_envelope list" where
  "envelopes unmarshal [] = []"
| "envelopes unmarshal (n # ns) =
     (case unmarshal (nf_Payload n) of
        Inl e \<Rightarrow> envelopes unmarshal ns
      | Inr ev \<Rightarrow> \<lparr>pn_Id = nf_ID n, pn_IsRead = nf_IsRead n, pn_Event = ev\<rparr> # envelopes unmarshal ns)"

definition ListNotifications_rpc ::
  "(u8 list \<Rightarrow> err + pb_event) \<Rightarrow> (int \<Rightarrow> err + notification list) \<Rightarrow> int \<Rightarrow> pb_envelope list call_result" where
  "ListNotifications_rpc unmarshal list_rows limit =
     reply_or_refuse (envelopes unmarshal) (list_rows (clampNotificationsLimit limit))"

definition MarkNotificationRead_rpc :: "(string \<Rightarrow> 's \<Rightarrow> err option \<times> 's) \<Rightarrow> string \<Rightarrow> 's \<Rightarrow> unit call_result \<times> 's" where
  "MarkNotificationRead_rpc markRead ident st = apfst done_or_refuse (markRead ident st)"

definition MarkAllNotificationsRead_rpc :: "('s \<Rightarrow> err option \<times> 's) \<Rightarrow> 's \<Rightarrow> unit call_result \<times> 's" where
  "MarkAllNotificationsRead_rpc markAll st = apfst done_or_refuse (markAll st)"

definition ClearNotifications_rpc :: "('s \<Rightarrow> err option \<times> 's) \<Rightarrow> 's \<Rightarrow> unit call_result \<times> 's" where
  "ClearNotifications_rpc clear st = apfst done_or_refuse (clear st)"

record pb_settings =
  ps_PlaySound :: bool
  ps_MacosToasts :: bool
  ps_AutoMarkRead :: bool
  ps_AutoDeleteDays :: int
  ps_MuteSystemAlerts :: bool

definition settingsToProto :: "settings option \<Rightarrow> pb_settings" where
  "settingsToProto s =
     (case s of
        None \<Rightarrow> \<lparr>ps_PlaySound = False, ps_MacosToasts = False, ps_AutoMarkRead = False, ps_AutoDeleteDays = 0,
          ps_MuteSystemAlerts = False\<rparr>
      | Some t \<Rightarrow> \<lparr>ps_PlaySound = se_PlaySound t, ps_MacosToasts = se_MacOSToasts t, ps_AutoMarkRead = se_AutoMarkRead t,
          ps_AutoDeleteDays = se_AutoDeleteDays t, ps_MuteSystemAlerts = se_MuteSystemAlerts t\<rparr>)"

definition settingsFromProto :: "pb_settings \<Rightarrow> settings" where
  "settingsFromProto p =
     \<lparr>se_PlaySound = ps_PlaySound p, se_MacOSToasts = ps_MacosToasts p, se_AutoMarkRead = ps_AutoMarkRead p,
      se_AutoDeleteDays = ps_AutoDeleteDays p, se_MuteSystemAlerts = ps_MuteSystemAlerts p, se_UpdatedAt = zero_time\<rparr>"

definition GetNotificationSettings_rpc :: "err + settings \<Rightarrow> pb_settings call_result" where
  "GetNotificationSettings_rpc get = reply_or_refuse (\<lambda>s. settingsToProto (Some s)) get"

text \<open>\<open>None\<close> in the answer is a message without settings.\<close>

definition UpdateNotificationSettings_rpc ::
  "(settings \<Rightarrow> 's \<Rightarrow> err option \<times> 's) \<Rightarrow> pb_settings option \<Rightarrow> 's \<Rightarrow> pb_settings option call_result \<times> 's" where
  "UpdateNotificationSettings_rpc update in_settings st =
     (case in_settings of
        None \<Rightarrow> (reply None, st)
      | Some p \<Rightarrow>
        (let domain = settingsFromProto p in
         case update domain st of
           (Some e, st') \<Rightarrow> (refuse e, st')
         | (None, st') \<Rightarrow> (reply (Some (settingsToProto (Some domain))), st')))"

section \<open>Swaps\<close>

datatype pb_pool_fee =
    POOL_FEE_UNSPECIFIED | POOL_FEE_100 | POOL_FEE_500 | POOL_FEE_3000 | POOL_FEE_10000 | POOL_FEE_OTHER int

definition poolFeeFromProto :: "pb_pool_fee \<Rightarrow> pool_fee" where
  "poolFeeFromProto fee =
     (case fee of POOL_FEE_100 \<Rightarrow> PoolFee01 | POOL_FEE_500 \<Rightarrow> PoolFee005 | POOL_FEE_3000 \<Rightarrow> PoolFee03
      | POOL_FEE_10000 \<Rightarrow> PoolFee1 | POOL_FEE_UNSPECIFIED \<Rightarrow> PoolFee03 | POOL_FEE_OTHER i \<Rightarrow> PoolFee03)"

record pb_swap_request =
  qw_TokenIn :: string
  qw_TokenOut :: string
  qw_AmountIn :: string
  qw_Fee :: pb_pool_fee
  qw_Gas :: "pb_gas_options option"

record pb_swap_quote =
  pq_AmountOut :: string
  pq_AmountOutRaw :: string
  pq_PriceImpactBps :: string
  pq_GasEstimate :: string
  pq_GasCostUsd :: string
  pq_MaxFeeGwei :: string

text \<open>The tokens and the amount of a request, read in the order of the code.\<close>

definition read_swap :: "(string \<Rightarrow> err + token) \<Rightarrow> pb_swap_request \<Rightarrow> err + token \<times> token \<times> decimal" where
  "read_swap resolve req =
     bindE (mapE (wrap CodeInvalidArgument ''invalid token_in'') (resolve (qw_TokenIn req))) (\<lambda>tokenIn.
     bindE (mapE (wrap CodeInvalidArgument ''invalid token_out'') (resolve (qw_TokenOut req))) (\<lambda>tokenOut.
     bindE (read_decimal ''invalid amount_in'' (qw_AmountIn req)) (\<lambda>d. Inr (tokenIn, tokenOut, d))))"

definition quote_gas_cost ::
  "('f :: {linorder, inverse, numeral, times, zero}) handler_env \<Rightarrow> err + gas_info \<Rightarrow> (string \<Rightarrow> 'p \<Rightarrow> 'f \<times> 'p) \<Rightarrow>
   swap_quote \<Rightarrow> 'p \<Rightarrow> string \<times> string \<times> 'p" where
  "quote_gas_cost h gasFees priceOf quote feed =
     (case gasFees of
        Inl e \<Rightarrow> ('''', '''', feed)
      | Inr gasInfo \<Rightarrow>
        (let maxFeeGwei = StringFixed (ToGwei (MaxFee gasInfo)) 2;
             (ethPrice, feed') = priceOf ''ETH'' feed
         in if ethPrice > 0
            then (let wei = uint (sq_GasEstimate quote) * Wei (MaxFee gasInfo);
                      costUSD = he_Float64 h (dec_Div (Dec wei 0) (Dec 1 18)) * ethPrice
                  in (if costUSD < inverse 100 then ''$'' @ he_fixed h 4 costUSD else ''$'' @ he_fixed h 2 costUSD,
                      maxFeeGwei, feed'))
            else ('''', maxFeeGwei, feed')))"

definition QuoteSwap_rpc ::
  "('f :: {linorder, inverse, numeral, times, zero}) handler_env \<Rightarrow> (string \<Rightarrow> err + token) \<Rightarrow>
   (quote_params \<Rightarrow> err + swap_quote) \<Rightarrow> err + gas_info \<Rightarrow> (string \<Rightarrow> 'p \<Rightarrow> 'f \<times> 'p) \<Rightarrow> pb_swap_request \<Rightarrow> 'p \<Rightarrow>
   pb_swap_quote call_result \<times> 'p" where
  "QuoteSwap_rpc h resolve quote gasFees priceOf req feed =
     (case read_swap resolve req of
        Inl e \<Rightarrow> (refuse e, feed)
      | Inr (tokenIn, tokenOut, d) \<Rightarrow>
        (case NewAmountFromTokenUnits d (tk_Decimals tokenIn) of
           None \<Rightarrow> (Panics, feed)
         | Some amountIn \<Rightarrow>
           (case quote \<lparr>qp_TokenIn = tokenIn, qp_TokenOut = tokenOut, qp_AmountIn = amountIn,
                 qp_Fee = poolFeeFromProto (qw_Fee req)\<rparr> of
              Inl e \<Rightarrow> (refuse e, feed)
            | Inr q \<Rightarrow>
              (let (gasCostUSD, maxFeeGwei, feed') = quote_gas_cost h gasFees priceOf q feed
               in (reply \<lparr>pq_AmountOut = dec_String (ToTokenUnits (sq_AmountOut q) (tk_Decimals tokenOut)),
                     pq_AmountOutRaw = Amount_String (sq_AmountOut q), pq_PriceImpactBps = ''0'',
                     pq_GasEstimate = show_nat (unat (sq_GasEstimate q)), pq_GasCostUsd = gasCostUSD,
                     pq_MaxFeeGwei = maxFeeGwei\<rparr>, feed')))))"

text \<open>The job after a swap; its failures are logged. A native leg is not a watchlist token.\<close>

definition ensure_leg :: "(add_token_params \<Rightarrow> 's \<Rightarrow> (err + watched_token) \<times> 's) \<Rightarrow> token \<Rightarrow> 's \<Rightarrow> 's" where
  "ensure_leg ensure t st =
     (if IsZero_address (tk_Address t) then st
      else snd (ensure \<lparr>ap_ContractAddress = tk_Address t, ap_Symbol = tk_Symbol t, ap_Name = tk_Name t,
             ap_Decimals = tk_Decimals t\<rparr> st))"

definition ensureSwapTokensWatchedAndSync ::
  "(add_token_params \<Rightarrow> 's \<Rightarrow> (err + watched_token) \<times> 's) \<Rightarrow> ('s \<Rightarrow> err + watched_token list) \<Rightarrow>
   (address \<Rightarrow> address list \<Rightarrow> 's \<Rightarrow> err option \<times> 's) \<Rightarrow> address \<Rightarrow> token \<Rightarrow> token \<Rightarrow> 's \<Rightarrow> 's" where
  "ensureSwapTokensWatchedAndSync ensure list_tokens syncForce addr tokenIn tokenOut st =
     (if IsZero_address addr then st
      else (let st2 = ensure_leg ensure tokenOut (ensure_leg ensure tokenIn st)
            in snd (syncForce addr (watched_contracts (list_tokens st2)) st2)))"

text \<open>The third component is the job to run, with the tokens of the swap.\<close>

definition ExecuteSwap_rpc ::
  "'f handler_env \<Rightarrow> (string \<Rightarrow> err + token) \<Rightarrow> (execute_params \<Rightarrow> 's \<Rightarrow> (err + tx_receipt) option \<times> 's) \<Rightarrow>
   pb_swap_request \<Rightarrow> 's \<Rightarrow> pb_receipt call_result option \<times> 's \<times> (token \<times> token) option" where
  "ExecuteSwap_rpc h resolve execute req st =
     (case read_swap resolve req of
        Inl e \<Rightarrow> (Some (refuse e), st, None)
      | Inr (tokenIn, tokenOut, d) \<Rightarrow>
        (case ToTipCap (gasOptionsFromProto h (qw_Gas req)) of
           None \<Rightarrow> (Some Panics, st, None)
         | Some (gasTip, gasCap) \<Rightarrow>
           (case NewAmountFromTokenUnits d (tk_Decimals tokenIn) of
              None \<Rightarrow> (Some Panics, st, None)
            | Some amountIn \<Rightarrow>
              (case execute \<lparr>ep_TokenIn = tokenIn, ep_TokenOut = tokenOut, ep_AmountIn = amountIn, ep_SlippageBps = 50,
                    ep_Fee = poolFeeFromProto (qw_Fee req), ep_GasTip = gasTip, ep_GasCap = gasCap\<rparr> st of
                 (None, st') \<Rightarrow> (None, st', None)
               | (Some (Inl e), st') \<Rightarrow> (Some (refuse e), st', None)
               | (Some (Inr r), st') \<Rightarrow> (Some (reply (receiptToProto r)), st', Some (tokenIn, tokenOut))))))"

section \<open>The event stream\<close>

text \<open>
  What the loop meets: the end of the stream's context, the end of its channel, or an event
  with the result of sending its envelope. It has not returned when these run out.
\<close>

datatype 'f stream_input = StreamDone | ChannelClosed | StreamEvent "'f wallet_event" "err option"

definition stream_envelope :: "('f \<Rightarrow> string) \<Rightarrow> 'f wallet_event \<Rightarrow> pb_envelope option" where
  "stream_envelope fmt2 event =
     map_option (\<lambda>ev. \<lparr>pn_Id = we_ID event, pn_IsRead = False, pn_Event = ev\<rparr>) (WalletEventToProto fmt2 event)"

fun stream_loop :: "('f \<Rightarrow> string) \<Rightarrow> 'f stream_input list \<Rightarrow> pb_envelope list \<Rightarrow> err option option \<times> pb_envelope list" where
  "stream_loop fmt2 [] sent = (None, sent)"
| "stream_loop fmt2 (StreamDone # is) sent = (Some None, sent)"
| "stream_loop fmt2 (ChannelClosed # is) sent = (Some None, sent)"
| "stream_loop fmt2 (StreamEvent event sendErr # is) sent =
     (case stream_envelope fmt2 event of
        None \<Rightarrow> stream_loop fmt2 is sent
      | Some env \<Rightarrow> (case sendErr of
          Some e \<Rightarrow> (Some (HandleError (Some e)), sent)
        | None \<Rightarrow> stream_loop fmt2 is (sent @ [env])))"

text \<open>The subscription is dropped when the loop returns. \<open>inputs\<close> depends on the channel subscribed.\<close>

definition WatchEvents_rpc ::
  "('f \<Rightarrow> string) \<Rightarrow> (nat \<Rightarrow> 'f stream_input list) \<Rightarrow> ('f, 's) hub \<Rightarrow>
   err option option \<times> pb_envelope list \<times> ('f, 's) hub" where
  "WatchEvents_rpc fmt2 inputs hub =
     (let (ch, hub1) = Subscribe hub;
          (r, sent) = stream_loop fmt2 (inputs ch) []
      in (r, sent, case r of None \<Rightarrow> hub1 | Some e \<Rightarrow> unsub ch hub1))"

section \<open>Laws\<close>

lemma bit_len_ge: "bit_len n \<ge> Suc k \<longleftrightarrow> 2 ^ k \<le> n"
proof (induction k arbitrary: n)
  case 0
  show ?case by (subst bit_len.simps) auto
next
  case (Suc k)
  have "bit_len n \<ge> Suc (Suc k) \<longleftrightarrow> n \<noteq> 0 \<and> bit_len (n div 2) \<ge> Suc k" by (subst bit_len.simps) auto
  also have "\<dots> \<longleftrightarrow> n \<noteq> 0 \<and> 2 ^ k \<le> n div 2" by (simp only: Suc.IH)
  also have "\<dots> \<longleftrightarrow> 2 ^ Suc k \<le> n" by (cases n) (auto simp: less_eq_div_iff_mult_less_eq ac_simps)
  finally show ?case .
qed

text \<open>
  An allowance is shown as unlimited from \<open>2 ^ 251\<close> wei on: from a thirty-second of the
  largest allowance, not from one percent below it.
\<close>

lemma shown_unlimited:
  assumes "0 \<le> Wei (ta_Amount a)"
  shows "BitLen (Wei (ta_Amount a)) \<ge> 252 \<longleftrightarrow> 2 ^ 251 \<le> Wei (ta_Amount a)"
proof -
  have "BitLen (Wei (ta_Amount a)) \<ge> Suc 251 \<longleftrightarrow> (2 :: nat) ^ 251 \<le> nat (Wei (ta_Amount a))"
    unfolding BitLen_def bit_len_ge using assms by simp
  also have "\<dots> \<longleftrightarrow> 2 ^ 251 \<le> Wei (ta_Amount a)" using assms by (simp add: le_nat_iff)
  finally show ?thesis by simp
qed

lemma clamp_bounds: "1 \<le> clampNotificationsLimit i \<and> clampNotificationsLimit i \<le> 200"
  by (simp add: clampNotificationsLimit_def notificationsDefaultLimit_def notificationsMaxLimit_def)

lemma settings_proto_roundtrip: "settingsToProto (Some (settingsFromProto p)) = p"
  by (simp add: settingsToProto_def settingsFromProto_def)

section \<open>The job after a swap\<close>

text \<open>The watchlist's part of the handler's interface, on a table and any further state.\<close>

definition ensure_watched ::
  "checksum \<Rightarrow> (string \<Rightarrow> string) \<Rightarrow> (add_token_params \<Rightarrow> add_env) \<Rightarrow> add_token_params \<Rightarrow> watchlist \<times> 'x \<Rightarrow>
   (err + watched_token) \<times> watchlist \<times> 'x" where
  "ensure_watched ck quote env p st =
     (case EnsureWatched ck quote None None (env p) p (fst st) of (r, rows) \<Rightarrow> (r, rows, snd st))"

definition list_watched :: "(string \<Rightarrow> string) \<Rightarrow> watchlist \<times> 'x \<Rightarrow> err + watched_token list" where
  "list_watched quote st = List_token_rows quote None None (fst st)"

definition watched_set :: "watchlist \<Rightarrow> address set" where
  "watched_set rows = wt_Address ` ran (token_book rows)"

lemma Add_token_failed:
  assumes "tokens_ok ck rows" "List_token_rows quote None None rows = Inr ws"
    and "find (same_contract ck (ap_ContractAddress p)) ws = None" "Add_token ck quote env p rows = (Inl e, rows')"
  shows "rows' = rows"
proof (cases "List_token_rows quote (ae_list env) (ae_iter env) rows")
  case (Inl x)
  then show ?thesis using assms(4) by (simp add: Add_token_def)
next
  case (Inr ws')
  then have l: "List_token_rows quote (ae_list env) (ae_iter env) rows = Inr ws"
    using List_tokens_cases [OF Inr] assms(2) by simp
  show ?thesis
  proof (cases "new_token (ae_meta env) p")
    case (Inl x)
    then show ?thesis using assms(3,4) l by (simp add: Add_token_def)
  next
    case (Inr tok)
    let ?w = "\<lparr>wt_ID = ae_ulid env, wt_Token = tok, wt_IsPinned = False, wt_IsHidden = False, wt_AddedAt = ae_now env\<rparr>"
    from assms(1) show ?thesis
      by (cases rule: Create_token_row_cases [of ck rows "ae_create env" ?w])
        (use assms(3,4) l Inr in \<open>simp_all add: Add_token_def\<close>)
  qed
qed

lemma watched_set_upd:
  assumes "case token_book rows (wt_ID w) of None \<Rightarrow> True | Some w0 \<Rightarrow> wt_Address w = wt_Address w0"
    and "token_book rows' = (token_book rows)(wt_ID w \<mapsto> w)"
  shows "watched_set rows' = insert (wt_Address w) (watched_set rows)"
proof -
  have "wt_Address ` ran (token_book rows') \<subseteq> insert (wt_Address w) (wt_Address ` ran (token_book rows))"
    unfolding assms(2) by (auto simp: ran_def)
  moreover have "wt_Address v \<in> wt_Address ` ran (token_book rows')" if "token_book rows i = Some v" for i v
  proof (cases "i = wt_ID w")
    case True
    then have "wt_Address v = wt_Address w" using assms(1) that by simp
    then show ?thesis unfolding assms(2) by (auto simp: ran_def)
  next
    case False
    then show ?thesis unfolding assms(2) using that by (auto simp: ran_def)
  qed
  moreover have "wt_Address w \<in> wt_Address ` ran (token_book rows')" unfolding assms(2) by (auto simp: ran_def)
  ultimately show ?thesis by (auto simp: watched_set_def ran_def)
qed

lemma EnsureWatched_grows:
  assumes "tokens_ok ck rows" "EnsureWatched ck quote None None env p rows = (r, rows')"
  shows "tokens_ok ck rows' \<and> watched_set rows \<subseteq> watched_set rows'
    \<and> (\<forall>w. r = Inr w \<longrightarrow> ap_ContractAddress p \<in> watched_set rows')"
proof -
  obtain ws where ws: "List_token_rows quote None None rows = Inr ws"
    using wl.list_book [OF assms(1), of quote] by blast
  show ?thesis
  proof (cases "find (same_contract ck (ap_ContractAddress p)) ws")
    case (Some w0)
    have "token_book rows (wt_ID w0) = Some w0" "wt_Address w0 = ap_ContractAddress p"
      using Some find_contract(1) [OF assms(1) ws] by auto
    then have "ap_ContractAddress p \<in> watched_set rows" by (force simp: watched_set_def ran_def)
    moreover have "rows' = rows" using assms(2) by (simp add: EnsureWatched_def ws Some del: same_contract_iff)
    ultimately show ?thesis using assms(1) by simp
  next
    case None
    then have add: "Add_token ck quote env p rows = (r, rows')"
      using assms(2) by (simp add: EnsureWatched_def ws del: same_contract_iff)
    show ?thesis
    proof (cases r)
      case (Inl e)
      from Add_token_failed [OF assms(1) ws None add [unfolded Inl]] assms(1) Inl show ?thesis by simp
    next
      case (Inr w)
      from Add_token_watched [OF assms(1) add [unfolded Inr]]
      have t: "tokens_ok ck rows'" "wt_Address w = ap_ContractAddress p" "token_book rows' = (token_book rows)(wt_ID w \<mapsto> w)"
        "case token_book rows (wt_ID w) of None \<Rightarrow> True | Some w0 \<Rightarrow> wt_Address w = wt_Address w0"
        by (auto split: option.splits)
      from watched_set_upd [OF t(4,3)] t(1,2) show ?thesis by auto
    qed
  qed
qed

text \<open>Whether a leg was put on the watchlist.\<close>

definition leg_added ::
  "checksum \<Rightarrow> (string \<Rightarrow> string) \<Rightarrow> (add_token_params \<Rightarrow> add_env) \<Rightarrow> token \<Rightarrow> watchlist \<times> 'x \<Rightarrow> bool" where
  "leg_added ck quote env t st \<longleftrightarrow>
     error_of (fst (ensure_watched ck quote env \<lparr>ap_ContractAddress = tk_Address t, ap_Symbol = tk_Symbol t,
       ap_Name = tk_Name t, ap_Decimals = tk_Decimals t\<rparr> st)) = None"

lemma ensure_leg_grows:
  assumes "tokens_ok ck (fst st)"
  shows "tokens_ok ck (fst (ensure_leg (ensure_watched ck quote env) t st))
    \<and> snd (ensure_leg (ensure_watched ck quote env) t st) = snd st
    \<and> watched_set (fst st) \<subseteq> watched_set (fst (ensure_leg (ensure_watched ck quote env) t st))
    \<and> (tk_Address t = 0 \<or> \<not> leg_added ck quote env t st
       \<or> tk_Address t \<in> watched_set (fst (ensure_leg (ensure_watched ck quote env) t st)))"
proof (cases "tk_Address t = 0")
  case True
  then show ?thesis using assms by (simp add: ensure_leg_def IsZero_address_def ZeroAddress_def)
next
  case False
  let ?p = "\<lparr>ap_ContractAddress = tk_Address t, ap_Symbol = tk_Symbol t, ap_Name = tk_Name t, ap_Decimals = tk_Decimals t\<rparr>"
  obtain r rows' where run: "EnsureWatched ck quote None None (env ?p) ?p (fst st) = (r, rows')" by force
  from EnsureWatched_grows [OF assms run] False run show ?thesis
    by (cases r) (auto simp: ensure_leg_def ensure_watched_def leg_added_def IsZero_address_def ZeroAddress_def)
qed

text \<open>
  C16. After a swap both of its tokens are on the watchlist before the history is synchronised.
  The job that follows a successful swap runs the forced synchronisation of the wallet's
  address with exactly the contracts of the watchlist as it then is: all that were watched
  before, and each of the swap's contracts unless its adding failed. Nothing else of the state
  is touched before, and without a wallet nothing happens.
\<close>

theorem swap_job_watches:
  assumes "tokens_ok ck rows" "addr \<noteq> 0"
  shows "\<exists>rows' contracts.
      ensureSwapTokensWatchedAndSync (ensure_watched ck quote env) (list_watched quote) syncForce addr tokenIn tokenOut (rows, x)
        = snd (syncForce addr contracts (rows', x))
    \<and> tokens_ok ck rows' \<and> set contracts = watched_set rows' \<and> watched_set rows \<subseteq> set contracts
    \<and> (tk_Address tokenIn = 0 \<or> \<not> leg_added ck quote env tokenIn (rows, x) \<or> tk_Address tokenIn \<in> set contracts)
    \<and> (tk_Address tokenOut = 0
       \<or> \<not> leg_added ck quote env tokenOut (ensure_leg (ensure_watched ck quote env) tokenIn (rows, x))
       \<or> tk_Address tokenOut \<in> set contracts)"
proof -
  let ?st1 = "ensure_leg (ensure_watched ck quote env) tokenIn (rows, x)"
  let ?st2 = "ensure_leg (ensure_watched ck quote env) tokenOut ?st1"
  note one = ensure_leg_grows [of ck "(rows, x)" quote env tokenIn, simplified, OF assms(1)]
  note two = ensure_leg_grows [of ck ?st1 quote env tokenOut, OF one [THEN conjunct1]]
  obtain rows' where st2: "?st2 = (rows', x)" using one two by (metis prod.collapse)
  then have ok: "tokens_ok ck rows'" using two by simp
  obtain ws where ws: "List_token_rows quote None None rows' = Inr ws" "set ws = ran (token_book rows')"
    using wl.list_book [OF ok, of quote] by blast
  let ?contracts = "watched_contracts (Inr ws)"
  have set_c: "set ?contracts = watched_set rows'" by (simp add: watched_contracts_def watched_set_def ws(2) image_image)
  have "ensureSwapTokensWatchedAndSync (ensure_watched ck quote env) (list_watched quote) syncForce addr tokenIn tokenOut (rows, x)
      = snd (syncForce addr ?contracts (rows', x))"
    using assms(2) by (simp add: ensureSwapTokensWatchedAndSync_def IsZero_address_def ZeroAddress_def st2 list_watched_def ws(1))
  moreover have "watched_set rows \<subseteq> set ?contracts" using one two st2 unfolding set_c by auto
  moreover have "tk_Address tokenIn = 0 \<or> \<not> leg_added ck quote env tokenIn (rows, x) \<or> tk_Address tokenIn \<in> set ?contracts"
    using one two st2 unfolding set_c by auto
  moreover have "tk_Address tokenOut = 0 \<or> \<not> leg_added ck quote env tokenOut ?st1 \<or> tk_Address tokenOut \<in> set ?contracts"
    using two st2 unfolding set_c by auto
  ultimately show ?thesis using ok set_c by blast
qed

definition swap_job_example :: "watchlist \<times> address list" where
  "swap_job_example = ensureSwapTokensWatchedAndSync
     (ensure_watched (\<lambda>_ _. False) (\<lambda>s. s) (\<lambda>p. sample_add)) (list_watched (\<lambda>s. s)) (\<lambda>a cs st. (None, (fst st, cs)))
     1 NativeETH \<lparr>tk_Address = 7, tk_Symbol = ''USDC'', tk_Name = ''USD Coin'', tk_Decimals = 6\<rparr> ([], [])"

lemma swap_job_watches_witness: "7 \<in> set (snd swap_job_example)"
proof -
  let ?ck = "\<lambda>_ _. False"
  let ?usdc = "\<lparr>tk_Address = 7, tk_Symbol = ''USDC'', tk_Name = ''USD Coin'', tk_Decimals = 6\<rparr>"
  have first: "ensure_leg (ensure_watched ?ck (\<lambda>s. s) (\<lambda>p. sample_add)) NativeETH ([], []) = ([], [] :: address list)"
    by (simp add: ensure_leg_def NativeETH_def IsZero_address_def ZeroAddress_def)
  have "leg_added ?ck (\<lambda>s. s) (\<lambda>p. sample_add) ?usdc ([], [] :: address list)"
    by (simp add: leg_added_def ensure_watched_def EnsureWatched_def Add_token_def sample_add_def List_token_rows_def
      read_rows_def new_token_def Create_token_row_def insert_unique_def Let_def)
  with swap_job_watches [OF wl.empty_table(1), of 1 "\<lambda>_ _. False" "\<lambda>s. s" "\<lambda>p. sample_add" "\<lambda>a cs st. (None, (fst st, cs))"
      NativeETH ?usdc "[]"] first
  show ?thesis unfolding swap_job_example_def by (auto simp: NativeETH_def)
qed

section \<open>Live and stored events\<close>

text \<open>The sink of the watcher: the usecase of the notifications.\<close>

definition notification_sink :: "(string \<Rightarrow> time option) \<Rightarrow> string \<Rightarrow> time \<Rightarrow> notification_db sink" where
  "notification_sink datetime ulid now kind txHash payload isOurs db =
     Save_notification datetime no_faults ulid now kind txHash payload isOurs db"

lemma proto_of_identified: "WalletEventToProto fmt2 (e\<lparr>we_ID := i\<rparr>) = WalletEventToProto fmt2 e"
  by (simp add: WalletEventToProto_def)

lemma Save_first:
  assumes "distinct (map nr_id (nd_rows db))" "ulid \<notin> nr_id ` set (nd_rows db)"
    and "\<forall>r \<in> set (nd_rows db). nr_created_at r < now" "\<forall>m t. datetime m = Some t \<longrightarrow> t \<le> now"
  shows "\<exists>db' n rest. Save_notification datetime no_faults ulid now kind txHash payload isOurs db = (Inr ulid, db')
    \<and> newest_first (nd_rows db') = notification_row n # rest \<and> nf_ID n = ulid \<and> nf_Payload n = payload"
proof -
  obtain s where s: "GetSettings_row no_fault (nd_settings db) = Inr s" using GetSettings_ok by blast
  let ?new = "saved_row s ulid now kind txHash payload isOurs"
  obtain kept where k: "Save_notification datetime no_faults ulid now kind txHash payload isOurs db
      = (Inr ulid, db\<lparr>nd_rows := filter (\<lambda>r. \<not> outdated datetime s r) kept\<rparr>)"
    "PruneOlderThan None 200 (nd_rows db @ [?new]) = (None, kept)" "distinct (map nr_id (nd_rows db @ [?new]))"
    using Save_result [OF assms(1,2) s refl, where datetime = datetime and now = now and kind = kind and txHash = txHash
      and payload = payload and isOurs = isOurs] by blast
  have at: "nr_created_at ?new = now" by (simp add: saved_row_def notification_row_def)
  have set_kept: "set kept = set (take 200 (newest_first (nd_rows db @ [?new])))" using prune_keeps(2) [OF k(3), of 200] k(2) by simp
  have "\<exists>rest. newest_first (nd_rows db @ [?new]) = ?new # rest"
    by (rule newest_head) (use assms(3) at in auto)
  then obtain later where later: "newest_first (nd_rows db @ [?new]) = ?new # later" by blast
  have in_kept: "?new \<in> set kept" unfolding set_kept later by simp
  have sub: "set kept \<subseteq> insert ?new (set (nd_rows db))"
    using set_kept set_take_subset [of 200 "newest_first (nd_rows db @ [?new])"] by auto
  have "\<not> outdated datetime s ?new" using assms(4) at unfolding outdated_def by fastforce
  have "\<exists>rest. newest_first (filter (\<lambda>r. \<not> outdated datetime s r) kept) = ?new # rest"
  proof (rule newest_head)
    show "?new \<in> set (filter (\<lambda>r. \<not> outdated datetime s r) kept)"
      using in_kept \<open>\<not> outdated datetime s ?new\<close> by simp
    fix r assume "r \<in> set (filter (\<lambda>r. \<not> outdated datetime s r) kept)" "r \<noteq> ?new"
    then have "r \<in> set (nd_rows db)" using sub by auto
    then show "nr_created_at r < nr_created_at ?new" using assms(3) at by simp
  qed
  then obtain rest where rest: "newest_first (filter (\<lambda>r. \<not> outdated datetime s r) kept) = ?new # rest" by blast
  let ?n = "\<lparr>nf_ID = ulid, nf_Kind = kind, nf_TxHash = txHash, nf_Payload = payload, nf_IsOurs = isOurs,
      nf_IsRead = se_AutoMarkRead s, nf_CreatedAt = now\<rparr>"
  show ?thesis
    by (rule exI [of _ "db\<lparr>nd_rows := filter (\<lambda>r. \<not> outdated datetime s r) kept\<rparr>"], rule exI [of _ ?n], rule exI [of _ rest])
      (use k(1) rest in \<open>simp add: saved_row_def\<close>)
qed

text \<open>
  C19. A live event and its stored notification are one thing to a client. An event with a wire
  form that is announced while the panel's statements succeed reaches every subscriber with
  room in its buffer as an envelope with the identifier of the stored row, and the listing of
  notifications, whatever limit is asked for, then starts with an envelope of the same
  identifier and the same event - so that marking the one as read marks the other.
\<close>

theorem live_is_listed:
  assumes "WalletEventToProto fmt2 e = Some pb" "marshal pb = Inr payload" "unmarshal payload = Inr pb"
    and "distinct (map nr_id (nd_rows (hb_sink hub)))" "ulid \<notin> nr_id ` set (nd_rows (hb_sink hub))" "ulid \<noteq> []"
    and "\<And>r. r \<in> set (nd_rows (hb_sink hub)) \<Longrightarrow> nr_created_at r < now" "\<And>m t. datetime m = Some t \<Longrightarrow> t \<le> now"
    and "hub' = emitAndPersist fmt2 marshal (Some (notification_sink datetime ulid now)) e hub"
    and "(ch, buffer) \<in> set (hb_subscribers hub)" "length buffer < subscriber_buffer"
  shows "\<exists>live stored rest.
      (ch, buffer @ [live]) \<in> set (hb_subscribers hub')
    \<and> stream_envelope fmt2 live = Some \<lparr>pn_Id = ulid, pn_IsRead = False, pn_Event = pb\<rparr>
    \<and> ListNotifications_rpc unmarshal (\<lambda>l. List_notifications None None (nat l) (hb_sink hub')) limit = reply (stored # rest)
    \<and> pn_Id stored = ulid \<and> pn_Event stored = pb"
proof -
  obtain db' n rest where save: "notification_sink datetime ulid now (we_Kind e) (txHashOf e) payload (isOursOf e) (hb_sink hub) = (Inr ulid, db')"
    and rows: "newest_first (nd_rows db') = notification_row n # rest" "nf_ID n = ulid" "nf_Payload n = payload"
    using Save_first [OF assms(4,5), of now datetime "we_Kind e" "txHashOf e" payload "isOursOf e"] assms(7,8)
    unfolding notification_sink_def by blast
  have "persist fmt2 marshal (Some (notification_sink datetime ulid now)) e (hb_sink hub) = (ulid, db')"
    by (simp add: persist_def assms(1,2) save)
  then have hub': "hub' = emit (e\<lparr>we_ID := ulid\<rparr>) (hub\<lparr>hb_sink := db'\<rparr>)"
    using assms(6,9) by (simp add: emitAndPersist_def)
  have sink: "hb_sink hub' = db'" by (simp add: hub' emit_def)
  have "(ch, buffer @ [e\<lparr>we_ID := ulid\<rparr>]) \<in> set (hb_subscribers hub')"
    using assms(10,11) by (force simp: hub' emit_def)
  moreover have "stream_envelope fmt2 (e\<lparr>we_ID := ulid\<rparr>) = Some \<lparr>pn_Id = ulid, pn_IsRead = False, pn_Event = pb\<rparr>"
    by (simp add: stream_envelope_def proto_of_identified assms(1))
  moreover obtain k where "nat (clampNotificationsLimit limit) = Suc k"
    using clamp_bounds [of limit] by (cases "nat (clampNotificationsLimit limit)") auto
  then have "ListNotifications_rpc unmarshal (\<lambda>l. List_notifications None None (nat l) (hb_sink hub')) limit
      = reply (\<lparr>pn_Id = ulid, pn_IsRead = nf_IsRead n, pn_Event = pb\<rparr> # envelopes unmarshal (map shown (take k rest)))"
    by (simp add: ListNotifications_rpc_def reply_or_refuse_def List_shown sink rows shown_notification_row assms(3))
  ultimately show ?thesis
    by (intro exI [of _ "e\<lparr>we_ID := ulid\<rparr>"] exI [of _ "\<lparr>pn_Id = ulid, pn_IsRead = nf_IsRead n, pn_Event = pb\<rparr>"]
      exI [of _ "envelopes unmarshal (map shown (take k rest))"]) simp
qed

definition example_alert :: "int wallet_event" where
  "example_alert = \<lparr>we_ID = [], we_Kind = KindGasAlert,
     we_GasAlert = Some \<lparr>ga_IsSpike = True, ga_CurrentGwei = 40, ga_PreviousGwei = 20\<rparr>, we_LowBalance = None, we_Transaction = None\<rparr>"

definition example_hub :: "(int, notification_db) hub" where
  "example_hub = \<lparr>hb_sink = \<lparr>nd_rows = [], nd_settings = None\<rparr>, hb_subscribers = [(0, [])], hb_channels = 1\<rparr>"

lemma live_is_listed_witness:
  "let pb = PbGasAlert ALERT_TYPE_SPIKE ''x'' ''x'';
       hub' = emitAndPersist (\<lambda>x. ''x'') (\<lambda>p. Inr [1]) (Some (notification_sink (\<lambda>m. None) ''01'' 7)) example_alert example_hub
   in \<exists>live stored rest. (0, [live]) \<in> set (hb_subscribers hub')
     \<and> ListNotifications_rpc (\<lambda>b. Inr pb) (\<lambda>l. List_notifications None None (nat l) (hb_sink hub')) 0 = reply (stored # rest)
     \<and> we_ID live = pn_Id stored \<and> pn_Id stored = ''01''"
proof -
  let ?pb = "PbGasAlert ALERT_TYPE_SPIKE ''x'' ''x''"
  have "WalletEventToProto (\<lambda>x. ''x'') example_alert = Some ?pb"
    by (simp add: WalletEventToProto_def example_alert_def)
  from live_is_listed [where marshal = "\<lambda>p. Inr [1]" and unmarshal = "\<lambda>b. Inr ?pb" and hub = example_hub and ulid = "''01''"
      and now = 7 and datetime = "\<lambda>m. None" and ch = 0 and buffer = "[]" and limit = 0, OF this refl refl _ _ _ _ _ refl]
  obtain live stored rest where
    "(0, [] @ [live]) \<in> set (hb_subscribers (emitAndPersist (\<lambda>x. ''x'') (\<lambda>p. Inr [1])
       (Some (notification_sink (\<lambda>m. None) ''01'' 7)) example_alert example_hub))"
    "stream_envelope (\<lambda>x. ''x'') live = Some \<lparr>pn_Id = ''01'', pn_IsRead = False, pn_Event = ?pb\<rparr>"
    "ListNotifications_rpc (\<lambda>b. Inr ?pb) (\<lambda>l. List_notifications None None (nat l) (hb_sink (emitAndPersist (\<lambda>x. ''x'')
       (\<lambda>p. Inr [1]) (Some (notification_sink (\<lambda>m. None) ''01'' 7)) example_alert example_hub))) 0 = reply (stored # rest)"
    "pn_Id stored = ''01''"
    by (auto simp: example_hub_def subscriber_buffer_def)
  moreover from this have "we_ID live = ''01''" by (auto simp: stream_envelope_def split: option.splits)
  ultimately show ?thesis unfolding Let_def by (intro exI [of _ live] exI [of _ stored] exI [of _ rest]) simp
qed

end
