(* ===== verification/Rpc_Swap.thy ===== *)
theory Rpc_Swap
  imports Rpc_Data
begin

text \<open>
  The way of a swap through all layers: the method of the handler, the usecase with its quote
  and its slippage floor, and the client with its allowance guard, down to what the node gets.
\<close>

lemma fee_nonzero: "poolFeeFromProto fee \<noteq> 0"
  by (cases fee) (simp_all add: poolFeeFromProto_def PoolFee01_def PoolFee005_def PoolFee03_def PoolFee1_def)

lemma half_percent: "Wei (SlippageAmount a 50) = Wei a * 9950 div 10000"
proof -
  have "sint (10000 - 50 :: u64) = 9950" by code_simp
  then show ?thesis by (simp add: SlippageAmount_def Wei_safe)
qed

text \<open>What a successful answer to the method says of its layers.\<close>

lemma ExecuteSwap_layers:
  assumes "resolve (qw_TokenIn req) = Inr tokenIn" "resolve (qw_TokenOut req) = Inr tokenOut"
    and "read_decimal ''invalid amount_in'' (qw_AmountIn req) = Inr d"
    and "NewAmountFromTokenUnits d (tk_Decimals tokenIn) = Some a"
    and "ExecuteSwap_rpc h resolve (Execute quote (Swap add remove env nw) (Some wallet)) req c
      = (Some (Answer (Some receipt) None), c', job)"
  obtains q r tip gasCap where "quote tokenIn tokenOut a (poolFeeFromProto (qw_Fee req)) = Inr q" "job = Some (tokenIn, tokenOut)"
    "Swap add remove env nw wallet \<lparr>sr_TokenIn = tokenIn, sr_TokenOut = tokenOut, sr_AmountIn = a,
       sr_MinAmountOut = SlippageAmount (sq_AmountOut q) 50, sr_Fee = poolFeeFromProto (qw_Fee req),
       sr_DeadlineSeconds = 0, sr_GasTip = tip, sr_GasCap = gasCap\<rparr> c = (Some (Inr r), c')"
proof -
  have rd: "read_swap resolve req = Inr (tokenIn, tokenOut, d)" by (simp add: read_swap_def assms(1-3))
  obtain tip gasCap where cap: "ToTipCap (gasOptionsFromProto h (qw_Gas req)) = Some (tip, gasCap)"
    using assms(5) by (auto simp: ExecuteSwap_rpc_def rd split: option.splits)
  let ?p = "\<lparr>ep_TokenIn = tokenIn, ep_TokenOut = tokenOut, ep_AmountIn = a, ep_SlippageBps = 50,
      ep_Fee = poolFeeFromProto (qw_Fee req), ep_GasTip = tip, ep_GasCap = gasCap\<rparr>"
  obtain x st where ex: "Execute quote (Swap add remove env nw) (Some wallet) ?p c = (x, st)" by force
  with assms(5) obtain r where r: "x = Some (Inr r)" "st = c'" "job = Some (tokenIn, tokenOut)"
    by (auto simp: ExecuteSwap_rpc_def rd cap assms(4) reply_def refuse_def split: option.splits sum.splits)
  with ex obtain q where "quote tokenIn tokenOut a (poolFeeFromProto (qw_Fee req)) = Inr q"
      "Swap add remove env nw wallet (execute_request ?p q) c = (Some (Inr r), c')"
    by (auto simp: Execute_def split: option.splits sum.splits)
  then show ?thesis by (intro that [of q tip gasCap r] r(3)) (simp_all add: execute_request_def)
qed

text \<open>
  C2. A swap confirmed by the user does what it shows. When the method answers with a receipt
  for an amount typed as digits (with at most the decimals of the token that is sold after the
  point), the node has been given one exchange through the router and before it at most the
  approval for it: the exchange sells exactly the typed amount of the one resolved token for the
  other, in the pool of the chosen fee, pays the ether of the amount exactly when ether is sold,
  and its minimum is the quote for this very amount less half a percent, rounded down; the
  proceeds go to the wallet, through the router's unwrapping when ether is bought.
\<close>

theorem ExecuteSwap_exact:
  assumes "all_digits ip" "all_digits fr" "ip \<noteq> []" "parse_digits 10 0 (ip @ fr) = Some v"
    and "resolve tin = Inr tokenIn" "resolve tout = Inr tokenOut" "length fr \<le> unat (tk_Decimals tokenIn)"
    and "ExecuteSwap_rpc h resolve (Execute quote (Swap add remove env nw) (Some wallet))
        \<lparr>qw_TokenIn = tin, qw_TokenOut = tout, qw_AmountIn = (if fr = [] then ip else ip @ ''.'' @ fr), qw_Fee = fee, qw_Gas = gas\<rparr> c
      = (Some (Answer (Some receipt) None), c', job)"
  shows "\<exists>a q approvals tx inAddr outAddr.
      Wei a = int v * 10 ^ (unat (tk_Decimals tokenIn) - length fr)
    \<and> quote tokenIn tokenOut a (poolFeeFromProto fee) = Inr q
    \<and> cl_broadcast c' = cl_broadcast c @ approvals @ [tx]
    \<and> approvals_for env wallet tokenIn (nw_UniswapSwapRouter02 nw) a approvals
    \<and> resolveSwapAddresses nw tokenIn tokenOut = Inr (inAddr, outAddr)
    \<and> dt_To tx = Some (nw_UniswapSwapRouter02 nw)
    \<and> dt_Value tx = (if IsNative tokenIn then Wei a else 0)
    \<and> (let floor = Wei (sq_AmountOut q) * 9950 div 10000;
           exchange = (\<lambda>to. ExactInputSingle inAddr outAddr (uint (poolFeeFromProto fee)) to (Wei a) floor 0) in
       if IsNative tokenOut
       then \<exists>s u. sw_pack env (exchange (nw_UniswapSwapRouter02 nw)) = Inr s
          \<and> sw_pack env (UnwrapWETH9 floor wallet) = Inr u \<and> sw_pack env (Multicall [s, u]) = Inr (dt_Data tx)
       else sw_pack env (exchange wallet) = Inr (dt_Data tx))"
proof -
  let ?d = "Dec (int v) (- int (length fr))"
  have "unat (tk_Decimals tokenIn) < 256" using unsigned_less [of "tk_Decimals tokenIn", where 'a = nat] by simp
  then have "length fr \<le> 2 ^ 31" using assms(7) by simp
  from NewFromString_number [OF assms(1-4) this, of False]
  have d: "read_decimal ''invalid amount_in'' (if fr = [] then ip else ip @ ''.'' @ fr) = Inr ?d"
    by (simp add: read_decimal_def)
  obtain a where a: "NewAmountFromTokenUnits ?d (tk_Decimals tokenIn) = Some a"
      "Wei a = int v * 10 ^ (unat (tk_Decimals tokenIn) - length fr)"
    using units_of_digits [OF assms(7), of "int v"] by blast
  let ?req = "\<lambda>q tip gasCap. \<lparr>sr_TokenIn = tokenIn, sr_TokenOut = tokenOut, sr_AmountIn = a,
       sr_MinAmountOut = SlippageAmount (sq_AmountOut q) 50, sr_Fee = poolFeeFromProto fee,
       sr_DeadlineSeconds = 0, sr_GasTip = tip, sr_GasCap = gasCap\<rparr>"
  obtain q r tip gasCap where q: "quote tokenIn tokenOut a (poolFeeFromProto fee) = Inr q"
    and swap: "Swap add remove env nw wallet (?req q tip gasCap) c = (Some (Inr r), c')"
    by (rule ExecuteSwap_layers [OF _ _ _ a(1) assms(8), unfolded pb_swap_request.simps, OF assms(5,6) d]) (rule that)
  obtain approvals tx inAddr outAddr where
    s: "cl_broadcast c' = cl_broadcast c @ approvals @ [tx]" "resolveSwapAddresses nw tokenIn tokenOut = Inr (inAddr, outAddr)"
      "dt_To tx = Some (nw_UniswapSwapRouter02 nw)" "dt_Value tx = (if IsNative tokenIn then Wei a else 0)"
    and data: "swap_data (sw_pack env) (nw_UniswapSwapRouter02 nw) wallet (?req q tip gasCap) inAddr outAddr (poolFeeFromProto fee)
        = Inr (dt_Data tx)"
    and ap: "approvals_for env wallet tokenIn (nw_UniswapSwapRouter02 nw) a approvals"
    by (rule Swap_broadcasts [OF swap]) (simp add: fee_nonzero)
  note calls = swap_data_calls [OF data, unfolded swap_request.simps half_percent Let_def]
  show ?thesis unfolding Let_def
    by (rule exI [of _ a], rule exI [of _ q], rule exI [of _ approvals], rule exI [of _ tx], rule exI [of _ inAddr], rule exI [of _ outAddr])
      (intro conjI a(2) q s ap calls)
qed

definition swap_pay_request :: pb_swap_request where
  "swap_pay_request = \<lparr>qw_TokenIn = ''USDC'', qw_TokenOut = ''ETH'', qw_AmountIn = ''1.5'', qw_Fee = POOL_FEE_3000, qw_Gas = None\<rparr>"

definition swap_pay_quote :: quoter where
  "swap_pay_quote tokenIn tokenOut a fee = Inr \<lparr>sq_TokenIn = tokenIn, sq_TokenOut = tokenOut, sq_AmountIn = a,
     sq_AmountOut = Amount (Some 1001), sq_Fee = fee, sq_GasEstimate = 0\<rparr>"

definition swap_pay :: "pb_receipt call_result option \<times> pending_tracker client \<times> (token \<times> token) option" where
  "swap_pay = ExecuteSwap_rpc sample_handler (\<lambda>s. Inr (if s = ''USDC'' then sample_token else NativeETH))
     (Execute swap_pay_quote (Swap Add_pt Remove_pt sample_swap_env sample_network) (Some 1)) swap_pay_request sample_client"

lemma ExecuteSwap_exact_witness:
  "\<exists>atx tx. cl_broadcast (fst (snd swap_pay)) = [atx, tx] \<and> dt_To atx = Some 7 \<and> dt_To tx = Some 12 \<and> dt_Value tx = 0"
proof -
  have digits: "all_digits ''1''" "all_digits ''5''" "parse_digits 10 0 (''1'' @ ''5'') = Some 15" by code_simp+
  have d: "NewFromString ''1.5'' = Inr (Dec 15 (- 1))"
    using NewFromString_number [OF digits(1,2) _ digits(3), of False] by simp
  have a: "NewAmountFromTokenUnits (Dec 15 (- 1)) 6 = Some (Amount (Some 1500000))" by code_simp
  have "\<exists>r c'. Swap Add_pt Remove_pt sample_swap_env sample_network 1 \<lparr>sr_TokenIn = sample_token, sr_TokenOut = NativeETH,
      sr_AmountIn = Amount (Some 1500000), sr_MinAmountOut = SlippageAmount (Amount (Some 1001)) 50, sr_Fee = PoolFee03,
      sr_DeadlineSeconds = 0, sr_GasTip = None, sr_GasCap = None\<rparr> sample_client = (Some (Inr r), c')"
    by (simp add: Swap_def sample_swap_env_def sample_network_def sample_client_def
      mined_env_def Tx.sample_env_def sample_token_def NativeETH_def ZeroAddress_def resolveSwapAddresses_def
      ensureAllowance_def Allowance_def decodeUint256_def bytes_to_nat_def ApproveToken_def SendTx_def
      next_nonce_def sample_fees_def GasEstimateWithFees_def GasFees_def GasEstimate_def approve_request_def
      Wei_safe swap_data_def swap_tx_request_def mk_receipt_def ReceiptStatusFailed_def TxStatusSuccess_def
      TxStatusFailed_def foldl_zeros gomap_simps Let_def PoolFee03_def)
  then obtain r c' where swap: "Swap Add_pt Remove_pt sample_swap_env sample_network 1 \<lparr>sr_TokenIn = sample_token, sr_TokenOut = NativeETH,
      sr_AmountIn = Amount (Some 1500000), sr_MinAmountOut = SlippageAmount (Amount (Some 1001)) 50, sr_Fee = PoolFee03,
      sr_DeadlineSeconds = 0, sr_GasTip = None, sr_GasCap = None\<rparr> sample_client = (Some (Inr r), c')" by blast
  have pair: "validateSwapPair sample_token NativeETH = None"
    by (simp add: validateSwapPair_def sample_token_def NativeETH_def)
  have run: "swap_pay = (Some (Answer (Some (receiptToProto r)) None), c', Some (sample_token, NativeETH))"
    using swap pair a by (simp add: swap_pay_def swap_pay_request_def ExecuteSwap_rpc_def read_swap_def read_decimal_def d mapE_def
      gasOptionsFromProto_def ToTipCap_def gwei_amount_def sample_token_def Execute_def swap_pay_quote_def
      execute_request_def poolFeeFromProto_def reply_def)
  have "\<exists>a q approvals tx inAddr outAddr.
      Wei a = int 15 * 10 ^ (unat (tk_Decimals sample_token) - length ''5'')
    \<and> swap_pay_quote sample_token NativeETH a (poolFeeFromProto POOL_FEE_3000) = Inr q
    \<and> cl_broadcast c' = cl_broadcast sample_client @ approvals @ [tx]
    \<and> approvals_for sample_swap_env 1 sample_token (nw_UniswapSwapRouter02 sample_network) a approvals
    \<and> resolveSwapAddresses sample_network sample_token NativeETH = Inr (inAddr, outAddr)
    \<and> dt_To tx = Some (nw_UniswapSwapRouter02 sample_network)
    \<and> dt_Value tx = (if IsNative sample_token then Wei a else 0)
    \<and> (let floor = Wei (sq_AmountOut q) * 9950 div 10000;
           exchange = (\<lambda>to. ExactInputSingle inAddr outAddr (uint (poolFeeFromProto POOL_FEE_3000)) to (Wei a) floor 0) in
       if IsNative NativeETH
       then \<exists>s u. sw_pack sample_swap_env (exchange (nw_UniswapSwapRouter02 sample_network)) = Inr s
          \<and> sw_pack sample_swap_env (UnwrapWETH9 floor 1) = Inr u \<and> sw_pack sample_swap_env (Multicall [s, u]) = Inr (dt_Data tx)
       else sw_pack sample_swap_env (exchange 1) = Inr (dt_Data tx))"
    by (rule ExecuteSwap_exact [where ip = "''1''" and tin = "''USDC''" and tout = "''ETH''"])
      (use digits run in \<open>auto simp: swap_pay_def swap_pay_request_def sample_token_def\<close>)
  then obtain a approvals tx where "cl_broadcast c' = approvals @ [tx]" "dt_To tx = Some 12" "dt_Value tx = 0" "Wei a = 1500000"
      "approvals_for sample_swap_env 1 sample_token 12 a approvals"
    by (auto simp: sample_client_def sample_network_def sample_token_def IsNative_iff)
  then show ?thesis unfolding run
    by (auto simp: approvals_for_def sample_token_def IsNative_iff sample_swap_env_def Allowance_def decodeUint256_def
      bytes_to_nat_def foldl_zeros Wei_safe split: if_splits)
qed

end
