(* ===== verification/Config.thy ===== *)
theory Config
  imports Prelude Strconv Errors
begin

text \<open>
  pkg/config and config: the search for the configuration and environment files, and the
  parser of the latter. The reading of the YAML file and of the tags of the structures is a
  library's, a parameter of the loader.
\<close>

section \<open>The environment\<close>

text \<open>
  \<open>os.Getenv\<close> and \<open>os.Setenv\<close>: an unset variable reads as empty; a name that is empty
  or holds an equals sign, and a zero byte in either, are refused.
\<close>

type_synonym environment = "(string, string) gomap"

definition Getenv :: "string \<Rightarrow> environment \<Rightarrow> string" where
  "Getenv k env = the_default '''' (map_of env k)"

definition settable :: "string \<Rightarrow> string \<Rightarrow> bool" where
  "settable k v \<longleftrightarrow> k \<noteq> '''' \<and> CHR ''='' \<notin> set k \<and> CHR 0x00 \<notin> set k \<and> CHR 0x00 \<notin> set v"

definition Setenv :: "string \<Rightarrow> string \<Rightarrow> environment \<Rightarrow> environment" where
  "Setenv k v env = (if settable k v then AList.update k v env else env)"

section \<open>Lines\<close>

fun split_loop :: "string \<Rightarrow> string \<Rightarrow> string list \<Rightarrow> string list" where
  "split_loop [] line lines = (if length line > 0 then lines @ [line] else lines)"
| "split_loop (b # bs) line lines =
     (if b = CHR 0x0A then split_loop bs [] (lines @ [line])
      else if b \<noteq> CHR 0x0D then split_loop bs (line @ [b]) lines
      else split_loop bs line lines)"

definition splitLines :: "string \<Rightarrow> string list" where
  "splitLines data = split_loop data [] []"

definition blank :: "char \<Rightarrow> bool" where "blank c \<longleftrightarrow> c = CHR '' '' \<or> c = CHR 0x09"

definition trimSpace :: "string \<Rightarrow> string" where
  "trimSpace s = rev (dropWhile blank (rev (dropWhile blank s)))"

definition unquote :: "string \<Rightarrow> string" where
  "unquote v =
     (if length v \<ge> 2 \<and> (hd v = CHR 0x22 \<and> List.last v = CHR 0x22 \<or> hd v = CHR 0x27 \<and> List.last v = CHR 0x27)
      then butlast (List.tl v) else v)"

text \<open>The loop stops at the first equals sign; \<open>seen\<close> is what it has passed.\<close>

fun parse_line_loop :: "string \<Rightarrow> string \<Rightarrow> string \<times> string \<times> bool" where
  "parse_line_loop seen [] = ([], [], False)"
| "parse_line_loop seen (c # cs) =
     (if c \<noteq> CHR ''='' then parse_line_loop (seen @ [c]) cs
      else (let k = trimSpace seen; v = unquote (trimSpace cs) in (k, v, k \<noteq> [])))"

definition parseEnvLine :: "string \<Rightarrow> string \<times> string \<times> bool" where
  "parseEnvLine line = parse_line_loop [] line"

definition env_line :: "string \<Rightarrow> environment \<Rightarrow> environment" where
  "env_line line env =
     (if length line = 0 \<or> hd line = CHR ''#'' then env
      else (let (key, val, ok) = parseEnvLine line in
            if \<not> ok then env
            else if Getenv key env = '''' then Setenv key val env else env))"

definition parseEnvFile :: "string \<Rightarrow> environment \<Rightarrow> environment" where
  "parseEnvFile data env = fold env_line (splitLines data) env"

section \<open>The loader\<close>

definition defaultConfigFiles :: "string list" where
  "defaultConfigFiles = [''config.yaml'', ''config.yml'', ''config.local.yaml'', ''config.local.yml'']"

definition defaultEnvFiles :: "string list" where "defaultEnvFiles = [''.env'', ''.env.local'']"

record loader =
  lo_configPaths :: "string list"
  lo_envPaths :: "string list"

definition WithConfigPaths :: "string list \<Rightarrow> loader \<Rightarrow> loader" where
  "WithConfigPaths paths l = l\<lparr>lo_configPaths := paths\<rparr>"

definition NewLoader :: "(loader \<Rightarrow> loader) list \<Rightarrow> loader" where
  "NewLoader opts = fold (\<lambda>opt l. opt l) opts \<lparr>lo_configPaths = defaultConfigFiles, lo_envPaths = defaultEnvFiles\<rparr>"

text \<open>
  What the loader asks of the system: \<open>os.Stat\<close>, \<open>os.ReadFile\<close>, and the two calls of
  the library, which see the environment as it then is.
\<close>

record 'c config_env =
  ce_Stat :: "string \<Rightarrow> err option"
  ce_ReadFile :: "string \<Rightarrow> err + string"
  ce_ReadConfig :: "string \<Rightarrow> environment \<Rightarrow> err + 'c"
  ce_ReadEnv :: "environment \<Rightarrow> err + 'c"

definition loadEnvFile :: "'c config_env \<Rightarrow> string \<Rightarrow> environment \<Rightarrow> err option \<times> environment" where
  "loadEnvFile ce path env =
     (case ce_ReadFile ce path of Inl e \<Rightarrow> (Some e, env) | Inr data \<Rightarrow> (None, parseEnvFile data env))"

definition first_existing :: "'c config_env \<Rightarrow> string list \<Rightarrow> string option" where
  "first_existing ce paths = find (\<lambda>p. ce_Stat ce p = None) paths"

text \<open>\<open>fmt.Errorf\<close> with a message, a colon and the wrapped error.\<close>

definition Errorf :: "string \<Rightarrow> err \<Rightarrow> err" where
  "Errorf m e = WrapError (m @ '': '' @ Error_text e) [e]"

definition Load_file :: "'c config_env \<Rightarrow> loader \<Rightarrow> environment \<Rightarrow> (err + 'c) \<times> environment" where
  "Load_file ce l env =
     (case (case first_existing ce (lo_envPaths l) of None \<Rightarrow> (None, env)
            | Some envPath \<Rightarrow> (case loadEnvFile ce envPath env of
                (Some e, env1) \<Rightarrow> (Some (Errorf (''config: failed to load '' @ envPath) e), env1)
              | (None, env1) \<Rightarrow> (None, env1))) of
        (Some e, env1) \<Rightarrow> (Inl e, env1)
      | (None, env1) \<Rightarrow>
        (case the_default '''' (first_existing ce (lo_configPaths l)) of
           [] \<Rightarrow> (case ce_ReadEnv ce env1 of Inl e \<Rightarrow> (Inl (Errorf ''config: failed to read env'' e), env1)
                | Inr cfg \<Rightarrow> (Inr cfg, env1))
         | configPath \<Rightarrow> (case ce_ReadConfig ce configPath env1 of
               Inl e \<Rightarrow> (Inl (Errorf (''config: failed to read '' @ configPath) e), env1)
             | Inr cfg \<Rightarrow> (Inr cfg, env1))))"

definition Load_with :: "'c config_env \<Rightarrow> (loader \<Rightarrow> loader) list \<Rightarrow> environment \<Rightarrow> (err + 'c) \<times> environment" where
  "Load_with ce opts env = Load_file ce (NewLoader opts) env"

section \<open>The configuration\<close>

record app_retry =
  ar_MaxRetries :: int
  ar_BaseDelay :: duration
  ar_MaxDelay :: duration

record app_config =
  apc_Name :: string
  apc_Version :: string
  apc_Environment :: string
  apc_ShutdownTimeout :: duration
  apc_Retry :: app_retry

record grpc_config =
  gc_Enabled :: bool
  gc_Host :: string
  gc_Port :: int
  gc_Authorization :: string
  gc_Reflection :: bool
  gc_ShutdownTimeout :: duration

record logger_config =
  lc_Level :: string
  lc_Format :: string
  lc_AddSource :: bool
  lc_Pretty :: bool

record ethereum_config =
  ec_Network :: string
  ec_HTTPUrl :: string
  ec_AlchemyAPIKey :: string
  ec_NetworksFile :: string
  ec_TokenListFile :: string

record pricefeed_config =
  pf_CoinGeckoKey :: string
  pf_CoinGeckoPlan :: string

record config =
  cf_App :: app_config
  cf_GRPC :: grpc_config
  cf_Logger :: logger_config
  cf_Ethereum :: ethereum_config
  cf_Pricefeed :: pricefeed_config

definition Addr :: "grpc_config \<Rightarrow> string" where
  "Addr g = gc_Host g @ '':'' @ show_int (gc_Port g)"

definition Load_config ::
  "config config_env \<Rightarrow> (loader \<Rightarrow> loader) list \<Rightarrow> environment \<Rightarrow> (err + config) \<times> environment" where
  "Load_config ce opts env =
     (case Load_with ce opts env of
        (Inl e, env1) \<Rightarrow> (Inl (Errorf ''failed to load config'' e), env1)
      | (Inr cfg, env1) \<Rightarrow> (Inr cfg, env1))"

section \<open>Laws\<close>

lemma parse_line_loop_spec:
  "parse_line_loop seen line =
     (if CHR ''='' \<in> set line
      then (let k = trimSpace (seen @ takeWhile (\<lambda>c. c \<noteq> CHR ''='') line);
                v = unquote (trimSpace (List.tl (dropWhile (\<lambda>c. c \<noteq> CHR ''='') line)))
            in (k, v, k \<noteq> []))
      else ([], [], False))"
  by (induction seen line rule: parse_line_loop.induct) (auto simp: Let_def)

text \<open>The assignment a line makes, if any.\<close>

definition assignment :: "string \<Rightarrow> (string \<times> string) option" where
  "assignment line =
     (if length line = 0 \<or> hd line = CHR ''#'' then None
      else (let (key, val, ok) = parseEnvLine line in if ok \<and> settable key val then Some (key, val) else None))"

lemma Getenv_Setenv: "Getenv k (Setenv k' v env) = (if settable k' v \<and> k = k' then v else Getenv k env)"
  by (simp add: Getenv_def Setenv_def update_conv')

lemma Getenv_env_line:
  "Getenv k (env_line line env) =
     (if Getenv k env \<noteq> [] then Getenv k env
      else case assignment line of Some (k', v) \<Rightarrow> if k = k' then v else [] | None \<Rightarrow> [])"
  by (auto simp: env_line_def assignment_def Getenv_Setenv split: prod.splits)

definition assignments :: "string list \<Rightarrow> (string \<times> string) list" where
  "assignments lines = filter (\<lambda>(k, v). v \<noteq> []) (List.map_filter assignment lines)"

lemma Getenv_lines:
  "Getenv k (fold env_line lines env) =
     (if Getenv k env \<noteq> [] then Getenv k env else the_default [] (map_of (assignments lines) k))"
  by (induction lines arbitrary: env)
    (auto simp: Getenv_env_line assignments_def map_filter_simps split: option.splits prod.splits)

text \<open>A file with one quoted assignment per line.\<close>

definition env_text :: "string \<times> string \<Rightarrow> string" where
  "env_text a = fst a @ ''='' @ [CHR 0x22] @ snd a @ [CHR 0x22]"

definition env_file :: "(string \<times> string) list \<Rightarrow> string" where
  "env_file kvs = concat (map (\<lambda>a. env_text a @ [CHR 0x0A]) kvs)"

definition line_chars :: "string \<Rightarrow> bool" where
  "line_chars s \<longleftrightarrow> CHR 0x0A \<notin> set s \<and> CHR 0x0D \<notin> set s \<and> CHR 0x00 \<notin> set s"

definition writable :: "string \<times> string \<Rightarrow> bool" where
  "writable a \<longleftrightarrow> fst a \<noteq> [] \<and> trimSpace (fst a) = fst a \<and> hd (fst a) \<noteq> CHR ''#'' \<and> CHR ''='' \<notin> set (fst a)
     \<and> line_chars (fst a) \<and> line_chars (snd a)"

lemma split_loop_line: "line_chars s \<Longrightarrow> split_loop (s @ rest) line lines = split_loop rest (line @ s) lines"
  by (induction s arbitrary: line) (auto simp: line_chars_def)

lemma split_loop_file:
  "list_all (\<lambda>a. line_chars (env_text a)) kvs \<Longrightarrow> split_loop (env_file kvs) [] lines = lines @ map env_text kvs"
proof (induction kvs arbitrary: lines)
  case (Cons a kvs)
  then have "split_loop (env_file (a # kvs)) [] lines = split_loop (env_file kvs) [] (lines @ [env_text a])"
    using split_loop_line [of "env_text a" "CHR 0x0A # env_file kvs" "[]" lines] by (simp add: env_file_def)
  with Cons show ?case by simp
qed (simp add: env_file_def)

lemma unquote_quoted: "unquote (CHR 0x22 # v @ [CHR 0x22]) = v"
  by (simp add: unquote_def)

lemma trimSpace_quoted: "trimSpace (CHR 0x22 # v @ [CHR 0x22]) = CHR 0x22 # v @ [CHR 0x22]"
  by (simp add: trimSpace_def blank_def)

lemma assignment_text: "writable a \<Longrightarrow> assignment (env_text a) = Some a"
proof -
  assume w: "writable a"
  then have "\<And>x. x \<in> set (fst a) \<Longrightarrow> x \<noteq> CHR ''=''" by (auto simp: writable_def)
  then have tw: "takeWhile (\<lambda>c. c \<noteq> CHR ''='') (env_text a) = fst a"
      "dropWhile (\<lambda>c. c \<noteq> CHR ''='') (env_text a) = CHR ''='' # CHR 0x22 # snd a @ [CHR 0x22]"
    unfolding env_text_def by (simp_all add: takeWhile_append2 dropWhile_append2)
  have "parseEnvLine (env_text a) = (fst a, snd a, True)"
    unfolding parseEnvLine_def parse_line_loop_spec append_Nil tw list.sel trimSpace_quoted unquote_quoted
    using w by (simp add: env_text_def writable_def)
  with w show ?thesis by (auto simp: assignment_def settable_def env_text_def writable_def line_chars_def hd_append)
qed

lemma assignments_file:
  "\<forall>a \<in> set kvs. writable a \<Longrightarrow> assignments (splitLines (env_file kvs)) = filter (\<lambda>(k, v). v \<noteq> []) kvs"
proof -
  assume w: "\<forall>a \<in> set kvs. writable a"
  then have "list_all (\<lambda>a. line_chars (env_text a)) kvs"
    by (auto simp: list_all_iff writable_def line_chars_def env_text_def)
  then have "splitLines (env_file kvs) = map env_text kvs"
    using split_loop_file [of kvs "[]"] by (simp add: splitLines_def)
  moreover have "List.map_filter assignment (map env_text kvs) = kvs"
    using w by (induction kvs) (simp_all add: map_filter_simps assignment_text)
  ultimately show ?thesis by (simp add: assignments_def)
qed

lemma map_of_nonempty: "distinct (map fst kvs) \<Longrightarrow> the_default [] (map_of (filter (\<lambda>(k, v). v \<noteq> []) kvs) k) = the_default [] (map_of kvs k)"
  by (induction kvs) (force simp: map_of_eq_None_iff [THEN iffD2])+

lemma Getenv_env_file:
  assumes "\<forall>a \<in> set kvs. writable a" "distinct (map fst kvs)"
  shows "Getenv k (parseEnvFile (env_file kvs) env) =
    (if Getenv k env \<noteq> [] then Getenv k env else the_default [] (map_of kvs k))"
  unfolding parseEnvFile_def Getenv_lines assignments_file [OF assms(1)] map_of_nonempty [OF assms(2)] by (rule refl)

lemma first_existing_in: "first_existing ce paths = Some p \<Longrightarrow> p \<in> set paths"
  by (auto simp: first_existing_def find_Some_iff)

text \<open>
  C35. Where the configuration comes from. When the first environment file there is holds one
  quoted assignment per line, for distinct names, the library reads the configuration in an
  environment where every variable has the value it had, and only if that was empty the one of
  the file, character for character; it reads it from the first configuration file there is,
  and from the environment alone if there is none. The loader succeeds exactly when it does.
\<close>

theorem Load_sources:
  assumes "first_existing ce (lo_envPaths l) = Some envPath" "ce_ReadFile ce envPath = Inr (env_file kvs)"
    and "\<forall>a \<in> set kvs. writable a" "distinct (map fst kvs)" "[] \<notin> set (lo_configPaths l)"
  shows "\<exists>r env1. Load_file ce l env = (r, env1)
    \<and> (\<forall>k. Getenv k env1 = (if Getenv k env \<noteq> [] then Getenv k env else the_default [] (map_of kvs k)))
    \<and> (\<forall>cfg. r = Inr cfg \<longleftrightarrow> (case first_existing ce (lo_configPaths l) of
          Some path \<Rightarrow> ce_ReadConfig ce path env1 | None \<Rightarrow> ce_ReadEnv ce env1) = Inr cfg)"
proof -
  let ?env1 = "parseEnvFile (env_file kvs) env"
  have load: "loadEnvFile ce envPath env = (None, ?env1)" by (simp add: loadEnvFile_def assms(2))
  have path: "path \<noteq> []" if "first_existing ce (lo_configPaths l) = Some path" for path
    using first_existing_in [OF that] assms(5) by auto
  have "\<exists>r. Load_file ce l env = (r, ?env1) \<and> (\<forall>cfg. r = Inr cfg \<longleftrightarrow> (case first_existing ce (lo_configPaths l) of
          Some path \<Rightarrow> ce_ReadConfig ce path ?env1 | None \<Rightarrow> ce_ReadEnv ce ?env1) = Inr cfg)"
    using path by (auto simp: Load_file_def assms(1) load split: option.splits list.splits sum.splits)
  then show ?thesis using Getenv_env_file [OF assms(3,4)] by blast
qed

definition sample_files :: "string config_env" where
  "sample_files = \<lparr>ce_Stat = (\<lambda>p. if p = ''.env'' \<or> p = ''config.yml'' then None else Some (Sentinel ''no such file'')),
     ce_ReadFile = (\<lambda>p. Inr (env_file [(''ETH_NETWORK'', ''base''), (''APP_NAME'', ''a # b'')])),
     ce_ReadConfig = (\<lambda>p env. Inr (Getenv ''ETH_NETWORK'' env @ Getenv ''APP_NAME'' env)), ce_ReadEnv = (\<lambda>env. Inr [])\<rparr>"

lemma Load_sources_witness:
  "\<exists>env1. Load_file sample_files (NewLoader []) [(''ETH_NETWORK'', ''polygon'')] = (Inr ''polygona # b'', env1)"
proof -
  have "\<exists>r env1. Load_file sample_files (NewLoader []) [(''ETH_NETWORK'', ''polygon'')] = (r, env1)
    \<and> (\<forall>k. Getenv k env1 = (if Getenv k [(''ETH_NETWORK'', ''polygon'')] \<noteq> [] then Getenv k [(''ETH_NETWORK'', ''polygon'')]
         else the_default [] (map_of [(''ETH_NETWORK'', ''base''), (''APP_NAME'', ''a # b'')] k)))
    \<and> (\<forall>cfg. r = Inr cfg \<longleftrightarrow> (case first_existing sample_files (lo_configPaths (NewLoader [])) of
          Some path \<Rightarrow> ce_ReadConfig sample_files path env1 | None \<Rightarrow> ce_ReadEnv sample_files env1) = Inr cfg)"
    by (rule Load_sources [where envPath = "''.env''"])
      (simp_all add: sample_files_def NewLoader_def defaultEnvFiles_def defaultConfigFiles_def first_existing_def
        writable_def line_chars_def trimSpace_def blank_def)
  then obtain r env1 where r: "Load_file sample_files (NewLoader []) [(''ETH_NETWORK'', ''polygon'')] = (r, env1)"
      "Getenv ''ETH_NETWORK'' env1 = ''polygon''" "Getenv ''APP_NAME'' env1 = ''a # b''"
      "\<forall>cfg. r = Inr cfg \<longleftrightarrow> (case first_existing sample_files (lo_configPaths (NewLoader [])) of
          Some path \<Rightarrow> ce_ReadConfig sample_files path env1 | None \<Rightarrow> ce_ReadEnv sample_files env1) = Inr cfg"
    by (auto simp: Getenv_def)
  have "first_existing sample_files (lo_configPaths (NewLoader [])) = Some ''config.yml''"
    by (simp add: sample_files_def NewLoader_def defaultConfigFiles_def first_existing_def)
  with r have "r = Inr ''polygona # b''" by (simp add: sample_files_def)
  with r(1) show ?thesis by blast
qed

text \<open>
  A variable that is set to the empty text counts as unset: the file's value replaces it, so a
  token that is switched off in the environment is switched on again by the file.
\<close>

lemma empty_variable_replaced:
  "Getenv ''GRPC_AUTHORIZATION'' (parseEnvFile (env_file [(''GRPC_AUTHORIZATION'', ''t'')]) [(''GRPC_AUTHORIZATION'', [])]) = ''t''"
  by (subst Getenv_env_file) (simp_all add: writable_def line_chars_def trimSpace_def blank_def Getenv_def)

end
