(* ===== verification/App.thy ===== *)
theory App
  imports Config Networks Pending_Sqlite Notifications Wallet_Usecase Watcher History
begin

text \<open>
  internal/app: the construction of the process from its parts. The first half prepares the
  chain, the database and the client of the node; the second builds the usecases, sweeps the
  notifications and loads the wallet. The state is that of the wallet usecase, whose database
  is the one all parts share. What the operating system, the SQLite driver, the migrations and
  the dialling of the node answer are the fields of a record.
\<close>

section \<open>The environment of a start\<close>

record app_env =
  ae_networks :: "string \<Rightarrow> err + catalog"
  ae_tokenlist :: "string \<Rightarrow> err + token_list"
  ae_quote :: "string \<Rightarrow> string"
  ae_mkdir :: "string \<Rightarrow> err option"
  ae_open :: "string \<Rightarrow> err option"
  ae_pragma :: "string \<Rightarrow> err option"
  ae_migrate :: "err option"
  ae_dial :: "string \<Rightarrow> err option"
  ae_now :: time
  ae_pending :: "err option \<times> err option \<times> err option"
  ae_settings :: query_fault
  ae_sweep :: "err option"
  ae_datetime :: "string \<Rightarrow> time option"
  ae_wallet :: "err option"

section \<open>The chain\<close>

definition initNetwork :: "app_env \<Rightarrow> config \<Rightarrow> err + chain_config \<times> token_list" where
  "initNetwork env cfg =
     (let ident = (if ec_Network (cf_Ethereum cfg) = '''' then ''ethereum'' else ec_Network (cf_Ethereum cfg)) in
      case ae_networks env (ec_NetworksFile (cf_Ethereum cfg)) of
        Inl e \<Rightarrow> Inl (Errorf ''load networks'' e)
      | Inr cat \<Rightarrow>
        (case Network_of (ae_quote env) cat ident of
           Inl e \<Rightarrow> Inl (Errorf (''select network '' @ ae_quote env ident) e)
         | Inr net \<Rightarrow>
           (case ae_tokenlist env (ec_TokenListFile (cf_Ethereum cfg)) of
              Inl e \<Rightarrow> Inl (Errorf ''load tokenlist'' e)
            | Inr toks \<Rightarrow> Inr (net, toks))))"

section \<open>The database\<close>

text \<open>The pragmas of pkg/sqlitekit, with a busy timeout in milliseconds.\<close>

definition pragmas :: "int \<Rightarrow> string list" where
  "pragmas busy = [''PRAGMA journal_mode=WAL'', ''PRAGMA foreign_keys=ON'',
     ''PRAGMA busy_timeout='' @ show_int busy, ''PRAGMA synchronous=NORMAL'']"

fun applyPragmas :: "(string \<Rightarrow> err option) \<Rightarrow> (string \<Rightarrow> string) \<Rightarrow> string list \<Rightarrow> err option" where
  "applyPragmas exec quote [] = None"
| "applyPragmas exec quote (p # ps) =
     (case exec p of Some e \<Rightarrow> Some (Errorf (''sqlitekit: pragma '' @ quote p) e) | None \<Rightarrow> applyPragmas exec quote ps)"

definition New_sqlite :: "app_env \<Rightarrow> string \<Rightarrow> err option" where
  "New_sqlite env path =
     (case ae_open env path of Some e \<Rightarrow> Some (Errorf (''sqlitekit: open '' @ path) e)
      | None \<Rightarrow> applyPragmas (ae_pragma env) (ae_quote env) (pragmas 5000))"

text \<open>
  \<open>filepath.Join\<close> of a directory and the name, and the directory of that, for a directory
  without a trailing separator or dots to resolve.
\<close>

definition db_path :: "string \<Rightarrow> string" where "db_path dataDir = dataDir @ ''/wallet.db''"

definition initSQLite :: "app_env \<Rightarrow> string \<Rightarrow> err option" where
  "initSQLite env dataDir =
     (if dataDir = '''' then Some (Sentinel ''data dir is empty; pass --data-dir at startup'')
      else (case ae_mkdir env dataDir of Some e \<Rightarrow> Some (Errorf ''create db dir'' e)
         | None \<Rightarrow> (case New_sqlite env (db_path dataDir) of Some e \<Rightarrow> Some (Errorf ''open sqlite'' e)
            | None \<Rightarrow> map_option (Errorf ''migrate'') (ae_migrate env))))"

section \<open>The client of the node\<close>

definition New_ethkit :: "app_env \<Rightarrow> string \<Rightarrow> err option" where
  "New_ethkit env url =
     (if url = '''' then Some (Sentinel ''ethkit: HTTPURL is required'')
      else map_option (Errorf ''ethkit: dial HTTP'') (ae_dial env url))"

text \<open>The addresses of the chain; a text that is not an address panics.\<close>

definition netForEthkit :: "chain_config \<Rightarrow> (err, network) outcome" where
  "netForEthkit n =
     (case (MustAddress (uv_QuoterV2 (cc_UniswapV3 n)), MustAddress (uv_SwapRouter02 (cc_UniswapV3 n)),
            MustAddress (uv_WrappedNative (cc_UniswapV3 n))) of
        (Returned q, Returned r, Returned w) \<Rightarrow>
          Returned \<lparr>nw_ChainID = cc_ChainID n, nw_UniswapQuoterV2 = q, nw_UniswapSwapRouter02 = r, nw_UniswapWrappedETH = w\<rparr>
      | _ \<Rightarrow> Panicked)"

text \<open>The registry of pending transactions is read, and its table pruned, before the dialling.\<close>

definition initEth ::
  "app_env \<Rightarrow> config \<Rightarrow> chain_config \<Rightarrow> pending_row list \<Rightarrow> (err, network \<times> pending_db) outcome \<times> pending_row list" where
  "initEth env cfg net rows =
     (case netForEthkit net of
        Returned n \<Rightarrow>
          (let (delErr, qryErr, rowsErr) = ae_pending env in
           case NewPendingStore delErr qryErr rowsErr (ae_now env) rows of
             Inl e \<Rightarrow> (Failed (Errorf ''init pending store'' e),
               if delErr = None then delete_where (stale_row (ae_now env)) rows else rows)
           | Inr store \<Rightarrow>
             (case New_ethkit env (ec_HTTPUrl (cf_Ethereum cfg)) of
                Some e \<Rightarrow> (Failed (Errorf ''ethkit new'' e), ps_rows store)
              | None \<Rightarrow> (Returned (n, store), ps_rows store)))
      | _ \<Rightarrow> (Panicked, rows))"

section \<open>The services\<close>

text \<open>The map from symbols to the identifiers of the price service: the chain's own asset.\<close>

definition nativeSymbolID :: "chain_config \<Rightarrow> (string, string) gomap" where
  "nativeSymbolID net =
     (if nt_CoinGeckoID (cc_Native net) \<noteq> '''' then [(nt_Symbol (cc_Native net), nt_CoinGeckoID (cc_Native net))] else [])"

definition verifiedTokenPredicate :: "(string \<Rightarrow> string) \<Rightarrow> token_list option \<Rightarrow> int \<Rightarrow> string \<Rightarrow> bool" where
  "verifiedTokenPredicate lower tlist chainID contractLower \<longleftrightarrow> TokenByAddress lower tlist chainID contractLower \<noteq> None"

definition tokenListLookup ::
  "(string \<Rightarrow> string) \<Rightarrow> token_list option \<Rightarrow> int \<Rightarrow> string \<Rightarrow> (err, token option) outcome" where
  "tokenListLookup lower tlist chainID addressLower =
     (case TokenByAddress lower tlist chainID addressLower of
        None \<Rightarrow> Returned None
      | Some tok \<Rightarrow> (case MustAddress (lt_Address tok) of
          Returned a \<Rightarrow> Returned (Some \<lparr>tk_Address = a, tk_Symbol = lt_Symbol tok, tk_Name = lt_Name tok, tk_Decimals = lt_Decimals tok\<rparr>)
        | _ \<Rightarrow> Panicked))"

text \<open>The sink of the watcher: the panel's \<open>Save\<close>, with the kind as a number.\<close>

definition notificationSink_Save ::
  "(u8 \<Rightarrow> string \<Rightarrow> u8 list \<Rightarrow> bool \<Rightarrow> 's \<Rightarrow> (err + string) \<times> 's) \<Rightarrow> u8 \<Rightarrow> string \<Rightarrow> u8 list \<Rightarrow> bool \<Rightarrow> 's \<Rightarrow> (err + string) \<times> 's" where
  "notificationSink_Save save kind txHash payload isOurs st =
     (case save kind txHash payload isOurs st of
        (Inl e, st') \<Rightarrow> (Inl (Errorf ''notification sink save'' e), st')
      | (Inr i, st') \<Rightarrow> (Inr i, st'))"

text \<open>The notifications are a part of the database.\<close>

definition panel_of :: "wallet_db \<Rightarrow> notification_db" where
  "panel_of db = \<lparr>nd_rows = db_notifications db, nd_settings = db_settings db\<rparr>"

definition sweep_db :: "app_env \<Rightarrow> wallet_db \<Rightarrow> wallet_db" where
  "sweep_db env db =
     (let panel = SweepOnStartup (ae_datetime env) (ae_settings env) (ae_sweep env) (panel_of db)
      in db\<lparr>db_notifications := nd_rows panel, db_settings := nd_settings panel\<rparr>)"

definition initServices ::
  "('k, 'h, 'p, 'a) crypto \<Rightarrow> 'o keyring \<Rightarrow> app_env \<Rightarrow> config \<Rightarrow> ('k, 'o) wallet_state \<Rightarrow>
   err option \<times> ('k, 'o) wallet_state" where
  "initServices cy kr env cfg st =
     (let st1 = st\<lparr>wu_db := sweep_db env (wu_db st)\<rparr> in
      case LoadFromKeychain cy kr (New_keychain (apc_Name (cf_App cfg))) (ae_quote env) (ae_wallet env) st1 of
        (Some e, st2) \<Rightarrow> (Some (Errorf ''load wallet from keychain'' e), st2)
      | (None, st2) \<Rightarrow> (None, st2))"

section \<open>The application\<close>

datatype runner = Watcher_runner | Pending_store_runner | Grpc_server_runner

record app =
  ap_network :: chain_config
  ap_tokenList :: token_list
  ap_client :: network
  ap_pending :: pending_db
  ap_symbols :: "(string, string) gomap"
  ap_runners :: "runner list"
  ap_closers :: "runner list"

definition initGRPCServer :: "config \<Rightarrow> app \<Rightarrow> app" where
  "initGRPCServer cfg a =
     (if \<not> gc_Enabled (cf_GRPC cfg) then a
      else a\<lparr>ap_runners := ap_runners a @ [Watcher_runner, Pending_store_runner, Grpc_server_runner],
             ap_closers := ap_closers a @ [Grpc_server_runner]\<rparr>)"

definition initInfra ::
  "app_env \<Rightarrow> config \<Rightarrow> string \<Rightarrow> wallet_db \<Rightarrow> (err, chain_config \<times> token_list \<times> network \<times> pending_db) outcome \<times> wallet_db" where
  "initInfra env cfg dataDir db =
     (case initNetwork env cfg of
        Inl e \<Rightarrow> (Failed (Errorf ''init network'' e), db)
      | Inr (net, toks) \<Rightarrow>
        (case initSQLite env dataDir of
           Some e \<Rightarrow> (Failed (Errorf ''init sqlite'' e), db)
         | None \<Rightarrow>
           (case initEth env cfg net (db_pending_txs db) of
              (Returned (n, store), rows) \<Rightarrow> (Returned (net, toks, n, store), db\<lparr>db_pending_txs := rows\<rparr>)
            | (Failed e, rows) \<Rightarrow> (Failed (Errorf ''init eth client'' e), db\<lparr>db_pending_txs := rows\<rparr>)
            | (Panicked, rows) \<Rightarrow> (Panicked, db\<lparr>db_pending_txs := rows\<rparr>))))"

definition App_New ::
  "('k, 'h, 'p, 'a) crypto \<Rightarrow> 'o keyring \<Rightarrow> app_env \<Rightarrow> config \<Rightarrow> string \<Rightarrow> ('k, 'o) wallet_state \<Rightarrow>
   (err, app) outcome \<times> ('k, 'o) wallet_state" where
  "App_New cy kr env cfg dataDir st =
     (case initInfra env cfg dataDir (wu_db st) of
        (Panicked, db) \<Rightarrow> (Panicked, st\<lparr>wu_db := db\<rparr>)
      | (Failed e, db) \<Rightarrow> (Failed e, st\<lparr>wu_db := db\<rparr>)
      | (Returned (net, toks, n, store), db) \<Rightarrow>
        (case initServices cy kr env cfg (st\<lparr>wu_db := db\<rparr>) of
           (Some e, st2) \<Rightarrow> (Failed e, st2)
         | (None, st2) \<Rightarrow>
           (Returned (initGRPCServer cfg \<lparr>ap_network = net, ap_tokenList = toks, ap_client = n, ap_pending = store,
              ap_symbols = nativeSymbolID net, ap_runners = [], ap_closers = []\<rparr>), st2)))"

text \<open>
  Shutting down: the closers in reverse order, then the database; an error is logged and stops
  nothing. \<open>close_one\<close> and \<open>close_db\<close> are what closing a component does.
\<close>

definition shutdown :: "('c \<Rightarrow> 's \<Rightarrow> err option \<times> 's) \<Rightarrow> ('s \<Rightarrow> err option \<times> 's) \<Rightarrow> 'c list \<Rightarrow> 's \<Rightarrow> 's" where
  "shutdown close_one close_db closers st = snd (close_db (fold (\<lambda>c s. snd (close_one c s)) (rev closers) st))"

section \<open>What a start keeps\<close>

lemma sweep_db_keeps:
  "db_wallets (sweep_db env db) = db_wallets db" "db_contacts (sweep_db env db) = db_contacts db"
  "db_watched_tokens (sweep_db env db) = db_watched_tokens db" "db_transactions (sweep_db env db) = db_transactions db"
  "db_pending_txs (sweep_db env db) = db_pending_txs db" "db_settings (sweep_db env db) = db_settings db"
  by (auto simp: sweep_db_def panel_of_def SweepOnStartup_def DeleteOlderThanDays_def delete_where_def Let_def
      split: sum.splits option.splits)

lemma LoadFromKeychain_keeps:
  "wu_db (snd (LoadFromKeychain cy kr service quote fail st)) = wu_db st"
  "wu_keyring (snd (LoadFromKeychain cy kr service quote fail st)) = wu_keyring st"
  by (auto simp: LoadFromKeychain_def split: sum.splits)

lemma NewPendingStore_rows:
  "NewPendingStore delErr qryErr rowsErr now rows = Inr s \<Longrightarrow> ps_rows s = delete_where (stale_row now) rows"
  by (auto simp: NewPendingStore_def hydrate_def Let_def split: option.splits)

lemma initEth_rows:
  "snd (initEth env cfg net rows) = rows \<or> snd (initEth env cfg net rows) = delete_where (stale_row (ae_now env)) rows"
  by (auto simp: initEth_def NewPendingStore_rows split: outcome.splits sum.splits prod.splits option.splits)

text \<open>
  What the stored preferences let the sweep of a start take: the notifications older than the
  retention window, when there is one.
\<close>

definition swept :: "app_env \<Rightarrow> wallet_db \<Rightarrow> notifications \<Rightarrow> bool" where
  "swept env db rows \<longleftrightarrow> (\<exists>s. GetSettings_row (ae_settings env) (db_settings db) = Inr s \<and> se_AutoDeleteDays s > 0
     \<and> rows = filter (\<lambda>r. \<not> outdated (ae_datetime env) s r) (db_notifications db))"

lemma sweep_db_notifications:
  "db_notifications (sweep_db env db) = db_notifications db \<or> swept env db (db_notifications (sweep_db env db))"
proof (cases "GetSettings_row (ae_settings env) (db_settings db)")
  case (Inr s)
  then show ?thesis using DeleteOlderThanDays_outdated [of s "ae_datetime env" "db_notifications db"]
    by (cases "ae_sweep env")
      (auto simp: swept_def sweep_db_def panel_of_def SweepOnStartup_def DeleteOlderThanDays_def Let_def split: if_splits)
qed (simp add: sweep_db_def panel_of_def SweepOnStartup_def)

text \<open>The tables that a start only reads, and what may go from the other two.\<close>

definition kept :: "app_env \<Rightarrow> wallet_db \<Rightarrow> wallet_db \<Rightarrow> bool" where
  "kept env db db' \<longleftrightarrow> db_wallets db' = db_wallets db \<and> db_contacts db' = db_contacts db
     \<and> db_watched_tokens db' = db_watched_tokens db \<and> db_transactions db' = db_transactions db
     \<and> db_settings db' = db_settings db
     \<and> (db_notifications db' = db_notifications db \<or> swept env db (db_notifications db'))
     \<and> (db_pending_txs db' = db_pending_txs db \<or> db_pending_txs db' = delete_where (stale_row (ae_now env)) (db_pending_txs db))"

lemma initInfra_kept: "kept env db (snd (initInfra env cfg dataDir db)) \<and> db_notifications (snd (initInfra env cfg dataDir db)) = db_notifications db"
proof -
  have rows: "rows = db_pending_txs db \<or> rows = delete_where (stale_row (ae_now env)) (db_pending_txs db)"
    if "initEth env cfg net (db_pending_txs db) = (r, rows)" for net r rows
    using initEth_rows [of env cfg net "db_pending_txs db"] that by simp
  show ?thesis
    by (auto simp: initInfra_def kept_def dest: rows split: sum.splits prod.splits option.splits outcome.splits)
qed

lemma initServices_keeps:
  "wu_db (snd (initServices cy kr env cfg st)) = sweep_db env (wu_db st)"
  "wu_keyring (snd (initServices cy kr env cfg st)) = wu_keyring st"
proof -
  obtain r st2 where "LoadFromKeychain cy kr (New_keychain (apc_Name (cf_App cfg))) (ae_quote env) (ae_wallet env)
      (st\<lparr>wu_db := sweep_db env (wu_db st)\<rparr>) = (r, st2)" by force
  with LoadFromKeychain_keeps [of cy kr "New_keychain (apc_Name (cf_App cfg))" "ae_quote env" "ae_wallet env"
      "st\<lparr>wu_db := sweep_db env (wu_db st)\<rparr>"]
  show "wu_db (snd (initServices cy kr env cfg st)) = sweep_db env (wu_db st)"
    "wu_keyring (snd (initServices cy kr env cfg st)) = wu_keyring st"
    by (auto simp: initServices_def Let_def split: option.splits)
qed

lemma kept_sweep: "kept env db db' \<Longrightarrow> db_notifications db' = db_notifications db \<Longrightarrow> kept env db (sweep_db env db')"
  using sweep_db_keeps [of env db'] sweep_db_notifications [of env db'] by (auto simp: kept_def swept_def)

text \<open>
  C15. Apart from what the library's migrations do, starting the process never loses user data.
  However the start ends - with a running application, an error of any step, or a panic over
  an address of the chain that cannot be read - the stored secret, the wallet record, the contacts, the watchlist, the cached history
  and the preferences are what they were; only notifications older than the stored retention
  window, all of them at once and only when there is one, and pending
  transactions that were taken off the registry long enough ago, may be gone.
\<close>

theorem start_keeps:
  "wu_keyring (snd (App_New cy kr env cfg dataDir st)) = wu_keyring st
    \<and> kept env (wu_db st) (wu_db (snd (App_New cy kr env cfg dataDir st)))"
proof -
  obtain r db where i: "initInfra env cfg dataDir (wu_db st) = (r, db)" by force
  with initInfra_kept [of env "wu_db st" cfg dataDir]
  have k: "kept env (wu_db st) db" "db_notifications db = db_notifications (wu_db st)" by simp_all
  obtain r2 st2 where s: "initServices cy kr env cfg (st\<lparr>wu_db := db\<rparr>) = (r2, st2)" by force
  with initServices_keeps [of cy kr env cfg "st\<lparr>wu_db := db\<rparr>"]
  have "wu_db st2 = sweep_db env db" "wu_keyring st2 = wu_keyring st" by simp_all
  with k kept_sweep [OF k] show ?thesis
    by (auto simp: App_New_def i s split: outcome.splits option.splits)
qed

section \<open>Starting over\<close>

text \<open>The steps before the wallet: the chain, the database, the node.\<close>

definition infra_ok :: "app_env \<Rightarrow> config \<Rightarrow> string \<Rightarrow> chain_config \<Rightarrow> token_list \<Rightarrow> network \<Rightarrow> bool" where
  "infra_ok env cfg dataDir net toks n \<longleftrightarrow> initNetwork env cfg = Inr (net, toks) \<and> initSQLite env dataDir = None
     \<and> netForEthkit net = Returned n \<and> New_ethkit env (ec_HTTPUrl (cf_Ethereum cfg)) = None
     \<and> ae_pending env = (None, None, None) \<and> ae_wallet env = None"

lemma App_New_ok:
  assumes "infra_ok env cfg dataDir net toks n"
    and "NewPendingStore None None None (ae_now env) (db_pending_txs (wu_db st)) = Inr store"
    and "LoadFromKeychain cy kr (New_keychain (apc_Name (cf_App cfg))) (ae_quote env) None
      (st\<lparr>wu_db := sweep_db env ((wu_db st)\<lparr>db_pending_txs := ps_rows store\<rparr>)\<rparr>) = (None, st2)"
  shows "\<exists>a. App_New cy kr env cfg dataDir st = (Returned a, st2) \<and> ap_network a = net \<and> ap_client a = n \<and> ap_pending a = store"
  using assms
  by (simp add: App_New_def initInfra_def initEth_def initServices_def infra_ok_def initGRPCServer_def)

text \<open>
  C3. A process that is started over goes on where the last one stopped. Suppose a wallet was
  imported and its keychain entry and record are still there, and the registry of pending
  transactions went through any history of sends, removals, sweeps and restarts. Then a start
  whose infrastructure comes up ends with a running application, which has the imported wallet
  in memory (or, for a mnemonic imported with another derivation path, the account of the
  default path), lists exactly the transactions that were in flight, and
  keeps its registry in step with the table.
\<close>

theorem restart_resumes:
  assumes "import_wallet cy kr penv imp label st = (None, st1)" "derived cy imp = Some w" "reloaded cy imp w = Inr v"
    and "\<And>pk. key_law cy pk" "pe_service penv = New_keychain (apc_Name (cf_App cfg))"
    and "\<And>o1 o2. kr_Set kr (pe_service penv) keychainKey (stored_secret cy imp w) o1 = (None, o2) \<Longrightarrow>
           kr_Get kr (pe_service penv) keychainKey o2 = Inr (stored_secret cy imp w)"
    and "ps_reach ck T s" "T \<le> ae_now env" "infra_ok env cfg dataDir net toks n"
    and "wu_keyring st2 = wu_keyring st1" "db_wallets (wu_db st2) = db_wallets (wu_db st1)"
    and "db_pending_txs (wu_db st2) = ps_rows s"
  shows "\<exists>a st3. App_New cy kr env cfg dataDir (restarted st2) = (Returned a, st3) \<and> wu_wallet st3 = Some v
    \<and> set (List_ps (ap_pending a)) = norm_tx ` set (List_ps s) \<and> db_pending_txs (wu_db st3) = ps_rows (ap_pending a)"
proof -
  note left = import_leaves [OF assms(1,2)]
  obtain store where store: "NewPendingStore None None None (ae_now env) (ps_rows s) = Inr store"
      "set (List_ps store) = norm_tx ` set (List_ps s)"
    by (rule restart_lists [OF conjunct2 [OF ps_reach_mirrored [OF assms(7)]] assms(8)]) (rule that)
  define db where "db = sweep_db env ((wu_db st2)\<lparr>db_pending_txs := ps_rows store\<rparr>)"
  have "db_wallets db = [row_of_wallet (pe_ck penv) (new_record penv w (stored_type imp) label)]"
    unfolding db_def sweep_db_keeps using assms(11) left(2) by simp
  then have "Get_wallet None db = Inr (new_record penv w (stored_type imp) label)" by (rule Get_wallet_row)
  moreover have "kr_Get kr (New_keychain (apc_Name (cf_App cfg))) keychainKey (wu_keyring st2) = Inr (stored_secret cy imp w)"
    using assms(6) [OF left(3)] unfolding assms(5,10) .
  ultimately have "LoadFromKeychain cy kr (New_keychain (apc_Name (cf_App cfg))) (ae_quote env) None
      \<lparr>wu_db = db, wu_keyring = wu_keyring st2, wu_wallet = None\<rparr>
      = (None, \<lparr>wu_db = db, wu_keyring = wu_keyring st2, wu_wallet = Some v\<rparr>)"
    using LoadFromKeychain_stored [OF assms(2,4), of db penv label kr "New_keychain (apc_Name (cf_App cfg))" "wu_keyring st2"] assms(3) by simp
  moreover have "(restarted st2)\<lparr>wu_db := db\<rparr> = \<lparr>wu_db = db, wu_keyring = wu_keyring st2, wu_wallet = None\<rparr>"
    by (cases st2) (simp add: restarted_def)
  ultimately have load: "LoadFromKeychain cy kr (New_keychain (apc_Name (cf_App cfg))) (ae_quote env) None ((restarted st2)\<lparr>wu_db := db\<rparr>)
      = (None, \<lparr>wu_db = db, wu_keyring = wu_keyring st2, wu_wallet = Some v\<rparr>)"
    by (simp only:)
  have same: "wu_db (restarted st2) = wu_db st2" by (simp add: restarted_def)
  have "\<exists>a. App_New cy kr env cfg dataDir (restarted st2)
      = (Returned a, \<lparr>wu_db = db, wu_keyring = wu_keyring st2, wu_wallet = Some v\<rparr>)
      \<and> ap_network a = net \<and> ap_client a = n \<and> ap_pending a = store"
    by (rule App_New_ok [OF assms(9)]) (simp_all only: same assms(12) store(1) db_def [symmetric] load)
  then obtain a where a: "App_New cy kr env cfg dataDir (restarted st2)
      = (Returned a, \<lparr>wu_db = db, wu_keyring = wu_keyring st2, wu_wallet = Some v\<rparr>)" "ap_pending a = store" by blast
  moreover have "db_pending_txs db = ps_rows store" unfolding db_def sweep_db_keeps by simp
  ultimately show ?thesis using store(2) 
    by (intro exI [of _ a] exI [of _ "\<lparr>wu_db = db, wu_keyring = wu_keyring st2, wu_wallet = Some v\<rparr>"] conjI) simp_all
qed


definition example_chain :: chain_config where
  "example_chain = \<lparr>cc_ID = ''ethereum'', cc_ChainID = 1, cc_Name = ''Ethereum'', cc_Explorer = [],
     cc_Native = \<lparr>nt_Symbol = ''ETH'', nt_Name = ''Ether'', nt_Decimals = 18, nt_CoinGeckoID = ''ethereum'', nt_LogoURI = []\<rparr>,
     cc_UniswapV3 = \<lparr>uv_SwapRouter02 = address_hex 1, uv_QuoterV2 = address_hex 2, uv_WrappedNative = address_hex 3\<rparr>\<rparr>"

definition example_tokens :: token_list where
  "example_tokens = \<lparr>tl_Name = ''x'', tl_Version = ''1.0.0'', tl_Timestamp = [], tl_byChain = []\<rparr>"

definition example_app_env :: app_env where
  "example_app_env = \<lparr>ae_networks = (\<lambda>p. Inr [(''ethereum'', example_chain)]), ae_tokenlist = (\<lambda>p. Inr example_tokens),
     ae_quote = (\<lambda>s. s), ae_mkdir = (\<lambda>d. None), ae_open = (\<lambda>p. None), ae_pragma = (\<lambda>p. None), ae_migrate = None,
     ae_dial = (\<lambda>u. None), ae_now = 1, ae_pending = (None, None, None), ae_settings = no_fault, ae_sweep = None,
     ae_datetime = (\<lambda>m. None), ae_wallet = None\<rparr>"

definition example_config :: config where
  "example_config = \<lparr>cf_App = \<lparr>apc_Name = [], apc_Version = [], apc_Environment = [], apc_ShutdownTimeout = 0,
       apc_Retry = \<lparr>ar_MaxRetries = 0, ar_BaseDelay = 0, ar_MaxDelay = 0\<rparr>\<rparr>,
     cf_GRPC = \<lparr>gc_Enabled = True, gc_Host = ''127.0.0.1'', gc_Port = 50051, gc_Authorization = ''t'', gc_Reflection = False, gc_ShutdownTimeout = 0\<rparr>,
     cf_Logger = \<lparr>lc_Level = [], lc_Format = [], lc_AddSource = False, lc_Pretty = False\<rparr>,
     cf_Ethereum = \<lparr>ec_Network = [], ec_HTTPUrl = ''http://node'', ec_AlchemyAPIKey = [], ec_NetworksFile = [], ec_TokenListFile = []\<rparr>,
     cf_Pricefeed = \<lparr>pf_CoinGeckoKey = [], pf_CoinGeckoPlan = []\<rparr>\<rparr>"

lemma example_infra:
  "infra_ok example_app_env example_config ''d'' example_chain example_tokens
     \<lparr>nw_ChainID = 1, nw_UniswapQuoterV2 = 2, nw_UniswapSwapRouter02 = 1, nw_UniswapWrappedETH = 3\<rparr>"
  by (simp add: infra_ok_def example_app_env_def example_config_def initNetwork_def Network_of_def initSQLite_def New_sqlite_def
      pragmas_def netForEthkit_def MustAddress_def example_chain_def New_ethkit_def Let_def)

definition pending_example :: pending_db where
  "pending_example = Add_ps (\<lambda>_ _. False) True sample_pending \<lparr>ps_snap = \<lparr>txs = [], recent = []\<rparr>, ps_rows = []\<rparr>"

lemma restart_resumes_witness:
  "\<exists>st1 a st3. import_wallet example_crypto example_keyring example_persist_env (From_mnemonic ''abc'' '''') ''main'' example_state = (None, st1)
     \<and> App_New example_crypto example_keyring example_app_env example_config ''d''
         (restarted (st1\<lparr>wu_db := (wu_db st1)\<lparr>db_pending_txs := ps_rows pending_example\<rparr>\<rparr>)) = (Returned a, st3)
     \<and> wu_wallet st3 = wu_wallet st1 \<and> set (List_ps (ap_pending a)) = {norm_tx sample_pending}"
proof -
  let ?imp = "From_mnemonic ''abc'' ''''"
  let ?w = "\<lparr>wl_privateKey = bytes_of (''abc'' @ DefaultDerivationPath), wl_address = 19\<rparr>"
  obtain r st1 where run: "import_wallet example_crypto example_keyring example_persist_env ?imp ''main'' example_state = (r, st1)"
    by force
  have d: "derived example_crypto ?imp = Some ?w" and v: "reloaded example_crypto ?imp ?w = Inr ?w"
    by (simp_all add: example_crypto_def ValidateMnemonic_def NewWalletFromMnemonic_def newWalletFromECDSA_def bytes_of_def
      DefaultDerivationPath_def mapE_def)
  have "r = None"
    using run import_wallet_ok [OF d, of example_persist_env example_keyring example_state _ "''main''"]
    by (simp add: reset_ok_def example_persist_env_def example_keyring_def list_all_iff)
  then have run1: "import_wallet example_crypto example_keyring example_persist_env ?imp ''main'' example_state = (None, st1)"
    using run by simp
  have reach: "ps_reach (\<lambda>_ _. False) 0 pending_example" unfolding pending_example_def by (rule sample_reach)
  let ?st2 = "st1\<lparr>wu_db := (wu_db st1)\<lparr>db_pending_txs := ps_rows pending_example\<rparr>\<rparr>"
  have "\<exists>a st3. App_New example_crypto example_keyring example_app_env example_config ''d'' (restarted ?st2) = (Returned a, st3)
     \<and> wu_wallet st3 = Some ?w \<and> set (List_ps (ap_pending a)) = norm_tx ` set (List_ps pending_example)
     \<and> db_pending_txs (wu_db st3) = ps_rows (ap_pending a)"
    by (rule restart_resumes [OF run1 d v _ _ _ reach _ example_infra])
      (simp_all add: key_law_def example_crypto_def example_keyring_def example_persist_env_def New_keychain_def example_config_def example_app_env_def)
  moreover have "wu_wallet st1 = Some ?w" using import_leaves(1) [OF run1 d] .
  moreover have "set (List_ps pending_example) = {sample_pending}"
    by (simp add: pending_example_def List_pt_def Add_pt_def)
  ultimately show ?thesis using run1 by auto
qed

section \<open>The verified tokens as they are wired\<close>

text \<open>An address of the list is in ASCII, so the library's lower-casing is that of ASCII on it.\<close>

definition ascii_list :: "(string \<Rightarrow> string) \<Rightarrow> token_list_file \<Rightarrow> bool" where
  "ascii_list lower raw \<longleftrightarrow> list_all (\<lambda>t. lower (lt_Address t) = ToLower (lt_Address t)) (tf_Tokens raw)
     \<and> (\<forall>a. lower (address_hex a) = address_hex a)"

lemma find_Some_in: "find P xs = Some x \<Longrightarrow> x \<in> set xs \<and> P x"
  by (induction xs) (auto split: if_splits)

text \<open>
  C20. The lookup of verified tokens that the watcher and the history are wired with is sound
  and cannot panic for the address of a contract: what it answers for a contract is an entry of
  the list for the chain of the process whose address is that very contract, with its symbol
  and decimals, so no token of another chain and no namesake passes for it; and the watcher
  knows a contract exactly when the history counts it as verified.
\<close>

theorem verified_lookup_sound:
  assumes "parseTokenList lower (Inr raw) source = Inr toks" "ascii_list lower raw"
  shows "(case tokenListLookup lower (Some toks) chain (address_hex a) of
      Returned None \<Rightarrow> \<not> verifiedTokenPredicate lower (Some toks) chain (address_hex a)
    | Returned (Some t) \<Rightarrow> verifiedTokenPredicate lower (Some toks) chain (address_hex a) \<and> tk_Address t = a
        \<and> (\<exists>x \<in> set (tf_Tokens raw). lt_ChainID x = chain \<and> ToLower (lt_Address x) = address_hex a
             \<and> tk_Symbol t = lt_Symbol x \<and> tk_Decimals t = lt_Decimals x)
    | _ \<Rightarrow> False)"
proof -
  have low: "lower (address_hex a) = address_hex a" using assms(2) by (simp add: ascii_list_def)
  have ne: "address_hex a \<noteq> []" by (simp add: address_hex_def)
  let ?P = "\<lambda>t. lt_Address t \<noteq> [] \<and> lt_ChainID t \<noteq> 0 \<and> lt_ChainID t = chain \<and> lower (lt_Address t) = address_hex a"
  have found: "TokenByAddress lower (Some toks) chain (address_hex a) =
      map_option (\<lambda>t. t\<lparr>lt_Address := address_hex a\<rparr>) (find ?P (rev (tf_Tokens raw)))"
    using conjunct1 [OF token_list_lookup [OF assms(1) ne, of chain]] by (simp only: low)
  show ?thesis
  proof (cases "find ?P (rev (tf_Tokens raw))")
    case None
    with found show ?thesis by (simp add: tokenListLookup_def verifiedTokenPredicate_def)
  next
    case (Some x)
    then have x: "x \<in> set (tf_Tokens raw)" "lt_ChainID x = chain" "lower (lt_Address x) = address_hex a"
      using find_Some_in [OF Some] by simp_all
    with assms(2) have "ToLower (lt_Address x) = address_hex a" by (auto simp: ascii_list_def list_all_iff)
    with found Some x show ?thesis
      by (auto simp: tokenListLookup_def verifiedTokenPredicate_def MustAddress_def)
  qed
qed

definition usdc_entry :: listed_token where
  "usdc_entry = \<lparr>lt_ChainID = 1, lt_Address = address_hex 5, lt_Symbol = ''USDC'', lt_Name = ''USD Coin'', lt_Decimals = 6, lt_LogoURI = []\<rparr>"

lemma verified_lookup_sound_witness:
  "\<exists>toks t. parseTokenList ToLower (Inr \<lparr>tf_Name = ''x'', tf_Timestamp = [], tf_Version = (1, 2, 3), tf_Tokens = [usdc_entry]\<rparr>) ''f'' = Inr toks
     \<and> tokenListLookup ToLower (Some toks) 1 (address_hex 5) = Returned (Some t) \<and> tk_Address t = 5 \<and> tk_Symbol t = ''USDC''"
proof -
  let ?raw = "\<lparr>tf_Name = ''x'', tf_Timestamp = [], tf_Version = (1, 2, 3), tf_Tokens = [usdc_entry]\<rparr>"
  have low: "ToLower (address_hex a) = address_hex a" for a by (simp flip: ToLower_Hex add: ToLower_idem)
  have asc: "ascii_list ToLower ?raw" by (simp add: ascii_list_def low)
  have "\<exists>toks. parseTokenList ToLower (Inr ?raw) ''f'' = Inr toks" by (simp add: parseTokenList_def)
  then obtain toks where toks: "parseTokenList ToLower (Inr ?raw) ''f'' = Inr toks" ..
  have ne: "address_hex 5 \<noteq> []" by (simp add: address_hex_def)
  have "TokenByAddress ToLower (Some toks) 1 (address_hex 5) = Some usdc_entry"
    using conjunct1 [OF token_list_lookup [OF toks ne, of 1]] by (simp add: usdc_entry_def low ne)
  then have "\<exists>t. tokenListLookup ToLower (Some toks) 1 (address_hex 5) = Returned (Some t)"
    by (simp add: tokenListLookup_def usdc_entry_def MustAddress_def)
  then obtain t where t: "tokenListLookup ToLower (Some toks) 1 (address_hex 5) = Returned (Some t)" ..
  from verified_lookup_sound [OF toks asc, of 1 5] t have "tk_Address t = 5" "tk_Symbol t = ''USDC''"
    by (simp_all add: usdc_entry_def)
  with toks t show ?thesis by blast
qed

end
