(* ===== verification/Logging.thy ===== *)
theory Logging
  imports Prelude Strconv Errors
begin

text \<open>
  pkg/logger: the options, the attributes every record carries, the chain of an error, and the
  handler for terminals. The values of attributes are a type variable; their texts, the clock
  of a record and the JSON encoder are parameters. What is written is a list of lines.
\<close>

section \<open>Options\<close>

definition LevelDebug :: int where "LevelDebug = -4"
definition LevelInfo :: int where "LevelInfo = 0"
definition LevelWarn :: int where "LevelWarn = 4"
definition LevelError :: int where "LevelError = 8"

record log_options =
  op_Level :: int
  op_AppName :: string
  op_AddSource :: bool
  op_PrettyPrint :: bool
  op_Environment :: string

text \<open>\<open>trim\<close> is \<open>TrimSpace\<close>.\<close>

definition parseLevel :: "(string \<Rightarrow> string) \<Rightarrow> string \<Rightarrow> int" where
  "parseLevel trim s =
     (let l = ToLower (trim s) in
      if l = ''debug'' then LevelDebug
      else if l = ''info'' \<or> l = '''' then LevelInfo
      else if l = ''warn'' \<or> l = ''warning'' then LevelWarn
      else if l = ''error'' then LevelError
      else LevelInfo)"

definition WithLevelString :: "(string \<Rightarrow> string) \<Rightarrow> string \<Rightarrow> log_options \<Rightarrow> log_options" where
  "WithLevelString trim s o1 = o1\<lparr>op_Level := parseLevel trim s\<rparr>"

definition WithAppName :: "string \<Rightarrow> log_options \<Rightarrow> log_options" where
  "WithAppName name o1 = o1\<lparr>op_AppName := name\<rparr>"

definition WithEnvironment :: "string \<Rightarrow> log_options \<Rightarrow> log_options" where
  "WithEnvironment env o1 = o1\<lparr>op_Environment := env\<rparr>"

definition WithSource :: "bool \<Rightarrow> log_options \<Rightarrow> log_options" where
  "WithSource enabled o1 = o1\<lparr>op_AddSource := enabled\<rparr>"

definition WithPrettyPrint :: "bool \<Rightarrow> log_options \<Rightarrow> log_options" where
  "WithPrettyPrint enabled o1 = o1\<lparr>op_PrettyPrint := enabled\<rparr>"

definition resolve_options :: "(log_options \<Rightarrow> log_options) option list \<Rightarrow> log_options" where
  "resolve_options opts =
     fold (\<lambda>fn o1. case fn of None \<Rightarrow> o1 | Some f \<Rightarrow> f o1) opts
       \<lparr>op_Level = LevelDebug, op_AppName = '''', op_AddSource = True, op_PrettyPrint = False, op_Environment = ''''\<rparr>"

definition baseAttrs :: "log_options \<Rightarrow> (string \<times> string) list" where
  "baseAttrs o1 = (if op_AppName o1 \<noteq> '''' then [(''app'', op_AppName o1)] else [])
     @ (if op_Environment o1 \<noteq> '''' then [(''env'', op_Environment o1)] else [])"

text \<open>The loop runs down from the end and stops before the first character.\<close>

fun after_slash :: "nat \<Rightarrow> string \<Rightarrow> string" where
  "after_slash 0 short = short"
| "after_slash (Suc i) short = (if short ! Suc i = CHR ''/'' then drop (Suc (Suc i)) short else after_slash i short)"

definition shortSource :: "string \<Rightarrow> int \<Rightarrow> string" where
  "shortSource file line = after_slash (length file - 1) file @ '':'' @ show_int line"

section \<open>The chain of an error\<close>

text \<open>\<open>errors.Unwrap\<close> follows a single cause and stops at a join of several.\<close>

fun ErrorChain :: "err \<Rightarrow> string list" where
  "ErrorChain (AppError c m (Some e)) = Error_text (AppError c m (Some e)) # ErrorChain e"
| "ErrorChain (AppError c m None) = [Error_text (AppError c m None)]"
| "ErrorChain (Sentinel s) = [s]"
| "ErrorChain (StatusError c m) = [Error_text (StatusError c m)]"
| "ErrorChain (WrapError s [e]) = s # ErrorChain e"
| "ErrorChain (WrapError s []) = [s]"
| "ErrorChain (WrapError s (e1 # e2 # es)) = [s]"

section \<open>The handler for terminals\<close>

definition escape :: "string \<Rightarrow> string" where "escape c = CHR 0x1B # ''['' @ c @ ''m''"

definition colorReset :: string where "colorReset = escape ''0''"
definition colorPurple :: string where "colorPurple = escape ''35''"
definition colorCyan :: string where "colorCyan = escape ''36''"
definition colorGray :: string where "colorGray = escape ''90''"
definition colorWhite :: string where "colorWhite = escape ''97''"
definition colorBoldRed :: string where "colorBoldRed = escape ''1;31''"
definition colorBoldYellow :: string where "colorBoldYellow = escape ''1;33''"
definition colorBoldGreen :: string where "colorBoldGreen = escape ''1;32''"
definition colorBoldBlue :: string where "colorBoldBlue = escape ''1;34''"

datatype 'v attr = Attr string 'v | Attr_group string "'v attr list"

record 'v pretty_handler =
  ph_level :: "int option"
  ph_attrs :: "'v attr list"
  ph_groupName :: string

definition NewPrettyHandler :: "int option \<Rightarrow> 'v pretty_handler" where
  "NewPrettyHandler level = \<lparr>ph_level = level, ph_attrs = [], ph_groupName = ''''\<rparr>"

definition Enabled :: "'v pretty_handler \<Rightarrow> int \<Rightarrow> bool" where
  "Enabled h level \<longleftrightarrow> level \<ge> the_default LevelInfo (ph_level h)"

definition WithAttrs :: "'v attr list \<Rightarrow> 'v pretty_handler \<Rightarrow> 'v pretty_handler" where
  "WithAttrs attrs h = h\<lparr>ph_attrs := ph_attrs h @ attrs\<rparr>"

definition WithGroup :: "string \<Rightarrow> 'v pretty_handler \<Rightarrow> 'v pretty_handler" where
  "WithGroup name h =
     h\<lparr>ph_groupName := (if ph_groupName h \<noteq> '''' then ph_groupName h @ ''.'' @ name else name)\<rparr>"

definition formatLevel :: "int \<Rightarrow> string \<times> string" where
  "formatLevel level =
     (if level \<ge> LevelError then (''ERROR'', colorBoldRed)
      else if level \<ge> LevelWarn then (''WARN'', colorBoldYellow)
      else if level \<ge> LevelInfo then (''INFO'', colorBoldGreen)
      else (''DEBUG'', colorBoldBlue))"

definition key_path :: "string \<Rightarrow> string \<Rightarrow> string" where
  "key_path prefix key = (if prefix \<noteq> '''' then prefix @ ''.'' @ key else key)"

fun addAttrToMap :: "'v attr \<Rightarrow> string \<Rightarrow> (string, 'v) gomap \<Rightarrow> (string, 'v) gomap" and
  add_attrs :: "'v attr list \<Rightarrow> string \<Rightarrow> (string, 'v) gomap \<Rightarrow> (string, 'v) gomap" where
  "addAttrToMap (Attr k v) prefix m = AList.update (key_path prefix k) v m"
| "addAttrToMap (Attr_group k as) prefix m = add_attrs as (key_path prefix k) m"
| "add_attrs [] prefix m = m"
| "add_attrs (a # as) prefix m = add_attrs as prefix (addAttrToMap a prefix m)"

text \<open>
  The rendering: \<open>val_text\<close> is \<open>formatValue\<close>, \<open>complex_value\<close> the test of
  \<open>hasComplexValues\<close>, \<open>json\<close> the encoder, and \<open>order\<close> the order of the map.
\<close>

record 'v rendering =
  rd_value :: "'v \<Rightarrow> string"
  rd_complex :: "'v \<Rightarrow> bool"
  rd_json :: "(string, 'v) gomap \<Rightarrow> string option"
  rd_show :: "(string, 'v) gomap \<Rightarrow> string"
  rd_order :: "(string, 'v) gomap \<Rightarrow> (string, 'v) gomap"

definition hasComplexValues :: "'v rendering \<Rightarrow> (string, 'v) gomap \<Rightarrow> bool" where
  "hasComplexValues rd attrs \<longleftrightarrow> list_ex (\<lambda>(k, v). rd_complex rd v) attrs"

fun inline_loop :: "'v rendering \<Rightarrow> bool \<Rightarrow> (string, 'v) gomap \<Rightarrow> string" where
  "inline_loop rd first [] = ''''"
| "inline_loop rd first ((k, v) # rest) =
     (if \<not> first then '', '' else '''') @ colorCyan @ k @ colorGray @ ''='' @ colorPurple @ rd_value rd v @ colorGray
       @ inline_loop rd False rest"

definition formatAttrsInline :: "'v rendering \<Rightarrow> (string, 'v) gomap \<Rightarrow> string" where
  "formatAttrsInline rd attrs = colorGray @ ''{'' @ inline_loop rd True (rd_order rd attrs) @ ''}'' @ colorReset"

definition formatAttrsJSON :: "'v rendering \<Rightarrow> (string, 'v) gomap \<Rightarrow> string" where
  "formatAttrsJSON rd attrs =
     (case rd_json rd attrs of None \<Rightarrow> colorGray @ rd_show rd attrs @ colorReset
      | Some data \<Rightarrow> colorGray @ data @ colorReset)"

definition formatAttrs :: "'v rendering \<Rightarrow> (string, 'v) gomap \<Rightarrow> string" where
  "formatAttrs rd attrs =
     (if length attrs = 0 then ''''
      else if length attrs \<le> 3 \<and> \<not> hasComplexValues rd attrs then formatAttrsInline rd attrs
      else formatAttrsJSON rd attrs)"

record 'v log_record =
  lr_time :: string
  lr_level :: int
  lr_message :: string
  lr_attrs :: "'v attr list"

definition pad5 :: "string \<Rightarrow> string" where "pad5 s = s @ replicate (5 - length s) CHR '' ''"

definition collected :: "'v pretty_handler \<Rightarrow> 'v log_record \<Rightarrow> (string, 'v) gomap" where
  "collected h r = add_attrs (lr_attrs r) (ph_groupName h) (add_attrs (ph_attrs h) (ph_groupName h) [])"

definition Handle :: "'v rendering \<Rightarrow> 'v pretty_handler \<Rightarrow> 'v log_record \<Rightarrow> string list \<Rightarrow> string list" where
  "Handle rd h r out =
     (let (levelStr, levelColor) = formatLevel (lr_level r);
          line = colorGray @ lr_time r @ colorReset @ '' '' @ levelColor @ pad5 levelStr @ colorReset @ '' ''
            @ colorWhite @ lr_message r @ colorReset;
          attrs = collected h r
      in out @ [line @ (if length attrs > 0 then '' '' @ formatAttrs rd attrs else '''')])"

section \<open>Laws\<close>

text \<open>The attributes as pairs of a qualified name and a value, in order.\<close>

fun attr_pairs :: "string \<Rightarrow> 'v attr \<Rightarrow> (string \<times> 'v) list" where
  "attr_pairs prefix (Attr k v) = [(key_path prefix k, v)]"
| "attr_pairs prefix (Attr_group k as) = concat (map (attr_pairs (key_path prefix k)) as)"

lemma add_attrs_pairs:
  fixes a :: "'v attr" and as :: "'v attr list"
  shows "addAttrToMap a prefix m = fold (\<lambda>(k, v). AList.update k v) (attr_pairs prefix a) m"
    and "add_attrs as prefix m = fold (\<lambda>(k, v). AList.update k v) (concat (map (attr_pairs prefix) as)) m"
  by (induction a prefix m and as prefix m rule: addAttrToMap_add_attrs.induct) simp_all

lemma map_of_fold_update:
  "map_of (fold (\<lambda>(k, v). AList.update k v) ps m) k =
     (case map_of (rev ps) k of Some v \<Rightarrow> Some v | None \<Rightarrow> map_of m k)"
  by (induction ps rule: rev_induct) (auto simp: update_conv' split: option.splits)

lemma distinct_fold_update:
  "distinct (map fst m) \<Longrightarrow> distinct (map fst (fold (\<lambda>(k, v). AList.update k v) ps m))"
  by (induction ps arbitrary: m) (auto simp: AList.distinct_update)

text \<open>
  A line shows each name once, with the value of the last attribute of that name: one of the
  record wins over one of the logger.
\<close>

lemma collected_last:
  "distinct (map fst (collected h r))
    \<and> map_of (collected h r) k = map_of (rev (concat (map (attr_pairs (ph_groupName h)) (ph_attrs h @ lr_attrs r)))) k"
  by (auto simp: collected_def add_attrs_pairs map_of_fold_update distinct_fold_update map_add_def split: option.splits)

text \<open>
  Unlike the handlers of the standard library, a group renames the attributes that the logger
  had before it was opened.
\<close>

lemma group_renames:
  "attr_pairs (ph_groupName h) (Attr k v) = [(k, v)] \<Longrightarrow> g \<noteq> '''' \<Longrightarrow> ph_groupName h = '''' \<Longrightarrow>
   attr_pairs (ph_groupName (WithGroup g h)) (Attr k v) = [(g @ ''.'' @ k, v)]"
  by (simp add: WithGroup_def key_path_def)

text \<open>The chain starts with the whole text, and each text of coded errors ends with the next.\<close>

lemma ErrorChain_head: "\<exists>rest. ErrorChain e = Error_text e # rest"
  by (cases e rule: ErrorChain.cases) simp_all

lemma ErrorChain_wrap: "ErrorChain (wrap c m e) = (code_text c @ '': '' @ m @ '': '' @ Error_text e) # ErrorChain e"
  by simp

end
