(* ===== verification/Spec2Isabelle.thy ===== *)
theory Spec2Isabelle
  imports Pending_Sqlite Swaps Simulate Prices Retry Contacts Tokens History Networks Watcher Notifications Keys Wallets Wallet_Usecase Grpckit Handler Rpc_Wallet Rpc_Data Rpc_Swap Config App Logging
begin

text \<open>
  Verification development for nox-wallet, the backend of a self-custodial Ethereum wallet
  (Go). The backend is one process: a gRPC server for the user interface on top of usecases,
  which keep their data in one SQLite database, the secret of the wallet in the system
  keychain, and talk to an Ethereum node, a transfer service and a price service.

  \<^bold>\<open>The program and its theories.\<close> Names of definitions are those of the Go functions and
  methods; a suffix tells apart what Go tells apart by package (\<open>Get_wallet\<close>, \<open>GetByID_token\<close>)
  and \<open>_rpc\<close> marks the methods of the gRPC handler. A struct is a record whose fields have a
  two-letter prefix; a message of the protocol is a record \<open>pb_...\<close>.

  \<^item> \<open>Prelude\<close>, \<open>Strconv\<close>, \<open>Decimals\<close>, \<open>Decimal_Text\<close>: the shared vocabulary - machine integers,
    time, Go maps as association lists, results as sums, strings as bytes, rows of a table -
    number texts, and the part of the vendored decimal package the wallet uses.
  \<^item> \<open>Errors\<close> (pkg/errors): the code-tagged error, its wrap chain and its status.
  \<^item> \<open>Addresses\<close>, \<open>Amounts\<close>, \<open>Ethtypes\<close>, \<open>Keys\<close> (pkg/ethkit): addresses as words of 160 bits,
    amounts in wei as integers, the data types, keys and mnemonics.
  \<^item> \<open>Tx\<close>, \<open>Contracts\<close>, \<open>Swaps\<close>, \<open>Simulate\<close>, \<open>Alchemy\<close> (pkg/ethkit, and the swap and approval
    usecases): nonces, fees, sending, replacing; token calls; swaps with their allowance guard;
    simulation; the transfer service and names. The client is a state with the nonces, the
    registry of pending transactions and the list of what was broadcast.
  \<^item> \<open>Pending\<close>, \<open>Pending_Sqlite\<close> (pkg/ethkit/pending.go, internal/adapter/eth/pending_store.go):
    the registry of transactions in flight, in memory and on its table, and the janitor.
  \<^item> \<open>Retry\<close>, \<open>Cache\<close>, \<open>Prices\<close> (pkg/common/retryx, pkg/cache, internal/adapter/price).
  \<^item> \<open>Repository\<close>, \<open>Contacts\<close>, \<open>Tokens\<close>, \<open>Txstore\<close>, \<open>History\<close>, \<open>Notifications\<close>, \<open>Wallets\<close>,
    \<open>Wallet_Usecase\<close> (internal/domain, internal/usecase): a storage per table, as a list of rows,
    and the usecase on it. \<open>Wallets\<close> has the whole database, which a replacement of the wallet
    wipes, and the keychain.
  \<^item> \<open>Networks\<close> (config/networks): the catalog of chains and the verified tokens.
  \<^item> \<open>Watch_Events\<close>, \<open>Watcher\<close> (internal/usecase/watcher): events from transfers, the tick of
    the watcher with its window, its memory of announced and held-back transactions, and the hub
    that persists and broadcasts.
  \<^item> \<open>Grpckit\<close> (pkg/grpckit), \<open>Handler\<close>, \<open>Rpc_Wallet\<close>, \<open>Rpc_Data\<close> (internal/handler/grpc): the
    interceptors around a call, the mappings, and every method of the service.
  \<^item> \<open>Config\<close>, \<open>App\<close> (pkg/config, config, internal/app): the configuration and the start.
  \<^item> \<open>Logging\<close> (pkg/logger): the options, the chain of an error, and the rendering for terminals.

  \<^bold>\<open>How the model is built.\<close> An operation takes its state and returns it updated; what a
  library, the operating system, the node, the services or the database driver answer is an
  argument - a function, or a value per call - and so are clock readings, fresh identifiers and
  the order in which Go visits a map or finishes parallel calls. A failing statement is an
  optional error argument, so every early return is a branch. A function that may panic returns
  an \<open>outcome\<close>, a call of the server a \<open>call_result\<close>. Background jobs are returned as what they
  will do. Go's locks appear as the steps they make atomic; where a lock is given up between two
  halves of an operation the halves are separate definitions (\<open>Add_mem\<close>, \<open>Add_sql\<close>).
  Floating-point numbers are a type variable with the operations the code uses on them.

  \<^bold>\<open>What the lemmas show.\<close> Each property is a theorem after a text with its number.
  \<^item> Money: what is typed is what is sent (\<open>SendToken_exact\<close>, from the text of the request to
    the data of the broadcast transaction), and so for a swap (\<open>ExecuteSwap_exact\<close> in \<open>Rpc_Swap\<close>,
    through all layers, with its quote and its minimum); a swap, an approval's revocation and a replacement
    broadcast what they should and nothing else; slippage and conversions within their bounds.
  \<^item> State that survives: the registry against its table over every history of steps
    (\<open>ps_reach\<close>), the imported secret, the whole process (\<open>restart_resumes\<close>, \<open>start_keeps\<close>).
  \<^item> Abstract specifications: the address book and the watchlist refine maps with a unique
    address; the merged history is its reference definition; paging shows a list exactly once.
  \<^item> The watcher: announced events are genuine and in order, and repeated only after 512 other
    transactions were fetched and handled (\<open>watcher_announces\<close>, over the history of a run: what
    each tick fetched, handled and sent); the fate of every transaction of a tick; no block is
    left out.
  \<^item> The panel: a save leaves exactly the newest 200 notifications within the retention window.
  \<^item> The edge: authorization, panics and errors of every chain of wraps; envelopes live and
    stored agree.

  The interfaces are locales, each interpreted on the model: \<open>pending_store\<close> (\<open>Pending\<close>) by the
  store in memory and the one on SQLite; \<open>repository\<close> and \<open>entity_table\<close> (\<open>Repository\<close>, the
  second giving the first) by the tables of contacts and tokens; \<open>ttl_cache\<close> (\<open>Cache\<close>) by the
  cache; \<open>bounded_queue\<close> (\<open>Watcher\<close>) by the set of announced hashes.

  \<^bold>\<open>Bounds and fuel.\<close> Only the page loops of the history have fuel, the number of pages:
  \<open>fetchAllPages_complete\<close> shows that the pages the service has are enough, and for
  \<open>history_pages\<close> one more than the rows. Waiting loops run over the list of what the ticks
  observe, and the poller over its polls. A panel holds 200 notifications, the memory of
  announced hashes 512, a subscriber's buffer 64; these are the code's.

  \<^bold>\<open>Not modelled.\<close> The libraries under the wallet - curve, hash, keystore cipher, ABI encoding,
  HTTP, SQLite and its migrations, YAML, protocol buffers, gRPC, the keyring - are parameters, and
  the embedded contract descriptions are data for one of them. Time-outs of contexts are modelled
  where a loop tests them, not inside a library call. Left out as pure output or glue: which lines
  the components log (but for the interceptors), constructors that store their arguments, interface
  declarations, methods that only hand over to the next layer, flags and signals of the command,
  and the goroutines that run the server.
\<close>

end
